(* ===== verification/Prelude.thy ===== *)
theory Prelude
  imports Main "HOL-Library.Word" "HOL-Library.Multiset" "HOL-Library.Char_ord"
    "HOL-Library.List_Lexorder"
begin

unbundle bit_operations_syntax

text \<open>
  What the component theories share: the machine types, the exceptions of saftlib as values,
  the state-and-exception operations that model C++ member functions, the ordered association
  lists that model \<open>std::map\<close>, and the generic lemmas on lists and words the proofs use.

  A member function that may throw is an \<^emph>\<open>operation\<close> \<open>'w \<Rightarrow> (exn + 'a) \<times> 'w\<close>: it
  returns the value or the exception, and in both cases the state at that moment, because C++
  does not undo the writes made before a throw.
\<close>

section \<open>Machine types and exceptions\<close>

type_synonym u8 = "8 word"
type_synonym u16 = "16 word"
type_synonym u32 = "32 word"
type_synonym u64 = "64 word"

text \<open>\<open>saftbus::Error::Type\<close> (saftbus/error.hpp).\<close>

datatype error_type = NO_ERROR | INVALID_ARGS | UNKNOWN_METHOD | IO_ERROR | ACCESS_DENIED | FAILED

text \<open>
  Everything that ends a call abnormally: a \<open>saftbus::Error\<close>, an exception of the Etherbone
  library, another \<open>std::runtime_error\<close>, an exception of
  another class, a failed \<open>assert\<close>, C++ undefined behaviour, and
  \<open>std::terminate\<close> because an exception left a destructor. The last three are not exceptions a \<open>catch (...)\<close> block can intercept. Whether the Etherbone
  exception class derives from \<open>std::runtime_error\<close> is not visible in this repository; it is
  the first argument of its constructor.
\<close>

datatype exn =
    SaftbusError error_type string
  | EbException bool string
  | RuntimeError string
  | OtherException string
  | AssertFailed string
  | Undefined string
  | Terminate string

fun catchable :: "exn \<Rightarrow> bool" where
  "catchable (AssertFailed _) = False"
| "catchable (Undefined _) = False"
| "catchable (Terminate _) = False"
| "catchable _ = True"

text \<open>\<open>e.what()\<close>.\<close>

fun what :: "exn \<Rightarrow> string" where
  "what (SaftbusError _ msg) = msg"
| "what (EbException _ msg) = msg"
| "what (RuntimeError msg) = msg"
| "what (OtherException msg) = msg"
| "what (AssertFailed msg) = msg"
| "what (Undefined msg) = msg"
| "what (Terminate msg) = msg"

abbreviation invalid_args :: "string \<Rightarrow> exn" where
  "invalid_args msg \<equiv> SaftbusError INVALID_ARGS msg"

type_synonym ('w, 'a) op = "'w \<Rightarrow> (exn + 'a) \<times> 'w"

section \<open>Operations\<close>

named_theorems op_simps \<open>unfolding rules of the operation combinators\<close>
named_theorems model_defs \<open>definitions of the component under proof\<close>

definition ret :: "'a \<Rightarrow> ('w, 'a) op" where
  [op_simps]: "ret x = (\<lambda>w. (Inr x, w))"

definition raise :: "exn \<Rightarrow> ('w, 'a) op" where
  [op_simps]: "raise e = (\<lambda>w. (Inl e, w))"

definition bnd :: "('w, 'a) op \<Rightarrow> ('a \<Rightarrow> ('w, 'b) op) \<Rightarrow> ('w, 'b) op" where
  [op_simps]: "bnd m f = (\<lambda>w. case m w of (Inl e, w') \<Rightarrow> (Inl e, w') | (Inr x, w') \<Rightarrow> f x w')"

definition thn :: "('w, 'a) op \<Rightarrow> ('w, 'b) op \<Rightarrow> ('w, 'b) op" where
  [op_simps]: "thn m n = bnd m (\<lambda>_. n)"

definition gets :: "('w \<Rightarrow> 'a) \<Rightarrow> ('w, 'a) op" where
  [op_simps]: "gets f = (\<lambda>w. (Inr (f w), w))"

definition modify :: "('w \<Rightarrow> 'w) \<Rightarrow> ('w, unit) op" where
  [op_simps]: "modify f = (\<lambda>w. (Inr (), f w))"

definition throw_if :: "bool \<Rightarrow> exn \<Rightarrow> ('w, unit) op" where
  [op_simps]: "throw_if b e = (if b then raise e else ret ())"

definition assert_that :: "bool \<Rightarrow> string \<Rightarrow> ('w, unit) op" where
  [op_simps]: "assert_that b msg = (if b then ret () else raise (AssertFailed msg))"

text \<open>\<open>try { m } catch (...) { h }\<close>: the handler runs on the state the throw left behind.\<close>

definition try_catch :: "('w, 'a) op \<Rightarrow> (exn \<Rightarrow> ('w, 'a) op) \<Rightarrow> ('w, 'a) op" where
  [op_simps]: "try_catch m h = (\<lambda>w. case m w of
      (Inl e, w') \<Rightarrow> (if catchable e then h e w' else (Inl e, w'))
    | (Inr x, w') \<Rightarrow> (Inr x, w'))"

text \<open>Sequencing over the elements of a container, stopping at the first exception.\<close>

fun for_each :: "('a \<Rightarrow> ('w, unit) op) \<Rightarrow> 'a list \<Rightarrow> ('w, unit) op" where
  "for_each f [] = ret ()"
| "for_each f (x # xs) = thn (f x) (for_each f xs)"

lemma bnd_Inr [simp]: "m w = (Inr x, w') \<Longrightarrow> bnd m f w = f x w'"
  by (simp add: bnd_def)

lemma bnd_Inl [simp]: "m w = (Inl e, w') \<Longrightarrow> bnd m f w = (Inl e, w')"
  by (simp add: bnd_def)

lemma bnd_eq_Inr:
  "bnd m f w = (Inr y, w'') \<longleftrightarrow> (\<exists>x w'. m w = (Inr x, w') \<and> f x w' = (Inr y, w''))"
  by (auto simp: bnd_def split: prod.splits sum.splits)

text \<open>
  An operation keeps a predicate when the predicate survives it on every outcome, exceptions
  included. The combinators are closed under it, which is how the invariants of the stateful
  components are proved.
\<close>

definition keeps :: "('w \<Rightarrow> bool) \<Rightarrow> ('w, 'a) op \<Rightarrow> bool" where
  "keeps P m \<longleftrightarrow> (\<forall>w. P w \<longrightarrow> P (snd (m w)))"

lemma keepsI [intro?]: "(\<And>w. P w \<Longrightarrow> P (snd (m w))) \<Longrightarrow> keeps P m"
  by (simp add: keeps_def)

lemma keepsD: "keeps P m \<Longrightarrow> P w \<Longrightarrow> P (snd (m w))"
  by (simp add: keeps_def)

lemma keeps_ret [simp, intro]: "keeps P (ret x)"
  and keeps_raise [simp, intro]: "keeps P (raise e)"
  and keeps_gets [simp, intro]: "keeps P (gets f)"
  and keeps_throw_if [simp, intro]: "keeps P (throw_if b e)"
  and keeps_assert_that [simp, intro]: "keeps P (assert_that b msg)"
  by (simp_all add: keeps_def op_simps)

lemma keeps_bnd [intro]: "keeps P m \<Longrightarrow> (\<And>x. keeps P (f x)) \<Longrightarrow> keeps P (bnd m f)"
  by (fastforce simp: keeps_def bnd_def split: prod.splits sum.splits)

lemma keeps_thn [intro]: "keeps P m \<Longrightarrow> keeps P n \<Longrightarrow> keeps P (thn m n)"
  by (auto simp: thn_def)

lemma keeps_modify [intro]: "(\<And>w. P w \<Longrightarrow> P (f w)) \<Longrightarrow> keeps P (modify f)"
  by (simp add: keeps_def modify_def)

lemma keeps_for_each [intro]: "(\<And>x. keeps P (f x)) \<Longrightarrow> keeps P (for_each f xs)"
  by (induction xs) auto

text \<open>
  Where what follows depends on what holds before, a triple: from \<open>P\<close> the operation ends with its
  value in \<open>Q\<close>, or with an exception in \<open>E\<close>.
\<close>

definition triple :: "('w \<Rightarrow> bool) \<Rightarrow> ('w, 'a) op \<Rightarrow> ('a \<Rightarrow> 'w \<Rightarrow> bool) \<Rightarrow> ('w \<Rightarrow> bool) \<Rightarrow> bool" where
  "triple P m Q E \<longleftrightarrow> (\<forall>w. P w \<longrightarrow> (case m w of (Inr x, w') \<Rightarrow> Q x w' | (Inl _, w') \<Rightarrow> E w'))"

lemma triple_bnd: "triple P m Q E \<Longrightarrow> (\<And>x. triple (Q x) (g x) R E) \<Longrightarrow> triple P (bnd m g) R E"
  by (fastforce simp: triple_def bnd_def split: prod.splits sum.splits)

lemma triple_thn: "triple P m (\<lambda>_. Q) E \<Longrightarrow> triple Q n R E \<Longrightarrow> triple P (thn m n) R E"
  unfolding thn_def by (rule triple_bnd)

lemma triple_ret: "(\<And>w. P w \<Longrightarrow> Q x w) \<Longrightarrow> triple P (ret x) Q E"
  by (simp add: triple_def ret_def)

lemma triple_raise: "(\<And>w. P w \<Longrightarrow> E w) \<Longrightarrow> triple P (raise e) Q E"
  by (simp add: triple_def raise_def)

lemma triple_modify: "(\<And>w. P w \<Longrightarrow> Q () (h w)) \<Longrightarrow> triple P (modify h) Q E"
  by (simp add: triple_def modify_def)

lemma triple_assert: "(\<And>w. P w \<Longrightarrow> Q () w) \<Longrightarrow> (\<And>w. P w \<Longrightarrow> E w) \<Longrightarrow> triple P (assert_that b msg) Q E"
  by (simp add: triple_def op_simps)

lemma triple_throw_if: "(\<And>w. P w \<Longrightarrow> Q () w) \<Longrightarrow> (\<And>w. P w \<Longrightarrow> E w) \<Longrightarrow> triple P (throw_if b e) Q E"
  by (simp add: triple_def op_simps)

lemma triple_try: "triple P m Q F \<Longrightarrow> (\<And>e. triple F (h e) Q E) \<Longrightarrow> (\<And>w. F w \<Longrightarrow> E w) \<Longrightarrow> triple P (try_catch m h) Q E"
  by (fastforce simp: triple_def try_catch_def split: prod.splits sum.splits)

lemma triple_weaken:
  "triple P m Q E \<Longrightarrow> (\<And>w. P' w \<Longrightarrow> P w) \<Longrightarrow> (\<And>x w. Q x w \<Longrightarrow> Q' x w) \<Longrightarrow> (\<And>w. E w \<Longrightarrow> E' w) \<Longrightarrow> triple P' m Q' E'"
  by (fastforce simp: triple_def split: prod.splits sum.splits)

lemma triple_keeps: "keeps P m \<longleftrightarrow> triple P m (\<lambda>_. P) P"
  unfolding triple_def keeps_def by (auto simp: case_prod_beta split: sum.split)

lemma triple_run: "triple P m Q E \<Longrightarrow> P w \<Longrightarrow> m w = (Inr x, w') \<Longrightarrow> Q x w'"
  by (auto simp: triple_def split: prod.splits sum.splits)

section \<open>Ordered association lists: \<open>std::map\<close>\<close>

text \<open>
  \<open>std::map\<close> keeps its elements in the order of the keys and iterates in that order, which
  the code relies on. The model is an association list whose keys are strictly increasing.
\<close>

abbreviation omap_ok :: "('k::linorder \<times> 'v) list \<Rightarrow> bool" where
  "omap_ok xs \<equiv> sorted_wrt (<) (map fst xs)"

text \<open>\<open>m[k] = v\<close>: overwrites an existing entry.\<close>

fun omap_put :: "'k::linorder \<Rightarrow> 'v \<Rightarrow> ('k \<times> 'v) list \<Rightarrow> ('k \<times> 'v) list" where
  "omap_put k v [] = [(k, v)]"
| "omap_put k v ((k', v') # xs) =
     (if k < k' then (k, v) # (k', v') # xs
      else if k = k' then (k, v) # xs
      else (k', v') # omap_put k v xs)"

text \<open>\<open>m.insert(make_pair(k, v))\<close>: keeps an existing entry.\<close>

definition omap_insert :: "'k::linorder \<Rightarrow> 'v \<Rightarrow> ('k \<times> 'v) list \<Rightarrow> ('k \<times> 'v) list" where
  "omap_insert k v xs = (if map_of xs k = None then omap_put k v xs else xs)"

definition omap_erase :: "'k \<Rightarrow> ('k \<times> 'v) list \<Rightarrow> ('k \<times> 'v) list" where
  "omap_erase k xs = filter (\<lambda>p. fst p \<noteq> k) xs"

lemma map_of_omap_put [simp]:
  "omap_ok xs \<Longrightarrow> map_of (omap_put k v xs) = (map_of xs)(k \<mapsto> v)"
  by (induction k v xs rule: omap_put.induct) (auto simp: fun_eq_iff)

lemma set_omap_put: "fst ` set (omap_put k v xs) = insert k (fst ` set xs)"
  by (induction k v xs rule: omap_put.induct) auto

lemma omap_ok_put [simp]: "omap_ok xs \<Longrightarrow> omap_ok (omap_put k v xs)"
proof (induction k v xs rule: omap_put.induct)
  case (2 k v k' v' xs)
  have "fst ` set (omap_put k v xs) = insert k (fst ` set xs)"
    by (rule set_omap_put)
  with 2 show ?case by force
qed simp

lemma omap_ok_erase [simp]: "omap_ok xs \<Longrightarrow> omap_ok (omap_erase k xs)"
  by (simp add: omap_erase_def sorted_wrt_map sorted_wrt_filter)

lemma map_of_omap_erase [simp]: "map_of (omap_erase k xs) = (map_of xs)(k := None)"
  by (induction xs) (auto simp: omap_erase_def fun_eq_iff)

lemma map_of_omap_insert:
  "omap_ok xs \<Longrightarrow>
   map_of (omap_insert k v xs) = (if map_of xs k = None then (map_of xs)(k \<mapsto> v) else map_of xs)"
  by (simp add: omap_insert_def)

lemma omap_ok_insert [simp]: "omap_ok xs \<Longrightarrow> omap_ok (omap_insert k v xs)"
  by (simp add: omap_insert_def)

lemma omap_ok_distinct: "omap_ok xs \<Longrightarrow> distinct (map fst xs)"
  by (induction xs) auto

lemma omap_erase_fresh: "k \<notin> fst ` set xs \<Longrightarrow> omap_erase k xs = xs"
  by (induction xs) (auto simp: omap_erase_def)

lemma length_omap_erase_le: "length (omap_erase k xs) \<le> length xs"
  by (simp add: omap_erase_def)

lemma length_omap_erase_less: "map_of xs k = Some v \<Longrightarrow> length (omap_erase k xs) < length xs"
  by (auto simp: omap_erase_def dest!: map_of_SomeD intro!: length_filter_less)

section \<open>Numbers as text\<close>

text \<open>\<open>std::ostream << n\<close> for an unsigned and for a signed integer, in decimal.\<close>

fun show_nat :: "nat \<Rightarrow> string" where
  "show_nat n = (if n < 10 then [char_of (48 + n)] else show_nat (n div 10) @ [char_of (48 + n mod 10)])"

declare show_nat.simps [simp del]

definition show_int :: "int \<Rightarrow> string" where
  "show_int i = (if i < 0 then ''-'' @ show_nat (nat (- i)) else show_nat (nat i))"

lemma show_nat_nonempty [simp]: "show_nat n \<noteq> []"
  by (subst show_nat.simps) simp

lemma show_int_nonempty [simp]: "show_int i \<noteq> []"
  by (simp add: show_int_def)

section \<open>Words\<close>

lemma unat_u64_less: "unat (x::u64) < 2 ^ 64"
  by (rule order_less_le_trans [OF unsigned_less]) simp

lemma unat_u32_of_nat: "n < 2 ^ 32 \<Longrightarrow> unat (of_nat n :: u32) = n"
  by (simp add: unsigned_of_nat take_bit_nat_eq_self)

lemma ucast_u32_of_nat: "n < 2 ^ 32 \<Longrightarrow> ucast (of_nat n :: u32) = (of_nat n :: u64)"
  using unat_u32_of_nat by (metis of_nat_unat)

text \<open>\<open>uint64_t(hi) << 32 | lo\<close>, the way every 64-bit register pair is read.\<close>

definition join32 :: "u32 \<Rightarrow> u32 \<Rightarrow> u64" where
  "join32 hi lo = push_bit 32 (ucast hi) OR ucast lo"

definition hi32 :: "u64 \<Rightarrow> u32" where
  "hi32 x = ucast (drop_bit 32 x)"

definition lo32 :: "u64 \<Rightarrow> u32" where
  "lo32 x = ucast x"

lemma join32_hi_lo [simp]: "join32 (hi32 x) (lo32 x) = x"
  by (rule bit_word_eqI)
    (auto simp: join32_def hi32_def lo32_def bit_or_iff bit_push_bit_iff bit_ucast_iff bit_drop_bit_eq
      dest: bit_imp_le_length)

lemma hi32_join32 [simp]: "hi32 (join32 h l) = h"
  by (rule bit_word_eqI)
    (auto simp: join32_def hi32_def bit_or_iff bit_push_bit_iff bit_ucast_iff bit_drop_bit_eq
      dest: bit_imp_le_length)

lemma lo32_join32 [simp]: "lo32 (join32 h l) = l"
  by (rule bit_word_eqI)
    (auto simp: join32_def lo32_def bit_or_iff bit_push_bit_iff bit_ucast_iff
      dest: bit_imp_le_length)

subsection \<open>Prefix masks\<close>

text \<open>
  A mask is a prefix when it is a run of ones from the top bit. The code tests it as
  \<open>(~mask & (~mask + 1)) == 0\<close>; the event identifiers such a mask selects form an interval.
\<close>

lemma nat_and_Suc_zero: "(n::nat) AND Suc n = 0 \<Longrightarrow> \<exists>k. Suc n = 2 ^ k"
proof (induction n rule: less_induct)
  case (less n)
  show ?case
  proof (cases "even n")
    case True
    then have "n AND Suc n = n"
    proof (intro bit_eqI)
      fix i assume "even n"
      then show "bit (n AND Suc n) i \<longleftrightarrow> bit n i"
        using even_bit_succ_iff [of n i] by (auto simp: bit_and_iff)
    qed
    with less.prems have "n = 0" by simp
    then show ?thesis by (intro exI [of _ 0]) simp
  next
    case False
    then obtain b where n: "n = Suc (2 * b)" by (auto elim: oddE)
    have "n AND Suc n = 2 * (b AND Suc b)"
      by (simp add: n and_nat_rec [of "Suc (2 * b)"])
    with less.prems have "b AND Suc b = 0" by simp
    moreover have "b < n" by (simp add: n)
    ultimately obtain k where "Suc b = 2 ^ k" using less.IH by blast
    then have "Suc n = 2 ^ Suc k" by (simp add: n)
    then show ?thesis by blast
  qed
qed

definition prefix_mask :: "u64 \<Rightarrow> bool" where
  "prefix_mask m \<longleftrightarrow> NOT m AND (NOT m + 1) = 0"

lemma prefix_mask_iff: "prefix_mask m \<longleftrightarrow> (\<exists>k. m = NOT (mask k))"
proof
  assume p: "prefix_mask m"
  show "\<exists>k. m = NOT (mask k)"
  proof (cases "NOT m = - 1")
    case True
    then have "m = NOT (mask 64)"
      by (intro bit_word_eqI) (simp add: bit_simps, metis bit.double_compl bit_minus_1_iff bit_not_iff)
    then show ?thesis by blast
  next
    case False
    let ?x = "NOT m"
    from False have suc: "unat (?x + 1) = Suc (unat ?x)"
      by (metis add.commute unatSuc add_eq_0_iff2)
    have "unat ?x AND Suc (unat ?x) = unat (?x AND (?x + 1))"
      by (simp only: unsigned_and_eq suc)
    also have "\<dots> = 0" using p by (simp add: prefix_mask_def)
    finally obtain k where k: "Suc (unat ?x) = 2 ^ k" using nat_and_Suc_zero by blast
    then have "?x = word_of_nat (2 ^ k - 1)"
      by (metis diff_Suc_1 of_nat_unat ucast_id)
    also have "\<dots> = mask k" by (simp add: mask_eq_exp_minus_1 of_nat_diff)
    finally show ?thesis by (metis bit.double_compl)
  qed
next
  assume "\<exists>k. m = NOT (mask k)"
  then obtain k where m: "m = NOT (mask k)" by blast
  have "mask k + 1 = (2 ^ k :: u64)" by (simp add: mask_eq_exp_minus_1)
  moreover have "mask k AND 2 ^ k = (0 :: u64)"
    by (rule bit_word_eqI) (auto simp: bit_simps)
  ultimately have "mask k AND (mask k + 1) = (0 :: u64)" by simp
  then show "prefix_mask m" by (simp add: prefix_mask_def m)
qed

lemma and_le_self: "(x::u64) AND y \<le> x"
  by (rule word_and_le2)

lemma drop_bit_mono_u64: "(x::u64) \<le> y \<Longrightarrow> drop_bit k x \<le> drop_bit k y"
  unfolding word_le_nat_alt unat_drop_bit_eq drop_bit_nat_def by (rule div_le_mono)

text \<open>The event identifiers selected by a prefix mask are exactly an interval.\<close>

lemma prefix_interval:
  assumes p: "prefix_mask m" and i: "i AND m = i"
  shows "(e AND m = i) \<longleftrightarrow> (i \<le> e \<and> e \<le> i OR NOT m)"
proof
  assume e: "e AND m = i"
  have "e AND (i OR NOT m) = e"
    unfolding e [symmetric] by (rule bit_word_eqI) (auto simp: bit_simps)
  then have "e \<le> i OR NOT m" by (metis and_le_self and.commute)
  moreover have "i \<le> e" using e and_le_self by metis
  ultimately show "i \<le> e \<and> e \<le> i OR NOT m" by blast
next
  assume b: "i \<le> e \<and> e \<le> i OR NOT m"
  from p obtain k where m: "m = NOT (mask k)" by (auto simp: prefix_mask_iff)
  have "drop_bit k (i OR NOT m) = drop_bit k i"
    by (rule bit_word_eqI) (auto simp: m bit_simps)
  with b have "drop_bit k e = drop_bit k i"
    by (metis drop_bit_mono_u64 order_antisym)
  then have "\<And>n. bit e (k + n) = bit i (k + n)"
    by (metis bit_drop_bit_eq comp_apply)
  then have "e AND m = i AND m"
    by (intro bit_word_eqI) (auto simp: m bit_simps, (metis le_add_diff_inverse not_less)+)
  with i show "e AND m = i" by simp
qed

lemma prefix_masks_comparable:
  "prefix_mask m1 \<Longrightarrow> prefix_mask m2 \<Longrightarrow> m1 AND m2 = m1 \<or> m1 AND m2 = m2"
proof -
  assume "prefix_mask m1" "prefix_mask m2"
  then obtain j k where m: "m1 = NOT (mask j)" "m2 = NOT (mask k)"
    by (auto simp: prefix_mask_iff)
  show ?thesis
  proof (cases "j \<le> k")
    case True
    then have "m1 AND m2 = m2" by (intro bit_word_eqI) (auto simp: m bit_simps)
    then show ?thesis ..
  next
    case False
    then have "m1 AND m2 = m1" by (intro bit_word_eqI) (auto simp: m bit_simps)
    then show ?thesis ..
  qed
qed

text \<open>Two such intervals that meet are nested, the one that starts later inside the other.\<close>

lemma prefix_intervals_nested:
  assumes p: "prefix_mask m1" "prefix_mask m2"
    and i: "i1 AND m1 = i1" "i2 AND m2 = i2"
    and lt: "i1 < i2" and meet: "i2 \<le> i1 OR NOT m1"
  shows "i2 OR NOT m2 \<le> i1 OR NOT m1"
proof -
  have in1: "i2 AND m1 = i1"
    using lt meet prefix_interval [OF p(1) i(1), of i2] by simp
  have "m1 AND m2 = m1"
  proof (rule ccontr)
    assume "m1 AND m2 \<noteq> m1"
    then have "m1 AND m2 = m2" using prefix_masks_comparable p by blast
    then have "i2 AND m1 = i2"
      using i(2) by (metis and.assoc and.commute)
    with in1 lt show False by simp
  qed
  then have "(i2 OR NOT m2) AND m1 = i2 AND m1"
    by (intro bit_word_eqI) (auto simp: bit_eq_iff bit_simps)
  with in1 have "(i2 OR NOT m2) AND m1 = i1" by simp
  with prefix_interval [OF p(1) i(1)] show ?thesis by blast
qed

lemma id_le_or: "(i::u64) \<le> i OR x"
proof -
  have "(i OR x) AND i = i" by (rule bit_word_eqI) (auto simp: bit_simps)
  then show ?thesis by (metis and_le_self)
qed

end
