(* ===== verification/Bus_State.thy ===== *)
theory Bus_State
  imports Prelude
begin

text \<open>
  The state of the saftbus daemon: the service objects and their container
  (saftbus/service.hpp, saftbus/service.cpp) and the connected clients (saftbus/server.cpp), and
  the operations on a single service object. The record is extensible, so the drivers of src/ add
  their own state to it and the code that a service attaches to its destruction can change both.
\<close>

section \<open>Service objects\<close>

text \<open>
  \<open>Service::Impl\<close>. The owner is the file descriptor of a client or -1. The signal map takes a
  file descriptor to its use count and the number of dropped signals. The destruction callback
  is a function object; the model keeps a name \<open>'cb\<close> for it and the operations that run it
  take its meaning as an argument.
\<close>

record 'cb service =
  sv_owner :: int
  sv_signals :: "(int \<times> (int \<times> int)) list"
  sv_interfaces :: "string list"
  sv_path :: string
  sv_id :: u32
  sv_callback :: "'cb option"
  sv_destroy_if_owner_quits :: bool

definition new_service :: "string list \<Rightarrow> 'cb option \<Rightarrow> bool \<Rightarrow> 'cb service" where
  "new_service ifs cb quits =
     \<lparr>sv_owner = - 1, sv_signals = [], sv_interfaces = ifs, sv_path = [], sv_id = 0,
      sv_callback = cb, sv_destroy_if_owner_quits = quits\<rparr>"

definition get_owner :: "'cb service \<Rightarrow> int" where
  "get_owner s = sv_owner s"

definition is_owned :: "'cb service \<Rightarrow> bool" where
  "is_owned s \<longleftrightarrow> sv_owner s \<noteq> - 1"

definition set_owner :: "int \<Rightarrow> 'cb service \<Rightarrow> 'cb service" where
  "set_owner client s = s\<lparr>sv_owner := client\<rparr>"

definition release_owner :: "'cb service \<Rightarrow> 'cb service" where
  "release_owner s = s\<lparr>sv_owner := - 1\<rparr>"

definition has_destruction_callback :: "'cb service \<Rightarrow> bool" where
  "has_destruction_callback s \<longleftrightarrow> sv_callback s \<noteq> None"

text \<open>
  \<open>Service::get_interface_name2no_map\<close>: the inner loop has no break, so the last index of a
  repeated interface name is the one that stays in the map.
\<close>

fun interface_index :: "string \<Rightarrow> string list \<Rightarrow> int \<Rightarrow> int option \<Rightarrow> int option" where
  "interface_index name [] i found = found"
| "interface_index name (n # ns) i found =
     interface_index name ns (i + 1) (if name = n then Some i else found)"

fun interface_name2no_map ::
  "string list \<Rightarrow> 'cb service \<Rightarrow> (string \<times> int) list \<Rightarrow> bool \<times> (string \<times> int) list" where
  "interface_name2no_map [] s m = (True, m)"
| "interface_name2no_map (name # names) s m =
     (case interface_index name (sv_interfaces s) 0 None of
        Some i \<Rightarrow> interface_name2no_map names s (omap_put name i m)
      | None \<Rightarrow> (False, snd (interface_name2no_map names s m)))"

text \<open>\<open>Service::Impl::remove_signal_fd\<close>.\<close>

definition service_remove_signal_fd :: "int \<Rightarrow> 'cb service \<Rightarrow> 'cb service" where
  "service_remove_signal_fd fd s =
     (if map_of (sv_signals s) fd \<noteq> None then s\<lparr>sv_signals := omap_erase fd (sv_signals s)\<rparr> else s)"

text \<open>
  \<open>Service::emit\<close>: the data goes to every descriptor with a positive use count that \<open>poll\<close>
  reports ready at once (\<open>ready\<close>); for the others the dropped signals are counted. The result
  is the service and the descriptors written to, in order.
\<close>

fun emit_to :: "(int \<Rightarrow> bool) \<Rightarrow> (int \<times> (int \<times> int)) list \<Rightarrow> (int \<times> (int \<times> int)) list \<times> int list" where
  "emit_to ready [] = ([], [])"
| "emit_to ready ((fd, use_count, dropped) # sigs) =
     (case emit_to ready sigs of (sigs', written) \<Rightarrow>
        if use_count > 0
        then if \<not> ready fd then ((fd, use_count, dropped + 1) # sigs', written)
             else ((fd, use_count, dropped) # sigs', fd # written)
        else ((fd, use_count, dropped) # sigs', written))"

definition emit_signal :: "(int \<Rightarrow> bool) \<Rightarrow> 'cb service \<Rightarrow> 'cb service \<times> int list" where
  "emit_signal ready s =
     (case emit_to ready (sv_signals s) of (sigs, written) \<Rightarrow> (s\<lparr>sv_signals := sigs\<rparr>, written))"

lemma emit_to_written:
  "snd (emit_to ready sigs) = map fst (filter (\<lambda>(fd, c, d). c > 0 \<and> ready fd) sigs)"
  by (induction ready sigs rule: emit_to.induct) (auto split: prod.splits)

lemma emit_to_signals:
  "fst (emit_to ready sigs) =
     map (\<lambda>(fd, c, d). (fd, c, if c > 0 \<and> \<not> ready fd then d + 1 else d)) sigs"
  by (induction ready sigs rule: emit_to.induct) (auto split: prod.splits)

section \<open>Clients\<close>

text \<open>\<open>struct Client\<close>; the descriptor of its socket is its identity.\<close>

record client =
  cl_fd :: int
  cl_pid :: int
  cl_signals :: "(int \<times> int) list"

definition use_count_of :: "client \<Rightarrow> int \<Rightarrow> int" where
  "use_count_of c fd = (case map_of (cl_signals c) fd of None \<Rightarrow> 0 | Some n \<Rightarrow> n)"

definition use_signal_fd :: "int \<Rightarrow> client \<Rightarrow> client" where
  "use_signal_fd fd c = c\<lparr>cl_signals := omap_put fd (use_count_of c fd + 1) (cl_signals c)\<rparr>"

text \<open>The count is decremented first; a negative count then fails an assertion.\<close>

definition release_signal_fd :: "int \<Rightarrow> client \<Rightarrow> exn + client" where
  "release_signal_fd fd c =
     (let n = use_count_of c fd - 1 in
      if n < 0 then Inl (AssertFailed ''signal use count < 0'')
      else Inr (c\<lparr>cl_signals := omap_put fd n (cl_signals c)\<rparr>))"

section \<open>The daemon\<close>

text \<open>
  \<open>Container::Impl\<close> and \<open>ServerConnection::Impl\<close> together. \<open>objects\<close> holds unique pointers,
  which may be null while objects are being destroyed. A \<open>Service*\<close> is the id of its object.
  The id generator is a static variable of \<open>generate_saftbus_object_id\<close>.
\<close>

record 'cb bus =
  bs_objects :: "(u32 \<times> 'cb service option) list"
  bs_lookup :: "(string \<times> u32) list"
  bs_removed :: "u32 list"
  bs_next_id :: u32
  bs_plugins :: "string list"
  bs_info :: "(string \<times> 'cb) list"
  bs_calling :: int
  bs_clients :: "client list"

definition the_service :: "u32 \<Rightarrow> ('cb, 'z) bus_scheme \<Rightarrow> 'cb service option" where
  "the_service i w = (case map_of (bs_objects w) i of Some (Some s) \<Rightarrow> Some s | _ \<Rightarrow> None)"

definition put_service ::
  "u32 \<Rightarrow> 'cb service \<Rightarrow> ('cb, 'z) bus_scheme \<Rightarrow> ('cb, 'z) bus_scheme" where
  "put_service i s w = w\<lparr>bs_objects := omap_put i (Some s) (bs_objects w)\<rparr>"

text \<open>Dereferencing a pointer to a service.\<close>

definition deref_service :: "u32 \<Rightarrow> (('cb, 'z) bus_scheme, 'cb service) op" where
  "deref_service i =
     (\<lambda>w. case the_service i w of
            Some s \<Rightarrow> (Inr s, w)
          | None \<Rightarrow> (Inl (Undefined ''dangling Service*''), w))"

section \<open>What holds between calls\<close>

text \<open>
  The lookup table and the object map describe the same objects: an object path leads to an id
  exactly when the object with that id exists and has that path.
\<close>

definition bus_ok :: "('cb, 'z) bus_scheme \<Rightarrow> bool" where
  "bus_ok w \<longleftrightarrow> omap_ok (bs_objects w) \<and> omap_ok (bs_lookup w) \<and>
     None \<notin> snd ` set (bs_objects w) \<and>
     (\<forall>i s. map_of (bs_objects w) i = Some (Some s) \<longrightarrow> i \<noteq> 0 \<and> sv_id s = i) \<and>
     (\<forall>p i. map_of (bs_lookup w) p = Some i \<longleftrightarrow>
        (\<exists>s. map_of (bs_objects w) i = Some (Some s) \<and> sv_path s = p))"

lemma bus_ok_no_null:
  assumes "bus_ok w" shows "map_of (bs_objects w) i \<noteq> Some None"
proof
  assume "map_of (bs_objects w) i = Some None"
  then have "(i, None) \<in> set (bs_objects w)" by (rule map_of_SomeD)
  then have "None \<in> snd ` set (bs_objects w)" by (metis image_eqI snd_conv)
  with assms show False unfolding bus_ok_def by blast
qed

lemma bus_ok_service:
  "bus_ok w \<Longrightarrow> map_of (bs_objects w) i = Some x \<Longrightarrow> \<exists>s. x = Some s"
  by (cases x) (auto dest: bus_ok_no_null)

lemma the_service_iff:
  "the_service i w = Some s \<longleftrightarrow> map_of (bs_objects w) i = Some (Some s)"
  by (auto simp: the_service_def split: option.splits)

lemma bus_ok_lookup:
  "bus_ok w \<Longrightarrow> map_of (bs_lookup w) p = Some i \<longleftrightarrow> (\<exists>s. the_service i w = Some s \<and> sv_path s = p)"
  by (simp add: bus_ok_def the_service_iff)

lemma bus_ok_id: "bus_ok w \<Longrightarrow> the_service i w = Some s \<Longrightarrow> i \<noteq> 0 \<and> sv_id s = i"
  by (simp add: bus_ok_def the_service_iff)

text \<open>Replacing a service by one with the same id and path.\<close>

lemma bus_ok_put_service:
  assumes ok: "bus_ok w" and old: "the_service i w = Some s"
    and same: "sv_id s' = sv_id s" "sv_path s' = sv_path s"
  shows "bus_ok (put_service i s' w)"
proof -
  let ?o = "omap_put i (Some s') (bs_objects w)"
  have okm: "omap_ok (bs_objects w)" using ok by (simp add: bus_ok_def)
  have m: "map_of ?o = (map_of (bs_objects w))(i \<mapsto> Some s')" using okm by simp
  have old': "map_of (bs_objects w) i = Some (Some s)" using old by (simp add: the_service_iff)
  have "None \<notin> snd ` set ?o"
  proof
    assume "None \<in> snd ` set ?o"
    then obtain j where j: "(j, None) \<in> set ?o" by auto
    have "distinct (map fst ?o)" using okm by (intro omap_ok_distinct) simp
    from map_of_is_SomeI [OF this j] have "map_of (bs_objects w) j = Some None"
      by (simp add: m split: if_splits)
    with bus_ok_no_null [OF ok] show False by blast
  qed
  moreover have "(map_of (bs_lookup w) p = Some j) \<longleftrightarrow>
      (\<exists>t. map_of ?o j = Some (Some t) \<and> sv_path t = p)" for p j
    using ok old' same by (auto simp: bus_ok_def m)
  ultimately show ?thesis
    using ok old' same by (auto simp: bus_ok_def put_service_def m)
qed

end
