(* ===== verification/Container.thy ===== *)
theory Container
  imports Bus_State
begin

text \<open>
  \<open>saftbus::Container\<close> (saftbus/service.cpp): creation, lookup and removal of service objects,
  ownership checks, proxy registration, deferred destruction and the clean-up after a client.
\<close>

section \<open>Object ids and creation\<close>

text \<open>
  \<open>generate_saftbus_object_id\<close> counts up, wrapping around, to the next id that is neither 0 nor in
  use. Among as many candidates as there are objects plus two there is one, unless all ids are
  taken; the loop would then not end.
\<close>

fun next_free_id :: "nat \<Rightarrow> u32 \<Rightarrow> (u32 \<times> 'v) list \<Rightarrow> u32 option" where
  "next_free_id 0 g objs = None"
| "next_free_id (Suc fuel) g objs =
     (if map_of objs g \<noteq> None \<or> g = 0 then next_free_id fuel (g + 1) objs else Some g)"

definition generate_saftbus_object_id :: "(('cb, 'z) bus_scheme, u32) op" where
  "generate_saftbus_object_id =
     (\<lambda>w. case next_free_id (length (bs_objects w) + 2) (bs_next_id w) (bs_objects w) of
            None \<Rightarrow> (Inl (Undefined ''endless loop: no free object id''), w)
          | Some i \<Rightarrow> (Inr i, w\<lparr>bs_next_id := i + 1\<rparr>))"

definition create_object :: "string \<Rightarrow> 'cb service \<Rightarrow> (('cb, 'z) bus_scheme, u32) op" where
  "create_object path service =
     (\<lambda>w. if map_of (bs_lookup w) path \<noteq> None then (Inr 0, w)
          else bnd generate_saftbus_object_id (\<lambda>i w.
            if map_of (bs_objects w) i = None
            then (Inr i, w\<lparr>bs_objects := omap_put i (Some (service\<lparr>sv_id := i, sv_path := path\<rparr>)) (bs_objects w),
                           bs_lookup := omap_put path i (bs_lookup w)\<rparr>)
            else (Inr 0, w)) w)"

section \<open>Lookup and removal\<close>

definition get_object :: "string \<Rightarrow> (('cb, 'z) bus_scheme, u32) op" where
  "get_object path =
     (\<lambda>w. case map_of (bs_lookup w) path of
            None \<Rightarrow> (Inl (invalid_args (''cannot get object because its object_path \"'' @ path
                       @ ''\" was not found'')), w)
          | Some i \<Rightarrow> (Inr i, w\<lparr>bs_objects := omap_insert i None (bs_objects w)\<rparr>))"

text \<open>A child path continues the path of the parent with a slash.\<close>

definition child_path :: "string \<Rightarrow> string \<Rightarrow> bool" where
  "child_path parent other \<longleftrightarrow>
     other \<noteq> parent \<and> take (length parent) other = parent \<and> length other > length parent \<and>
     other ! length parent = CHR ''/''"

definition foreign_owned :: "int \<Rightarrow> 'cb service \<Rightarrow> bool" where
  "foreign_owned caller s \<longleftrightarrow> sv_owner s \<noteq> - 1 \<and> sv_owner s \<noteq> caller"

fun check_children :: "string \<Rightarrow> (string \<times> u32) list \<Rightarrow> (('cb, 'z) bus_scheme, unit) op" where
  "check_children path [] = ret ()"
| "check_children path ((other, i) # entries) =
     (if other \<noteq> ''/saftbus'' \<and> child_path path other
      then bnd (deref_service i) (\<lambda>s.
             thn (bnd (gets bs_calling) (\<lambda>caller.
                    throw_if (foreign_owned caller s)
                      (invalid_args (''cannot remove object \"'' @ path @ ''\" because child object \"''
                        @ other @ ''\" is owned by other client '' @ show_int (sv_owner s)))))
                 (check_children path entries))
      else check_children path entries)"

definition removal_helper :: "string \<Rightarrow> (('cb, 'z) bus_scheme, u32) op" where
  "removal_helper path =
     thn (throw_if (path = ''/saftbus'') (invalid_args ''cannot remove /saftbus''))
    (bnd (gets (\<lambda>w. map_of (bs_lookup w) path)) (\<lambda>found.
     case found of
       None \<Rightarrow> raise (invalid_args (''cannot remove object \"'' @ path
                 @ ''\" because its object_path was not found''))
     | Some i \<Rightarrow>
         bnd (deref_service i) (\<lambda>s.
         bnd (gets bs_calling) (\<lambda>caller.
         thn (throw_if (foreign_owned caller s)
               (invalid_args (''cannot remove object \"'' @ path @ ''\" because it owned by other client ''
                 @ show_int (sv_owner s))))
        (bnd (gets bs_lookup) (\<lambda>entries.
         thn (check_children path entries) (ret i)))))))"

definition remove_object :: "string \<Rightarrow> (('cb, 'z) bus_scheme, bool) op" where
  "remove_object path =
     bnd (removal_helper path) (\<lambda>i.
     thn (modify (\<lambda>w. w\<lparr>bs_lookup := omap_erase path (bs_lookup w),
                        bs_objects := omap_erase i (bs_objects w)\<rparr>))
         (ret False))"

text \<open>\<open>catch (std::runtime_error &e)\<close> followed by a message on the console.\<close>

fun is_runtime_error :: "exn \<Rightarrow> bool" where
  "is_runtime_error (SaftbusError _ _) = True"
| "is_runtime_error (RuntimeError _) = True"
| "is_runtime_error (EbException derived _) = derived"
| "is_runtime_error _ = False"

definition log_runtime_error :: "('w, 'a) op \<Rightarrow> ('w, unit) op" where
  "log_runtime_error m = (\<lambda>w. case m w of
      (Inl e, w') \<Rightarrow> (if is_runtime_error e then Inr () else Inl e, w')
    | (Inr x, w') \<Rightarrow> (Inr (), w'))"

text \<open>
  \<open>Container::destroy_service\<close>: during a remote call the destruction is deferred, because the
  call still needs the service.
\<close>

definition destroy_service :: "u32 \<Rightarrow> (('cb, 'z) bus_scheme, unit) op" where
  "destroy_service i =
     bnd (gets bs_calling) (\<lambda>caller.
     if caller \<noteq> - 1 then modify (\<lambda>w. w\<lparr>bs_removed := bs_removed w @ [i]\<rparr>)
     else bnd (deref_service i) (\<lambda>s. log_runtime_error (remove_object (sv_path s))))"

section \<open>Proxies\<close>

fun update_client :: "int \<Rightarrow> (client \<Rightarrow> exn + client) \<Rightarrow> client list \<Rightarrow> exn + client list" where
  "update_client fd f [] = Inl (AssertFailed ''client not found'')"
| "update_client fd f (c # cs) =
     (if cl_fd c = fd
      then (case f c of Inl e \<Rightarrow> Inl e | Inr c' \<Rightarrow> Inr (c' # cs))
      else (case update_client fd f cs of Inl e \<Rightarrow> Inl e | Inr cs' \<Rightarrow> Inr (c # cs')))"

definition on_client :: "int \<Rightarrow> (client \<Rightarrow> exn + client) \<Rightarrow> (('cb, 'z) bus_scheme, unit) op" where
  "on_client fd f =
     (\<lambda>w. case update_client fd f (bs_clients w) of
            Inl e \<Rightarrow> (Inl e, w)
          | Inr cs \<Rightarrow> (Inr (), w\<lparr>bs_clients := cs\<rparr>))"

definition register_signal_id_for_client :: "int \<Rightarrow> int \<Rightarrow> (('cb, 'z) bus_scheme, unit) op" where
  "register_signal_id_for_client client_fd signal_fd =
     on_client client_fd (\<lambda>c. Inr (use_signal_fd signal_fd c))"

definition unregister_signal_id_for_client :: "int \<Rightarrow> int \<Rightarrow> (('cb, 'z) bus_scheme, unit) op" where
  "unregister_signal_id_for_client client_fd signal_fd =
     on_client client_fd (release_signal_fd signal_fd)"

text \<open>\<open>signal_fds_use_count_and_dropped_signals[fd].first += d\<close>, creating the entry if needed.\<close>

definition signal_entry :: "int \<Rightarrow> 'cb service \<Rightarrow> int \<times> int" where
  "signal_entry fd s = (case map_of (sv_signals s) fd of None \<Rightarrow> (0, 0) | Some e \<Rightarrow> e)"

definition add_use :: "int \<Rightarrow> int \<Rightarrow> 'cb service \<Rightarrow> 'cb service" where
  "add_use fd d s =
     s\<lparr>sv_signals := omap_put fd (fst (signal_entry fd s) + d, snd (signal_entry fd s)) (sv_signals s)\<rparr>"

text \<open>The result is the object id, -1 or 0, together with the interface map filled on the way.\<close>

definition register_proxy ::
  "string \<Rightarrow> string list \<Rightarrow> int \<Rightarrow> int \<Rightarrow> (('cb, 'z) bus_scheme, int \<times> (string \<times> int) list) op" where
  "register_proxy path interface_names client_fd signal_fd =
     bnd (gets (\<lambda>w. map_of (bs_lookup w) path)) (\<lambda>found.
     case found of
       None \<Rightarrow> ret (0, [])
     | Some i \<Rightarrow>
         thn (bnd (gets (\<lambda>w. map_of (bs_objects w) i \<noteq> None)) (\<lambda>b. assert_that b ''lookup table is not correct''))
        (bnd (deref_service i) (\<lambda>s.
         case interface_name2no_map interface_names s [] of
           (True, m) \<Rightarrow>
             thn (modify (put_service i (add_use signal_fd 1 s)))
            (thn (register_signal_id_for_client client_fd signal_fd)
                 (ret (int (unat i), m)))
         | (False, m) \<Rightarrow> ret (- 1, m))))"

definition unregister_proxy :: "u32 \<Rightarrow> int \<Rightarrow> int \<Rightarrow> (('cb, 'z) bus_scheme, unit) op" where
  "unregister_proxy i client_fd signal_fd =
     bnd (gets (\<lambda>w. map_of (bs_objects w) i)) (\<lambda>found.
     if found = None then ret ()
     else bnd (deref_service i) (\<lambda>s.
       let s' = add_use signal_fd (- 1) s in
       thn (modify (put_service i s'))
      (thn (unregister_signal_id_for_client client_fd signal_fd)
      (if fst (signal_entry signal_fd s') = 0
       then modify (put_service i (s'\<lparr>sv_signals := omap_erase signal_fd (sv_signals s')\<rparr>))
       else ret ()))))"

section \<open>Calls and deferred destruction\<close>

text \<open>
  \<open>run_cb\<close> is what a destruction callback does, \<open>svc\<close> the virtual function \<open>call\<close> of the
  service object with the reply it serializes; \<open>None\<close> is the result false. A callback that pushes to the vector the loop iterates over would invalidate
  the iterators.
\<close>

type_synonym ('cb, 'z) callbacks = "'cb \<Rightarrow> (('cb, 'z) bus_scheme, unit) op"

definition run_destruction_callback ::
  "('cb, 'z) callbacks \<Rightarrow> 'cb service \<Rightarrow> (('cb, 'z) bus_scheme, unit) op" where
  "run_destruction_callback run_cb s = (case sv_callback s of None \<Rightarrow> ret () | Some cb \<Rightarrow> run_cb cb)"

fun process_removed ::
  "('cb, 'z) callbacks \<Rightarrow> u32 list \<Rightarrow> u32 list \<Rightarrow> (('cb, 'z) bus_scheme, unit) op" where
  "process_removed run_cb whole [] = ret ()"
| "process_removed run_cb whole (i # is) =
     thn (bnd (deref_service i) (run_destruction_callback run_cb))
    (bnd (gets bs_removed) (\<lambda>now.
     if now \<noteq> whole then raise (Undefined ''removed_services changed while iterating'')
     else thn (bnd (deref_service i) (\<lambda>s. log_runtime_error (remove_object (sv_path s))))
              (process_removed run_cb whole is)))"

definition call_service ::
  "('cb, 'z) callbacks \<Rightarrow> (u32 \<Rightarrow> (('cb, 'z) bus_scheme, 'r) op) \<Rightarrow> u32
   \<Rightarrow> (('cb, 'z) bus_scheme, 'r option) op" where
  "call_service run_cb svc i =
     bnd (gets (\<lambda>w. map_of (bs_objects w) i)) (\<lambda>found.
     if found = None then ret None
     else bnd (bnd (deref_service i) (\<lambda>_. svc i)) (\<lambda>reply.
          thn (bnd (gets bs_removed) (\<lambda>whole. process_removed run_cb whole whole))
         (thn (modify (\<lambda>w. w\<lparr>bs_removed := []\<rparr>)) (ret (Some reply)))))"

text \<open>\<open>Container::remove_signal_fd\<close> and \<open>Container::client_hung_up\<close>.\<close>

definition container_remove_signal_fd :: "int \<Rightarrow> (('cb, 'z) bus_scheme, unit) op" where
  "container_remove_signal_fd fd =
     (\<lambda>w. if None \<in> snd ` set (bs_objects w) then (Inl (Undefined ''null service''), w)
          else (Inr (), w\<lparr>bs_objects :=
             map (\<lambda>(i, so). (i, map_option (service_remove_signal_fd fd) so)) (bs_objects w)\<rparr>))"

text \<open>
  \<open>std::find\<close> from the back of the object map: the youngest object owned by the client. The loop
  ends when there is none; the fuel bounds its iterations and \<open>None\<close> is running out of it.
\<close>

fun find_owned :: "int \<Rightarrow> (u32 \<times> 'cb service option) list \<Rightarrow> exn + u32 option" where
  "find_owned fd [] = Inr None"
| "find_owned fd ((i, so) # objs) =
     (case so of None \<Rightarrow> Inl (Undefined ''null service'')
      | Some s \<Rightarrow> if sv_owner s = fd then Inr (Some i) else find_owned fd objs)"

definition release_or_remove :: "u32 \<Rightarrow> (('cb, 'z) bus_scheme, unit) op" where
  "release_or_remove i =
     bnd (deref_service i) (\<lambda>s.
     if has_destruction_callback s \<and> sv_destroy_if_owner_quits s
     then log_runtime_error (remove_object (sv_path s))
     else modify (put_service i (s\<lparr>sv_owner := - 1\<rparr>)))"

fun container_client_hung_up ::
  "nat \<Rightarrow> ('cb, 'z) callbacks \<Rightarrow> int \<Rightarrow> ('cb, 'z) bus_scheme
   \<Rightarrow> ((exn + unit) \<times> ('cb, 'z) bus_scheme) option" where
  "container_client_hung_up 0 run_cb fd w = None"
| "container_client_hung_up (Suc fuel) run_cb fd w =
     (case find_owned fd (rev (bs_objects w)) of
        Inl e \<Rightarrow> Some (Inl e, w)
      | Inr None \<Rightarrow> Some (Inr (), w)
      | Inr (Some i) \<Rightarrow>
          (case thn (bnd (deref_service i) (run_destruction_callback run_cb)) (release_or_remove i) w of
             (Inl e, w') \<Rightarrow> Some (Inl e, w')
           | (Inr _, w') \<Rightarrow> container_client_hung_up fuel run_cb fd w'))"

section \<open>Plugins and shutdown\<close>

text \<open>
  Loading a shared object and running its entry point is the library loader's work (\<open>load\<close>, by
  name); the container only keeps the list.
\<close>

definition load_plugin ::
  "(string \<Rightarrow> (('cb, 'z) bus_scheme, unit) op)
   \<Rightarrow> (string \<Rightarrow> string list \<Rightarrow> (('cb, 'z) bus_scheme, unit) op)
   \<Rightarrow> string \<Rightarrow> string list \<Rightarrow> (('cb, 'z) bus_scheme, bool) op" where
  "load_plugin load create_services so_filename args =
     bnd (gets (\<lambda>w. so_filename \<in> set (bs_plugins w))) (\<lambda>available.
     thn (if available then ret ()
          else thn (load so_filename) (modify (\<lambda>w. w\<lparr>bs_plugins := bs_plugins w @ [so_filename]\<rparr>)))
    (thn (create_services so_filename args) (ret True)))"

definition unload_plugin :: "string \<Rightarrow> (('cb, 'z) bus_scheme, bool) op" where
  "unload_plugin so_filename =
     bnd (gets bs_plugins) (\<lambda>ps.
     if ps \<noteq> [] \<and> last ps = so_filename
     then thn (modify (\<lambda>w. w\<lparr>bs_plugins := butlast ps\<rparr>)) (ret True)
     else ret False)"

definition add_additional_info_callback :: "string \<Rightarrow> 'cb \<Rightarrow> ('cb, 'z) bus_scheme \<Rightarrow> ('cb, 'z) bus_scheme" where
  "add_additional_info_callback name cb w = w\<lparr>bs_info := omap_put name cb (bs_info w)\<rparr>"

definition remove_additional_info_callback :: "string \<Rightarrow> ('cb, 'z) bus_scheme \<Rightarrow> ('cb, 'z) bus_scheme" where
  "remove_additional_info_callback name w = w\<lparr>bs_info := omap_erase name (bs_info w)\<rparr>"

record object_info =
  oi_object_id :: u32
  oi_object_path :: string
  oi_interface_names :: "string list"
  oi_signals :: "(int \<times> (int \<times> int)) list"
  oi_owner :: int
  oi_has_destruction_callback :: bool
  oi_destroy_if_owner_quits :: bool

record saftbus_info =
  si_objects :: "object_info list"
  si_clients :: "client list"
  si_plugins :: "string list"
  si_additional :: "(string \<times> string) list"

definition object_info_of :: "u32 \<times> 'cb service \<Rightarrow> object_info" where
  "object_info_of p = (case p of (i, s) \<Rightarrow>
     \<lparr>oi_object_id = i, oi_object_path = sv_path s, oi_interface_names = sv_interfaces s,
      oi_signals = sv_signals s, oi_owner = sv_owner s,
      oi_has_destruction_callback = has_destruction_callback s,
      oi_destroy_if_owner_quits = sv_destroy_if_owner_quits s\<rparr>)"

definition get_status :: "('cb \<Rightarrow> string) \<Rightarrow> (('cb, 'z) bus_scheme, saftbus_info) op" where
  "get_status info =
     (\<lambda>w. if None \<in> snd ` set (bs_objects w) then (Inl (Undefined ''null service''), w)
          else (Inr \<lparr>si_objects = map (\<lambda>(i, so). object_info_of (i, the so)) (bs_objects w),
                     si_clients = bs_clients w, si_plugins = bs_plugins w,
                     si_additional = map (\<lambda>(n, cb). (n, info cb)) (bs_info w)\<rparr>, w))"

text \<open>
  \<open>Container::Impl::reset_children_first\<close> and \<open>clear\<close>. The range-for over the object map sees the
  objects one after the other while the recursive calls set pointers to null, so the loop walks
  over the ids and reads the current pointer. \<open>object_path_lookup_table[path]\<close> and
  \<open>objects[id]\<close> create missing entries.
\<close>

definition reset_object :: "string \<Rightarrow> ('cb, 'z) bus_scheme \<Rightarrow> ('cb, 'z) bus_scheme" where
  "reset_object path w =
     (let i = (case map_of (bs_lookup w) path of None \<Rightarrow> 0 | Some i \<Rightarrow> i)
      in w\<lparr>bs_objects := omap_put i None (bs_objects w), bs_lookup := omap_erase path (bs_lookup w)\<rparr>)"

fun reset_children_first :: "nat \<Rightarrow> string \<Rightarrow> ('cb, 'z) bus_scheme \<Rightarrow> ('cb, 'z) bus_scheme option"
  and reset_loop :: "nat \<Rightarrow> string \<Rightarrow> u32 list \<Rightarrow> bool \<Rightarrow> ('cb, 'z) bus_scheme
     \<Rightarrow> (bool \<times> ('cb, 'z) bus_scheme) option" where
  "reset_children_first 0 path w = None"
| "reset_children_first (Suc fuel) path w =
     (if path = ''/saftbus'' then Some w
      else case reset_loop fuel path (map fst (bs_objects w)) False w of
             None \<Rightarrow> None
           | Some (found_child, w') \<Rightarrow> Some (if found_child then w' else reset_object path w'))"
| "reset_loop fuel path [] found w = Some (found, w)"
| "reset_loop 0 path (i # is) found w = None"
| "reset_loop (Suc fuel) path (i # is) found w =
     (case the_service i w of
        None \<Rightarrow> reset_loop fuel path is found w
      | Some s \<Rightarrow>
          if child_path path (sv_path s)
          then (case reset_children_first fuel (sv_path s) w of
                  None \<Rightarrow> None
                | Some w' \<Rightarrow> reset_loop fuel path is True w')
          else reset_loop fuel path is found w)"

fun container_clear ::
  "nat \<Rightarrow> ('cb, 'z) callbacks \<Rightarrow> ('cb, 'z) bus_scheme
   \<Rightarrow> ((exn + unit) \<times> ('cb, 'z) bus_scheme) option" where
  "container_clear 0 run_cb w = None"
| "container_clear (Suc fuel) run_cb w =
     (if length (bs_objects w) \<le> 1 then Some (Inr (), w\<lparr>bs_lookup := []\<rparr>)
      else let i = fst (last (bs_objects w)) in
        (case bnd (deref_service i) (\<lambda>s. thn (run_destruction_callback run_cb s)
                (bnd (deref_service i) (\<lambda>s. ret (sv_path s)))) w of
           (Inl e, w') \<Rightarrow> Some (Inl e, w')
         | (Inr path, w') \<Rightarrow>
             (case reset_children_first fuel path w' of
                None \<Rightarrow> None
              | Some w'' \<Rightarrow> container_clear fuel run_cb
                  (w''\<lparr>bs_objects := filter (\<lambda>p. snd p \<noteq> None) (bs_objects w'')\<rparr>))))"

section \<open>Facts about ids\<close>

lemma next_free_id_Some:
  "next_free_id fuel g objs = Some i \<Longrightarrow> i \<noteq> 0 \<and> map_of objs i = None"
  by (induction fuel g objs rule: next_free_id.induct) (auto split: if_splits)

lemma next_free_id_None:
  "next_free_id fuel g objs = None \<Longrightarrow> k < fuel \<Longrightarrow>
   g + of_nat k = 0 \<or> map_of objs (g + of_nat k) \<noteq> None"
proof (induction fuel g objs arbitrary: k rule: next_free_id.induct)
  case (2 fuel g objs)
  show ?case
  proof (cases k)
    case 0
    with 2 show ?thesis by (auto split: if_splits)
  next
    case (Suc j)
    with 2 have "g + 1 + of_nat j = 0 \<or> map_of objs (g + 1 + of_nat j) \<noteq> None"
      by (auto split: if_splits)
    with Suc show ?thesis by (simp add: add.assoc)
  qed
qed simp

lemma next_free_id_enough:
  assumes "length objs + 2 \<le> 2 ^ 32"
  shows "\<exists>i. next_free_id (length objs + 2) g objs = Some i"
proof (rule ccontr)
  let ?n = "length objs + 2"
  let ?f = "\<lambda>k::nat. g + (of_nat k :: u32)"
  assume "\<not> ?thesis"
  then have n: "next_free_id ?n g objs = None" by (metis not_Some_eq)
  have none: "?f k = 0 \<or> ?f k \<in> fst ` set objs" if k: "k < ?n" for k
    using next_free_id_None [OF n k] unfolding map_of_eq_None_iff by simp
  then have "?f ` {..<?n} \<subseteq> insert 0 (fst ` set objs)" by blast
  then have "card (?f ` {..<?n}) \<le> card (insert 0 (fst ` set objs))"
    by (intro card_mono) auto
  also have "\<dots> \<le> Suc (card (fst ` set objs))" by (simp add: card_insert_if)
  also have "\<dots> \<le> Suc (length objs)"
    by (metis Suc_le_mono card_image_le card_length finite_set le_trans)
  finally have small: "card (?f ` {..<?n}) \<le> Suc (length objs)" .
  have "inj_on ?f {..<?n}"
  proof (rule inj_onI)
    fix a b assume "a \<in> {..<?n}" "b \<in> {..<?n}" "?f a = ?f b"
    then have ab: "(of_nat a :: u32) = of_nat b" "a < 2 ^ 32" "b < 2 ^ 32" using assms by auto
    have "unat (of_nat a :: u32) = a" "unat (of_nat b :: u32) = b"
      using ab(2,3) by (simp_all add: unsigned_of_nat take_bit_nat_eq_self)
    with ab(1) show "a = b" by metis
  qed
  then have "card (?f ` {..<?n}) = ?n" by (simp add: card_image)
  with small show False by simp
qed

section \<open>Creation\<close>

lemma create_object_cases:
  "create_object path s w =
     (if map_of (bs_lookup w) path \<noteq> None then (Inr 0, w)
      else case next_free_id (length (bs_objects w) + 2) (bs_next_id w) (bs_objects w) of
        None \<Rightarrow> (Inl (Undefined ''endless loop: no free object id''), w)
      | Some i \<Rightarrow> (Inr i, w\<lparr>bs_next_id := i + 1,
          bs_objects := omap_put i (Some (s\<lparr>sv_id := i, sv_path := path\<rparr>)) (bs_objects w),
          bs_lookup := omap_put path i (bs_lookup w)\<rparr>))"
proof (cases "next_free_id (length (bs_objects w) + 2) (bs_next_id w) (bs_objects w)")
  case (Some i)
  with next_free_id_Some [OF Some] show ?thesis
    by (simp add: create_object_def generate_saftbus_object_id_def bnd_def
        del: next_free_id.simps add_2_eq_Suc')
qed (simp add: create_object_def generate_saftbus_object_id_def bnd_def
        del: next_free_id.simps add_2_eq_Suc')

lemma snd_set_omap_put: "snd ` set (omap_put k v xs) \<subseteq> insert v (snd ` set xs)"
  by (induction k v xs rule: omap_put.induct) auto

lemma bus_okD:
  assumes "bus_ok w"
  shows "omap_ok (bs_objects w)" "omap_ok (bs_lookup w)" "None \<notin> snd ` set (bs_objects w)"
  using assms by (simp_all add: bus_ok_def)

lemma bus_okI:
  assumes "omap_ok (bs_objects w)" "omap_ok (bs_lookup w)" "None \<notin> snd ` set (bs_objects w)"
    "\<And>i s. the_service i w = Some s \<Longrightarrow> i \<noteq> 0 \<and> sv_id s = i"
    "\<And>p i. map_of (bs_lookup w) p = Some i \<longleftrightarrow> (\<exists>s. the_service i w = Some s \<and> sv_path s = p)"
  shows "bus_ok w"
  using assms unfolding bus_ok_def the_service_iff by blast

lemma create_object_ok:
  assumes ok: "bus_ok w" and c: "create_object path s w = (Inr i, w')" and i: "i \<noteq> 0"
  shows "bus_ok w' \<and> map_of (bs_lookup w) path = None \<and> the_service i w = None \<and>
    map_of (bs_lookup w') = (map_of (bs_lookup w))(path \<mapsto> i) \<and>
    (\<forall>j. the_service j w' =
       (if j = i then Some (s\<lparr>sv_id := i, sv_path := path\<rparr>) else the_service j w))"
proof -
  let ?s = "s\<lparr>sv_id := i, sv_path := path\<rparr>"
  from c i have new: "map_of (bs_lookup w) path = None"
    and n: "next_free_id (length (bs_objects w) + 2) (bs_next_id w) (bs_objects w) = Some i"
    and w': "w' = w\<lparr>bs_next_id := i + 1, bs_objects := omap_put i (Some ?s) (bs_objects w),
                   bs_lookup := omap_put path i (bs_lookup w)\<rparr>"
    by (auto simp: create_object_cases split: if_splits option.splits
        simp del: next_free_id.simps add_2_eq_Suc')
  note o = bus_okD [OF ok]
  have free: "map_of (bs_objects w) i = None" using next_free_id_Some [OF n] by blast
  have svc: "the_service j w' = (if j = i then Some ?s else the_service j w)" for j
    using o(1) by (simp add: the_service_def w')
  have lk: "map_of (bs_lookup w') = (map_of (bs_lookup w))(path \<mapsto> i)" using o(2) by (simp add: w')
  have free': "the_service i w = None" using free by (simp add: the_service_def)
  have "bus_ok w'"
  proof (rule bus_okI)
    show "omap_ok (bs_objects w')" "omap_ok (bs_lookup w')" using o by (simp_all add: w')
    show "None \<notin> snd ` set (bs_objects w')"
      using snd_set_omap_put [of i "Some ?s" "bs_objects w"] o(3) by (auto simp: w')
    fix j t assume "the_service j w' = Some t"
    then show "j \<noteq> 0 \<and> sv_id t = j" using i bus_ok_id [OF ok] by (auto simp: svc split: if_splits)
  next
    fix p j
    show "(map_of (bs_lookup w') p = Some j) \<longleftrightarrow> (\<exists>t. the_service j w' = Some t \<and> sv_path t = p)"
    proof (cases "j = i")
      case True
      have "map_of (bs_lookup w) p \<noteq> Some i"
        using bus_ok_lookup [OF ok, of p i] free' by simp
      with True show ?thesis by (auto simp: svc lk)
    next
      case False
      have "map_of (bs_lookup w) path \<noteq> Some j" using new by simp
      with False bus_ok_lookup [OF ok] show ?thesis by (auto simp: svc lk)
    qed
  qed
  with new free' lk svc show ?thesis by blast
qed

lemma create_object_zero:
  "create_object path s w = (Inr 0, w') \<Longrightarrow> w' = w \<and> map_of (bs_lookup w) path \<noteq> None"
  using next_free_id_Some [of "length (bs_objects w) + 2" "bs_next_id w" "bs_objects w" 0]
  by (auto simp: create_object_cases split: if_splits option.splits
      simp del: next_free_id.simps add_2_eq_Suc')

lemma create_object_Inl: "create_object path s w = (Inl e, w') \<Longrightarrow> w' = w"
  by (auto simp: create_object_cases split: if_splits option.splits
      simp del: next_free_id.simps add_2_eq_Suc')

lemma keeps_create_object:
  "keeps (bus_ok :: ('cb, 'z) bus_scheme \<Rightarrow> bool) (create_object path s)"
proof
  fix w :: "('cb, 'z) bus_scheme" assume ok: "bus_ok w"
  obtain r w' where c: "create_object path s w = (r, w')" by (cases "create_object path s w")
  show "bus_ok (snd (create_object path s w))"
  proof (cases r)
    case (Inl e)
    with c ok create_object_Inl show ?thesis by (metis snd_conv)
  next
    case (Inr i)
    then show ?thesis
      using c ok create_object_ok [of w path s i w'] create_object_zero [of path s w w']
      by (cases "i = 0") auto
  qed
qed

section \<open>Removal\<close>

lemma check_children_state: "snd (check_children path es w) = w"
  by (induction es) (auto simp: op_simps deref_service_def split: prod.splits sum.splits option.splits)

lemma check_children_Inr:
  "fst (check_children path es w) = Inr () \<longleftrightarrow>
     (\<forall>(other, j) \<in> set es. other \<noteq> ''/saftbus'' \<and> child_path path other \<longrightarrow>
        (\<exists>t. the_service j w = Some t \<and> \<not> foreign_owned (bs_calling w) t))"
proof (induction es)
  case (Cons e es)
  then show ?case
    by (cases e) (auto simp: op_simps deref_service_def split: option.splits)
qed (simp add: op_simps)

lemma removal_helper_state: "snd (removal_helper path w) = w"
  using check_children_state [of path "bs_lookup w" w]
  by (auto simp: removal_helper_def op_simps deref_service_def split: option.splits prod.splits sum.splits)

text \<open>Who may remove what: the object and all objects below it must not belong to another client.\<close>

definition removable :: "string \<Rightarrow> u32 \<Rightarrow> ('cb, 'z) bus_scheme \<Rightarrow> bool" where
  "removable path i w \<longleftrightarrow> path \<noteq> ''/saftbus'' \<and> map_of (bs_lookup w) path = Some i \<and>
     (\<exists>s. the_service i w = Some s \<and> \<not> foreign_owned (bs_calling w) s) \<and>
     (\<forall>(other, j) \<in> set (bs_lookup w). other \<noteq> ''/saftbus'' \<and> child_path path other \<longrightarrow>
        (\<exists>t. the_service j w = Some t \<and> \<not> foreign_owned (bs_calling w) t))"

lemma removal_helper_Inr: "removal_helper path w = (Inr i, w') \<longleftrightarrow> removable path i w \<and> w' = w"
proof -
  obtain r w1 where c: "check_children path (bs_lookup w) w = (r, w1)" by fastforce
  then have w1: "w1 = w" using check_children_state by (metis snd_conv)
  have "r = Inr () \<longleftrightarrow> fst (check_children path (bs_lookup w) w) = Inr ()" by (simp add: c)
  then show ?thesis
    unfolding removable_def check_children_Inr [symmetric]
    using c w1
    by (cases r) (auto simp: removal_helper_def op_simps deref_service_def split: option.splits)
qed

definition erase_object :: "string \<Rightarrow> u32 \<Rightarrow> ('cb, 'z) bus_scheme \<Rightarrow> ('cb, 'z) bus_scheme" where
  "erase_object path i w =
     w\<lparr>bs_lookup := omap_erase path (bs_lookup w), bs_objects := omap_erase i (bs_objects w)\<rparr>"

lemma remove_object_Inr:
  "remove_object path w = (Inr b, w') \<longleftrightarrow>
     (\<exists>i. removable path i w \<and> b = False \<and> w' = erase_object path i w)"
proof -
  obtain r w1 where h: "removal_helper path w = (r, w1)" by fastforce
  show ?thesis
  proof (cases r)
    case (Inl e)
    then have "\<not> removable path i w" for i using h removal_helper_Inr [of path w i w] by auto
    with Inl h show ?thesis by (simp add: remove_object_def op_simps)
  next
    case (Inr j)
    then have j: "removable path j w" "w1 = w" using h removal_helper_Inr by blast+
    then have "removable path i w \<longleftrightarrow> i = j" for i by (auto simp: removable_def)
    with Inr h j show ?thesis by (auto simp: remove_object_def op_simps erase_object_def)
  qed
qed

lemma remove_object_Inl: "remove_object path w = (Inl e, w') \<Longrightarrow> w' = w"
  using removal_helper_state [of path w]
  by (auto simp: remove_object_def op_simps split: prod.splits sum.splits)

lemma erase_object_ok:
  assumes ok: "bus_ok w" and lk: "map_of (bs_lookup w) path = Some i"
  shows "bus_ok (erase_object path i w)"
proof (rule bus_okI)
  note o = bus_okD [OF ok]
  let ?w = "erase_object path i w"
  have svc: "the_service j ?w = (if j = i then None else the_service j w)" for j
    by (simp add: the_service_def erase_object_def)
  have lk': "map_of (bs_lookup ?w) = (map_of (bs_lookup w))(path := None)"
    by (simp add: erase_object_def)
  show "omap_ok (bs_objects ?w)" "omap_ok (bs_lookup ?w)"
    using o by (simp_all add: erase_object_def)
  show "None \<notin> snd ` set (bs_objects ?w)"
    using o(3) by (auto simp: erase_object_def omap_erase_def)
  fix j t assume "the_service j ?w = Some t"
  then show "j \<noteq> 0 \<and> sv_id t = j" using bus_ok_id [OF ok] by (auto simp: svc split: if_splits)
next
  fix p j
  let ?w = "erase_object path i w"
  have svc: "the_service j ?w = (if j = i then None else the_service j w)"
    by (simp add: the_service_def erase_object_def)
  have lk': "map_of (bs_lookup ?w) = (map_of (bs_lookup w))(path := None)"
    by (simp add: erase_object_def)
  obtain s where s: "the_service i w = Some s" "sv_path s = path"
    using bus_ok_lookup [OF ok] lk by blast
  show "(map_of (bs_lookup ?w) p = Some j) \<longleftrightarrow> (\<exists>t. the_service j ?w = Some t \<and> sv_path t = p)"
    using bus_ok_lookup [OF ok, of p j] bus_ok_lookup [OF ok, of path j] lk s by (auto simp: svc lk')
qed

lemma keeps_remove_object:
  "keeps (bus_ok :: ('cb, 'z) bus_scheme \<Rightarrow> bool) (remove_object path)"
proof
  fix w :: "('cb, 'z) bus_scheme" assume ok: "bus_ok w"
  obtain r w' where r: "remove_object path w = (r, w')" by fastforce
  show "bus_ok (snd (remove_object path w))"
  proof (cases r)
    case (Inl e)
    with r ok remove_object_Inl show ?thesis by (metis snd_conv)
  next
    case (Inr b)
    then obtain i where "removable path i w" "w' = erase_object path i w"
      using r remove_object_Inr by blast
    with r ok show ?thesis by (auto simp: removable_def intro: erase_object_ok)
  qed
qed

end
