(* ===== verification/Container_Cleanup.thy ===== *)
theory Container_Cleanup
  imports Container
begin

text \<open>
  What the container keeps across its operations, and the clean-up after a client that hung up:
  which objects are destroyed, which are only released, when the clean-up ends and when it does
  not.
\<close>

section \<open>Every operation keeps the tables consistent\<close>

lemma keeps_deref:
  assumes "\<And>s w. P w \<Longrightarrow> the_service i w = Some s \<Longrightarrow> P (snd (f s w))"
  shows "keeps P (bnd (deref_service i) f)"
  using assms by (auto simp: keeps_def bnd_def deref_service_def split: option.splits)

lemma keeps_log [intro]: "keeps P m \<Longrightarrow> keeps P (log_runtime_error m)"
  by (force simp: keeps_def log_runtime_error_def split: prod.splits sum.splits)

lemma keeps_deref_log_remove:
  "keeps (bus_ok :: ('cb, 'z) bus_scheme \<Rightarrow> bool)
     (bnd (deref_service i) (\<lambda>s. log_runtime_error (remove_object (sv_path s))))"
  by (rule keeps_deref) (blast intro: keepsD [OF keeps_log [OF keeps_remove_object]])

lemma bus_ok_cong:
  assumes "bs_objects w' = bs_objects w" "bs_lookup w' = bs_lookup w"
  shows "bus_ok w' \<longleftrightarrow> bus_ok w"
  using assms by (simp add: bus_ok_def)

lemma keeps_destroy_service:
  "keeps (bus_ok :: ('cb, 'z) bus_scheme \<Rightarrow> bool) (destroy_service i)"
proof -
  have "keeps (bus_ok :: ('cb, 'z) bus_scheme \<Rightarrow> bool)
      (modify (\<lambda>w. w\<lparr>bs_removed := bs_removed w @ [i]\<rparr>))"
    by (rule keeps_modify) (simp add: bus_ok_def)
  then show ?thesis
    unfolding destroy_service_def
    by (intro keeps_bnd [OF keeps_gets]) (simp add: keeps_deref_log_remove)
qed

lemma keeps_put_service:
  assumes "bus_ok w" "the_service i w = Some s" "sv_id s' = sv_id s" "sv_path s' = sv_path s"
  shows "bus_ok (snd (modify (put_service i s') w))"
  using bus_ok_put_service [OF assms] by (simp add: modify_def)

lemma add_use_same [simp]: "sv_id (add_use fd d s) = sv_id s" "sv_path (add_use fd d s) = sv_path s"
  by (simp_all add: add_use_def)

lemma keeps_on_client: "keeps (bus_ok :: ('cb, 'z) bus_scheme \<Rightarrow> bool) (on_client fd f)"
  by (auto simp: keeps_def on_client_def bus_ok_def split: sum.splits)

lemma keeps_register_proxy:
  "keeps (bus_ok :: ('cb, 'z) bus_scheme \<Rightarrow> bool) (register_proxy path names client_fd signal_fd)"
proof
  fix w :: "('cb, 'z) bus_scheme" assume ok: "bus_ok w"
  show "bus_ok (snd (register_proxy path names client_fd signal_fd w))"
  proof (cases "map_of (bs_lookup w) path")
    case None
    with ok show ?thesis by (simp add: register_proxy_def op_simps)
  next
    case (Some i)
    with ok obtain s where s: "the_service i w = Some s" by (auto simp: bus_ok_lookup)
    obtain b m where n: "interface_name2no_map names s [] = (b, m)" by fastforce
    obtain r w2 where r: "register_signal_id_for_client client_fd signal_fd
        (put_service i (add_use signal_fd 1 s) w) = (r, w2)" by fastforce
    have "bus_ok (put_service i (add_use signal_fd 1 s) w)"
      using ok s by (rule bus_ok_put_service) simp_all
    then have ok2: "bus_ok w2"
      using keepsD [OF keeps_on_client] r by (metis snd_conv register_signal_id_for_client_def)
    have "map_of (bs_objects w) i \<noteq> None" using s by (simp add: the_service_iff)
    with ok ok2 s n r Some show ?thesis
      by (cases b; cases r) (simp_all add: register_proxy_def op_simps deref_service_def)
  qed
qed

lemma put_service_twice: "the_service i (put_service i s w) = Some s" if "bus_ok w"
  using that by (simp add: the_service_def put_service_def bus_ok_def)

lemma on_client_objects [simp]:
  "bs_objects (snd (on_client fd f w)) = bs_objects w"
  by (simp add: on_client_def split: sum.splits)

lemma keeps_unregister_proxy:
  "keeps (bus_ok :: ('cb, 'z) bus_scheme \<Rightarrow> bool) (unregister_proxy i client_fd signal_fd)"
proof
  fix w :: "('cb, 'z) bus_scheme" assume ok: "bus_ok w"
  show "bus_ok (snd (unregister_proxy i client_fd signal_fd w))"
  proof (cases "map_of (bs_objects w) i")
    case None
    with ok show ?thesis by (simp add: unregister_proxy_def op_simps)
  next
    case (Some x)
    with ok obtain s where s: "the_service i w = Some s"
      using bus_ok_service by (fastforce simp: the_service_iff)
    let ?s = "add_use signal_fd (- 1) s"
    let ?w = "put_service i ?s w"
    have ok1: "bus_ok ?w" using ok s by (rule bus_ok_put_service) simp_all
    obtain r w2 where r: "unregister_signal_id_for_client client_fd signal_fd ?w = (r, w2)"
      by fastforce
    have ok2: "bus_ok w2"
      using keepsD [OF keeps_on_client ok1] r
      by (metis snd_conv unregister_signal_id_for_client_def)
    have "bs_objects w2 = bs_objects ?w"
      using on_client_objects r by (metis snd_conv unregister_signal_id_for_client_def)
    then have s2: "the_service i w2 = Some ?s"
      using put_service_twice [OF ok] by (metis the_service_def)
    have "bus_ok (put_service i (?s\<lparr>sv_signals := omap_erase signal_fd (sv_signals ?s)\<rparr>) w2)"
      using ok2 s2 by (rule bus_ok_put_service) simp_all
    with ok2 show ?thesis using Some s r
      by (cases r) (auto simp: unregister_proxy_def op_simps deref_service_def Let_def
          split: if_splits)
  qed
qed

lemma map_of_map_option:
  "map_of (map (\<lambda>(i, so). (i, map_option f so)) xs) k = map_option (map_option f) (map_of xs k)"
  by (induction xs) auto

lemma keeps_remove_signal_fd:
  "keeps (bus_ok :: ('cb, 'z) bus_scheme \<Rightarrow> bool) (container_remove_signal_fd fd)"
proof
  fix w :: "('cb, 'z) bus_scheme" assume ok: "bus_ok w"
  let ?w = "snd (container_remove_signal_fd fd w)"
  have objs: "bs_objects ?w = map (\<lambda>(i, so). (i, map_option (service_remove_signal_fd fd) so)) (bs_objects w)"
    and lk: "bs_lookup ?w = bs_lookup w"
    using bus_okD(3) [OF ok] by (auto simp: container_remove_signal_fd_def)
  have same: "sv_id (service_remove_signal_fd fd s) = sv_id s" "sv_path (service_remove_signal_fd fd s) = sv_path s"
    for s :: "'cb service"
    by (simp_all add: service_remove_signal_fd_def)
  have svc: "the_service j ?w = map_option (service_remove_signal_fd fd) (the_service j w)" for j
    by (auto simp: the_service_def objs map_of_map_option split: option.splits)
  have keys: "map fst (bs_objects ?w) = map fst (bs_objects w)" by (auto simp: objs)
  have "None \<notin> snd ` set (bs_objects ?w)" using bus_okD(3) [OF ok] by (force simp: objs)
  then show "bus_ok ?w"
    using bus_okD(1,2) [OF ok] bus_ok_id [OF ok] bus_ok_lookup [OF ok]
    by (intro bus_okI) (auto simp: keys lk svc same)
qed

text \<open>A remote call: the service and the destruction callbacks are the program's own code.\<close>

lemma keeps_process_removed:
  assumes "\<And>cb. keeps (bus_ok :: ('cb, 'z) bus_scheme \<Rightarrow> bool) (run_cb cb)"
  shows "keeps (bus_ok :: ('cb, 'z) bus_scheme \<Rightarrow> bool) (process_removed run_cb whole is)"
proof (induction "is")
  case (Cons i "is")
  have "keeps bus_ok (bnd (deref_service i) (run_destruction_callback run_cb))"
    by (rule keeps_deref)
      (auto simp: run_destruction_callback_def op_simps split: option.splits intro: keepsD [OF assms])
  with Cons show ?case
    by (auto intro!: keeps_thn keeps_bnd [OF keeps_gets] keeps_deref_log_remove)
qed simp

lemma keeps_call_service:
  assumes cb: "\<And>cb. keeps (bus_ok :: ('cb, 'z) bus_scheme \<Rightarrow> bool) (run_cb cb)"
    and svc: "\<And>i. keeps (bus_ok :: ('cb, 'z) bus_scheme \<Rightarrow> bool) (svc i)"
  shows "keeps (bus_ok :: ('cb, 'z) bus_scheme \<Rightarrow> bool) (call_service run_cb svc i)"
proof -
  have 1: "keeps (bus_ok :: ('cb, 'z) bus_scheme \<Rightarrow> bool) (bnd (deref_service i) (\<lambda>_. svc i))"
    by (rule keeps_deref) (rule keepsD [OF svc])
  have 2: "keeps (bus_ok :: ('cb, 'z) bus_scheme \<Rightarrow> bool) (modify (\<lambda>w. w\<lparr>bs_removed := []\<rparr>))"
    by (rule keeps_modify) (simp add: bus_ok_def)
  show ?thesis
    unfolding call_service_def
    by (auto intro!: keeps_bnd [OF keeps_gets] keeps_bnd [OF 1] keeps_thn 2 keeps_process_removed cb
        split: if_splits)
qed

section \<open>A client hangs up\<close>

text \<open>
  A destruction callback that does not touch the container: it may change the state of the
  drivers, but not the objects, their names and the identity of the calling client.
\<close>

definition quiet :: "('cb, 'z) callbacks \<Rightarrow> bool" where
  "quiet run_cb \<longleftrightarrow> (\<forall>cb w. fst (run_cb cb w) = Inr () \<and>
     bs_objects (snd (run_cb cb w)) = bs_objects w \<and> bs_lookup (snd (run_cb cb w)) = bs_lookup w \<and>
     bs_calling (snd (run_cb cb w)) = bs_calling w)"

definition same_objects :: "('cb, 'z) bus_scheme \<Rightarrow> ('cb, 'z) bus_scheme \<Rightarrow> bool" where
  "same_objects w w' \<longleftrightarrow> bs_objects w' = bs_objects w \<and> bs_lookup w' = bs_lookup w \<and>
     bs_calling w' = bs_calling w"

lemma same_objectsD:
  assumes "same_objects w w'"
  shows "the_service i w' = the_service i w" "bus_ok w' \<longleftrightarrow> bus_ok w"
    "removable p i w' \<longleftrightarrow> removable p i w" "bs_calling w' = bs_calling w" "bs_objects w' = bs_objects w"
    "bs_lookup w' = bs_lookup w"
  using assms by (simp_all add: same_objects_def the_service_def bus_ok_def removable_def)

lemma run_destruction_callback_quiet:
  assumes "quiet run_cb"
  obtains w' where "run_destruction_callback run_cb s w = (Inr (), w')" "same_objects w w'"
proof -
  have "\<exists>w'. run_destruction_callback run_cb s w = (Inr (), w') \<and> same_objects w w'"
  proof (cases "sv_callback s")
    case None
    then show ?thesis by (simp add: run_destruction_callback_def op_simps same_objects_def)
  next
    case (Some cb)
    obtain r w' where r: "run_cb cb w = (r, w')" by fastforce
    from assms have "fst (run_cb cb w) = Inr () \<and> same_objects w (snd (run_cb cb w))"
      by (simp add: quiet_def same_objects_def)
    with r Some show ?thesis by (simp add: run_destruction_callback_def)
  qed
  then show ?thesis using that by blast
qed

lemma find_owned_rev:
  assumes "None \<notin> snd ` set objs"
  shows "(\<exists>i s. find_owned fd objs = Inr (Some i) \<and> (i, Some s) \<in> set objs \<and> sv_owner s = fd) \<or>
    (find_owned fd objs = Inr None \<and> (\<forall>i s. (i, Some s) \<in> set objs \<longrightarrow> sv_owner s \<noteq> fd))"
  using assms by (induction fd objs rule: find_owned.induct) (auto split: option.splits)

lemma find_owned_bus:
  assumes ok: "bus_ok w"
  shows "(\<exists>i s. find_owned fd (rev (bs_objects w)) = Inr (Some i) \<and> the_service i w = Some s \<and>
      sv_owner s = fd) \<or>
    (find_owned fd (rev (bs_objects w)) = Inr None \<and>
      (\<forall>i s. the_service i w = Some s \<longrightarrow> sv_owner s \<noteq> fd))"
proof -
  have mem: "(i, Some s) \<in> set (bs_objects w) \<longleftrightarrow> the_service i w = Some s" for i s
    using bus_okD(1) [OF ok] by (auto simp: the_service_iff dest: omap_ok_distinct map_of_SomeD)
  show ?thesis
    using find_owned_rev [of "rev (bs_objects w)" fd] bus_okD(3) [OF ok] by (auto simp: mem)
qed

text \<open>Removal without permission is refused with an error the clean-up swallows.\<close>

lemma check_children_refused:
  assumes "fst (check_children path es w) \<noteq> Inr ()" "\<And>other j. (other, j) \<in> set es \<Longrightarrow> the_service j w \<noteq> None"
  shows "\<exists>msg. check_children path es w = (Inl (invalid_args msg), w)"
  using assms
proof (induction es)
  case (Cons e es)
  obtain other j where e: "e = (other, j)" by fastforce
  then obtain t where t: "the_service j w = Some t" using Cons.prems(2) by fastforce
  have ih: "fst (check_children path es w) \<noteq> Inr () \<Longrightarrow>
      \<exists>msg. check_children path es w = (Inl (invalid_args msg), w)"
    using Cons.IH Cons.prems(2) by (meson list.set_intros(2))
  show ?case using Cons.prems(1) ih by (auto simp: e t op_simps deref_service_def split: if_splits)
qed (simp add: op_simps)

lemma remove_object_refused:
  assumes ok: "bus_ok w" and no: "\<And>i. \<not> removable path i w"
  shows "\<exists>msg. remove_object path w = (Inl (invalid_args msg), w)"
proof -
  have ex: "the_service j w \<noteq> None" if "(other, j) \<in> set (bs_lookup w)" for other j
  proof -
    from that bus_okD(2) [OF ok] have "map_of (bs_lookup w) other = Some j"
      by (simp add: omap_ok_distinct)
    with bus_ok_lookup [OF ok] show ?thesis by auto
  qed
  have "\<exists>msg. removal_helper path w = (Inl (invalid_args msg), w)"
  proof (cases "path = ''/saftbus'' \<or> map_of (bs_lookup w) path = None")
    case True
    then show ?thesis by (auto simp: removal_helper_def op_simps)
  next
    case False
    then obtain i where i: "map_of (bs_lookup w) path = Some i" and p: "path \<noteq> ''/saftbus''" by auto
    then obtain s where s: "the_service i w = Some s" using bus_ok_lookup [OF ok] by auto
    show ?thesis
    proof (cases "foreign_owned (bs_calling w) s")
      case True
      with i p s show ?thesis by (simp add: removal_helper_def op_simps deref_service_def)
    next
      case own: False
      with no [of i] i p s have "fst (check_children path (bs_lookup w) w) \<noteq> Inr ()"
        unfolding check_children_Inr removable_def by blast
      then obtain msg where "check_children path (bs_lookup w) w = (Inl (invalid_args msg), w)"
        using check_children_refused ex by blast
      with i p s own show ?thesis by (simp add: removal_helper_def op_simps deref_service_def)
    qed
  qed
  then show ?thesis by (auto simp: remove_object_def op_simps)
qed

text \<open>What a hang-up does to one object of the container.\<close>

definition destroyed_on_quit :: "'cb service \<Rightarrow> bool" where
  "destroyed_on_quit s \<longleftrightarrow> has_destruction_callback s \<and> sv_destroy_if_owner_quits s"

definition after_hang_up :: "int \<Rightarrow> 'cb service \<Rightarrow> 'cb service option" where
  "after_hang_up fd s =
     (if sv_owner s \<noteq> fd then Some s
      else if destroyed_on_quit s then None
      else Some (release_owner s))"

text \<open>
  An object to be destroyed is obstructed when it is the container itself or when a third client
  owns an object below it.
\<close>

definition obstructed :: "int \<Rightarrow> 'cb service \<Rightarrow> ('cb, 'z) bus_scheme \<Rightarrow> bool" where
  "obstructed fd s w \<longleftrightarrow> sv_path s = ''/saftbus'' \<or>
     (\<exists>j t. the_service j w = Some t \<and> sv_path t \<noteq> ''/saftbus'' \<and> child_path (sv_path s) (sv_path t) \<and>
        foreign_owned fd t)"

lemma removable_iff_obstructed:
  assumes ok: "bus_ok w" and s: "the_service i w = Some s" "sv_owner s = bs_calling w"
  shows "removable (sv_path s) i w \<longleftrightarrow> \<not> obstructed (bs_calling w) s w"
proof -
  have lk: "map_of (bs_lookup w) (sv_path s) = Some i" using bus_ok_lookup [OF ok] s by blast
  have mem: "(other, j) \<in> set (bs_lookup w) \<longleftrightarrow> (\<exists>t. the_service j w = Some t \<and> sv_path t = other)"
    for other j
    using bus_ok_lookup [OF ok, of other j] bus_okD(2) [OF ok]
    by (auto simp: omap_ok_distinct dest: map_of_SomeD)
  have "\<not> foreign_owned (bs_calling w) s" using s by (simp add: foreign_owned_def)
  then have rem: "removable (sv_path s) i w \<longleftrightarrow> sv_path s \<noteq> ''/saftbus'' \<and>
      (\<forall>(other, j) \<in> set (bs_lookup w). other \<noteq> ''/saftbus'' \<and> child_path (sv_path s) other \<longrightarrow>
        (\<exists>t. the_service j w = Some t \<and> \<not> foreign_owned (bs_calling w) t))"
    using lk s(1) by (simp add: removable_def)
  have "(\<forall>(other, j) \<in> set (bs_lookup w). other \<noteq> ''/saftbus'' \<and> child_path (sv_path s) other \<longrightarrow>
        (\<exists>t. the_service j w = Some t \<and> \<not> foreign_owned (bs_calling w) t)) \<longleftrightarrow>
      (\<forall>j t. the_service j w = Some t \<longrightarrow> sv_path t \<noteq> ''/saftbus'' \<longrightarrow>
        child_path (sv_path s) (sv_path t) \<longrightarrow> \<not> foreign_owned (bs_calling w) t)" (is "?L \<longleftrightarrow> ?R")
  proof
    assume L: ?L
    show ?R
    proof (intro allI impI)
      fix j t assume a: "the_service j w = Some t" "sv_path t \<noteq> ''/saftbus''"
        "child_path (sv_path s) (sv_path t)"
      then have "(sv_path t, j) \<in> set (bs_lookup w)" using mem by blast
      with L a show "\<not> foreign_owned (bs_calling w) t" by fastforce
    qed
  next
    assume R: ?R
    show ?L
    proof (intro ballI, clarify)
      fix other j
      assume "(other, j) \<in> set (bs_lookup w)" and c: "child_path (sv_path s) other" "other \<noteq> ''/saftbus''"
      then obtain t where "the_service j w = Some t" "sv_path t = other" using mem by blast
      with R c show "\<exists>t. the_service j w = Some t \<and> \<not> foreign_owned (bs_calling w) t" by blast
    qed
  qed
  then show ?thesis unfolding rem obstructed_def by (simp only: de_Morgan_disj not_ex de_Morgan_conj imp_conv_disj)
qed

lemma the_service_put:
  "bus_ok w \<Longrightarrow> the_service j (put_service i s w) = (if j = i then Some s else the_service j w)"
  by (simp add: the_service_def put_service_def bus_ok_def)

lemma the_service_erase:
  "the_service j (erase_object p i w) = (if j = i then None else the_service j w)"
  by (simp add: the_service_def erase_object_def)

text \<open>One round of the clean-up.\<close>

definition hang_up_round :: "('cb, 'z) callbacks \<Rightarrow> u32 \<Rightarrow> (('cb, 'z) bus_scheme, unit) op" where
  "hang_up_round run_cb i =
     thn (bnd (deref_service i) (run_destruction_callback run_cb)) (release_or_remove i)"

lemma hang_up_round_ok:
  assumes ok: "bus_ok w" and q: "quiet run_cb" and s: "the_service i w = Some s"
    and own: "sv_owner s = fd" "bs_calling w = fd" "fd \<noteq> - 1"
    and free: "destroyed_on_quit s \<Longrightarrow> \<not> obstructed fd s w"
  shows "\<exists>w'. hang_up_round run_cb i w = (Inr (), w') \<and> bus_ok w' \<and> bs_calling w' = fd \<and>
    (\<forall>j. the_service j w' = (if j = i then after_hang_up fd s else the_service j w))"
proof -
  obtain w1 where r: "run_destruction_callback run_cb s w = (Inr (), w1)" and so: "same_objects w w1"
    using run_destruction_callback_quiet [OF q] .
  note so = same_objectsD [OF so]
  show ?thesis
  proof (cases "destroyed_on_quit s")
    case True
    with free removable_iff_obstructed [OF ok s] own have "removable (sv_path s) i w1"
      by (simp add: so)
    then have "remove_object (sv_path s) w1 = (Inr False, erase_object (sv_path s) i w1)"
      unfolding remove_object_Inr by blast
    moreover have "bus_ok (erase_object (sv_path s) i w1)"
      using ok bus_ok_lookup [OF ok] s by (intro erase_object_ok) (auto simp: so)
    moreover have "bs_calling (erase_object (sv_path s) i w1) = fd"
      using own by (simp add: erase_object_def so)
    moreover have "hang_up_round run_cb i w =
        log_runtime_error (remove_object (sv_path s)) w1"
      using r s True
      by (simp add: hang_up_round_def op_simps deref_service_def release_or_remove_def so
          destroyed_on_quit_def)
    ultimately show ?thesis using own True
      by (auto simp: log_runtime_error_def the_service_erase after_hang_up_def so)
  next
    case False
    let ?s = "s\<lparr>sv_owner := - 1\<rparr>"
    have "bus_ok (put_service i ?s w1)"
      using ok s by (intro bus_ok_put_service [of _ _ s]) (simp_all add: so)
    moreover have "bs_calling (put_service i ?s w1) = fd" using own by (simp add: put_service_def so)
    moreover have "hang_up_round run_cb i w = (Inr (), put_service i ?s w1)"
      using r s False
      by (auto simp: hang_up_round_def op_simps deref_service_def release_or_remove_def so
          destroyed_on_quit_def)
    ultimately show ?thesis using ok own False
      by (auto simp: the_service_put so after_hang_up_def release_owner_def)
  qed
qed

text \<open>
  The clean-up as a whole. The number of objects the client owns decreases with every round, so
  one round more than there are such objects is enough.
\<close>

definition owned_by :: "int \<Rightarrow> ('cb, 'z) bus_scheme \<Rightarrow> u32 set" where
  "owned_by fd w = {i. \<exists>s. the_service i w = Some s \<and> sv_owner s = fd}"

lemma finite_owned_by: "finite (owned_by fd w)"
proof (rule finite_subset)
  show "owned_by fd w \<subseteq> dom (map_of (bs_objects w))" by (auto simp: owned_by_def the_service_iff)
qed (rule finite_dom_map_of)

lemma owned_by_le: "card (owned_by fd w) \<le> length (bs_objects w)"
proof -
  have "owned_by fd w \<subseteq> fst ` set (bs_objects w)"
    by (auto simp: owned_by_def the_service_iff dest!: map_of_SomeD intro!: rev_image_eqI)
  then have "card (owned_by fd w) \<le> card (fst ` set (bs_objects w))" by (rule card_mono [rotated]) simp
  also have "\<dots> \<le> length (bs_objects w)" by (metis card_length list.set_map length_map)
  finally show ?thesis .
qed

lemma container_client_hung_up_round:
  "find_owned fd (rev (bs_objects w)) = Inr (Some i) \<Longrightarrow>
   container_client_hung_up (Suc fuel) run_cb fd w =
     (case hang_up_round run_cb i w of
        (Inl e, w') \<Rightarrow> Some (Inl e, w')
      | (Inr _, w') \<Rightarrow> container_client_hung_up fuel run_cb fd w')"
  by (simp add: hang_up_round_def)

lemma container_client_hung_up_result:
  assumes "bus_ok w" "quiet run_cb" "bs_calling w = fd" "fd \<noteq> - 1"
    and "\<And>i s. the_service i w = Some s \<Longrightarrow> sv_owner s = fd \<Longrightarrow> destroyed_on_quit s \<Longrightarrow> \<not> obstructed fd s w"
    and "card (owned_by fd w) < fuel"
  shows "\<exists>w'. container_client_hung_up fuel run_cb fd w = Some (Inr (), w') \<and> bus_ok w' \<and>
    (\<forall>i. the_service i w' = Option.bind (the_service i w) (after_hang_up fd))"
  using assms
proof (induction fuel arbitrary: w)
  case (Suc fuel)
  note ok = Suc.prems(1)
  consider i s where "find_owned fd (rev (bs_objects w)) = Inr (Some i)" "the_service i w = Some s"
      "sv_owner s = fd"
    | "find_owned fd (rev (bs_objects w)) = Inr None"
      "\<forall>i s. the_service i w = Some s \<longrightarrow> sv_owner s \<noteq> fd"
    using find_owned_bus [OF ok, of fd] by blast
  then show ?case
  proof cases
    case 2
    then have "the_service i w = Option.bind (the_service i w) (after_hang_up fd)" for i
      by (cases "the_service i w") (auto simp: after_hang_up_def)
    with 2(1) ok show ?thesis by simp
  next
    case (1 i s)
    then have free: "destroyed_on_quit s \<Longrightarrow> \<not> obstructed fd s w" using Suc.prems(5) by blast
    obtain w1 where r: "hang_up_round run_cb i w = (Inr (), w1)" and ok1: "bus_ok w1"
      and calling: "bs_calling w1 = fd"
      and svc: "\<And>j. the_service j w1 = (if j = i then after_hang_up fd s else the_service j w)"
      using hang_up_round_ok [OF ok Suc.prems(2) 1(2,3) Suc.prems(3,4) free] by blast
    have less: "owned_by fd w1 = owned_by fd w - {i}"
      using Suc.prems(4) by (auto simp: owned_by_def svc after_hang_up_def release_owner_def split: if_splits)
    have "i \<in> owned_by fd w" using 1 by (auto simp: owned_by_def)
    then have "card (owned_by fd w1) < fuel"
      using Suc.prems(6) card_Diff1_less [OF finite_owned_by [of fd w]] less by fastforce
    moreover have "\<not> obstructed fd t w1"
      if "the_service j w1 = Some t" "sv_owner t = fd" "destroyed_on_quit t" for j t
    proof -
      from that Suc.prems(4) have "the_service j w = Some t"
        by (auto simp: svc after_hang_up_def release_owner_def split: if_splits)
      with that Suc.prems(5) have "\<not> obstructed fd t w" by blast
      then show ?thesis
        using 1(2,3) by (auto simp: obstructed_def svc after_hang_up_def release_owner_def
            foreign_owned_def split: if_splits)
    qed
    ultimately obtain w' where w': "container_client_hung_up fuel run_cb fd w1 = Some (Inr (), w')"
      "bus_ok w'" "\<And>j. the_service j w' = Option.bind (the_service j w1) (after_hang_up fd)"
      using Suc.IH [OF ok1 Suc.prems(2) calling Suc.prems(4)] by blast
    have "the_service j w' = Option.bind (the_service j w) (after_hang_up fd)" for j
      using 1(2,3) Suc.prems(4) by (auto simp: w'(3) svc after_hang_up_def release_owner_def)
    with w'(1,2) r container_client_hung_up_round [OF 1(1)] show ?thesis by auto
  qed
qed simp

text \<open>
  When the youngest object of the client is obstructed, the removal fails, the error is only
  written to the console, and the loop finds the same object again: it never ends.
\<close>

lemma container_client_hung_up_stuck:
  assumes ok: "bus_ok w" and q: "quiet run_cb" and calling: "bs_calling w = fd"
    and f: "find_owned fd (rev (bs_objects w)) = Inr (Some i)" and s: "the_service i w = Some s"
    and d: "destroyed_on_quit s" and obs: "obstructed fd s w"
  shows "container_client_hung_up fuel run_cb fd w = None"
proof -
  have own: "sv_owner s = fd"
    using find_owned_bus [OF ok, of fd] f s by auto
  have "container_client_hung_up fuel run_cb fd w' = None" if "same_objects w w'" for w'
    using that
  proof (induction fuel arbitrary: w')
    case (Suc fuel)
    note so = same_objectsD [OF Suc.prems]
    obtain w1 where r: "run_destruction_callback run_cb s w' = (Inr (), w1)" and so1: "same_objects w' w1"
      using run_destruction_callback_quiet [OF q] .
    have so2: "same_objects w w1" using Suc.prems so1 by (simp add: same_objects_def)
    note so' = same_objectsD [OF so2]
    have "\<not> removable (sv_path s) j w" for j
    proof
      assume rem: "removable (sv_path s) j w"
      then have "the_service j w \<noteq> None \<and> map_of (bs_lookup w) (sv_path s) = Some j"
        by (auto simp: removable_def)
      moreover have "map_of (bs_lookup w) (sv_path s) = Some i" using bus_ok_lookup [OF ok] s by blast
      ultimately have "j = i" by simp
      with rem obs removable_iff_obstructed [OF ok s] own calling show False by simp
    qed
    then obtain msg where "remove_object (sv_path s) w1 = (Inl (invalid_args msg), w1)"
      using remove_object_refused [of w1 "sv_path s"] ok by (auto simp: so')
    then have "hang_up_round run_cb i w' = (Inr (), w1)"
      using r s d by (simp add: hang_up_round_def op_simps deref_service_def release_or_remove_def
          so so' destroyed_on_quit_def log_runtime_error_def)
    moreover have "find_owned fd (rev (bs_objects w')) = Inr (Some i)" using f by (simp add: so)
    ultimately show ?case
      using Suc.IH [OF so2] container_client_hung_up_round [of fd w' i fuel run_cb]
      by (simp del: container_client_hung_up.simps)
  qed simp
  then show ?thesis by (simp add: same_objects_def)
qed

end
