(* ===== verification/Server.thy ===== *)
theory Server
  imports Container_Cleanup
begin

text \<open>
  The server side of the socket: \<open>ServerConnection::Impl\<close> (saftbus/server.cpp) and
  \<open>Container_Service::call\<close> (saftbus/service.cpp), from the arrival of a request to the reply,
  and the end of a client.
\<close>

section \<open>Requests and replies\<close>

text \<open>
  A request is what the deserializer yields for \<open>interface_no\<close>, \<open>function_no\<close> and the arguments.
  \<open>RegisterProxy\<close> carries the signal descriptor the client names and the one \<open>recvfd\<close> would
  return.
\<close>

datatype request =
    RegisterProxy string "string list" int int
  | UnregisterProxy u32 int int
  | LoadPlugin string "string list"
  | UnloadPlugin string "string list"
  | RemoveObject string
  | Quit
  | GetStatus
  | OtherFunction int int

datatype reply =
    ProxyRegistered u32 int int "(string \<times> int) list"
  | NoReply
  | ReturnBool bool
  | ReturnUnit
  | ReturnStatus saftbus_info
  | ExceptionReply string

text \<open>What the container calls outside of it: plugin loading, the loop's quit, information texts.\<close>

record ('cb, 'w) environment =
  en_run_cb :: "'cb \<Rightarrow> ('w, unit) op"
  en_load :: "string \<Rightarrow> ('w, unit) op"
  en_create :: "string \<Rightarrow> string list \<Rightarrow> ('w, unit) op"
  en_info :: "'cb \<Rightarrow> string"
  en_quit_loop :: "'w \<Rightarrow> 'w"

definition container_quit ::
  "('cb, ('cb, 'z) bus_scheme) environment \<Rightarrow> nat \<Rightarrow> (('cb, 'z) bus_scheme, unit) op" where
  "container_quit env fuel =
     (\<lambda>w. case container_clear fuel (en_run_cb env) w of
            None \<Rightarrow> (Inl (Undefined ''Container::clear does not end''), w)
          | Some (Inl e, w') \<Rightarrow> (Inl e, w')
          | Some (Inr _, w') \<Rightarrow> (Inr (), en_quit_loop env w'))"

definition remove_with_callback ::
  "('cb, 'z) callbacks \<Rightarrow> string \<Rightarrow> (('cb, 'z) bus_scheme, unit) op" where
  "remove_with_callback run_cb path =
     bnd (removal_helper path) (\<lambda>i.
     thn (bnd (deref_service i) (run_destruction_callback run_cb))
    (bnd (gets (\<lambda>w. map_of (bs_lookup w) path)) (\<lambda>found.
     if found \<noteq> None then thn (remove_object path) (ret ()) else ret ())))"

fun container_function ::
  "('cb, ('cb, 'z) bus_scheme) environment \<Rightarrow> nat \<Rightarrow> int \<Rightarrow> request
   \<Rightarrow> (('cb, 'z) bus_scheme, reply) op" where
  "container_function env fuel client_fd (RegisterProxy path names signal_fd received_fd) =
     (let signal_fd = (if signal_fd = - 1 then received_fd else signal_fd) in
      bnd (register_proxy path names client_fd signal_fd) (\<lambda>(i, m).
      ret (ProxyRegistered (word_of_int i) client_fd signal_fd m)))"
| "container_function env fuel client_fd (UnregisterProxy i received_client_fd received_signal_fd) =
     thn (unregister_proxy i received_client_fd received_signal_fd) (ret NoReply)"
| "container_function env fuel client_fd (LoadPlugin so args) =
     bnd (load_plugin (en_load env) (en_create env) so args) (\<lambda>b. ret (ReturnBool b))"
| "container_function env fuel client_fd (UnloadPlugin so args) =
     bnd (unload_plugin so) (\<lambda>b. ret (ReturnBool b))"
| "container_function env fuel client_fd (RemoveObject path) =
     thn (remove_with_callback (en_run_cb env) path) (ret (ReturnBool True))"
| "container_function env fuel client_fd Quit =
     thn (container_quit env fuel) (ret ReturnUnit)"
| "container_function env fuel client_fd GetStatus =
     bnd (get_status (en_info env)) (\<lambda>s. ret (ReturnStatus s))"
| "container_function env fuel client_fd (OtherFunction interface_no function_no) = ret NoReply"

text \<open>The exceptions of a call become replies.\<close>

definition exception_reply :: "exn \<Rightarrow> reply" where
  "exception_reply e =
     (if is_runtime_error e then ExceptionReply (what e) else ExceptionReply ''unknown exception'')"

definition container_service_call ::
  "('cb, ('cb, 'z) bus_scheme) environment \<Rightarrow> nat \<Rightarrow> int \<Rightarrow> request
   \<Rightarrow> (('cb, 'z) bus_scheme, reply) op" where
  "container_service_call env fuel client_fd rq =
     try_catch (container_function env fuel client_fd rq) (\<lambda>e. ret (exception_reply e))"

section \<open>The connection\<close>

definition accept_client :: "int \<Rightarrow> int \<Rightarrow> (('cb, 'z) bus_scheme, bool) op" where
  "accept_client client_socket_fd pid =
     thn (assert_that (client_socket_fd \<noteq> - 1) ''cannot receive socket fd'')
    (thn (modify (\<lambda>w. w\<lparr>bs_clients := bs_clients w
                         @ [\<lparr>cl_fd = client_socket_fd, cl_pid = pid, cl_signals = []\<rparr>]\<rparr>))
         (ret True))"

definition get_client_info :: "('cb, 'z) bus_scheme \<Rightarrow> (int \<times> int \<times> (int \<times> int) list) list" where
  "get_client_info w = map (\<lambda>c. (cl_pid c, cl_fd c, cl_signals c)) (bs_clients w)"

fun find_client :: "int \<Rightarrow> client list \<Rightarrow> client option" where
  "find_client fd [] = None"
| "find_client fd (c # cs) = (if cl_fd c = fd then Some c else find_client fd cs)"

text \<open>
  \<open>ServerConnection::Impl::client_hung_up\<close>. The destructor of \<open>Client\<close> closes the descriptors;
  which are open is not part of the state.
\<close>

definition server_client_hung_up ::
  "nat \<Rightarrow> ('cb, 'z) callbacks \<Rightarrow> int \<Rightarrow> ('cb, 'z) bus_scheme
   \<Rightarrow> ((exn + unit) \<times> ('cb, 'z) bus_scheme) option" where
  "server_client_hung_up fuel run_cb fd w =
     (case find_client fd (bs_clients w) of
        None \<Rightarrow> Some (Inl (AssertFailed ''client not found''), w\<lparr>bs_calling := - 1\<rparr>)
      | Some c \<Rightarrow>
          (case for_each (\<lambda>(sigfd, _). container_remove_signal_fd sigfd) (cl_signals c) w of
             (Inl e, w') \<Rightarrow> Some (Inl e, w')
           | (Inr _, w') \<Rightarrow> container_client_hung_up fuel run_cb fd
                 (w'\<lparr>bs_clients := filter (\<lambda>c. cl_fd c \<noteq> fd) (bs_clients w')\<rparr>)))"

text \<open>
  \<open>handle_client_request\<close>. \<open>incoming\<close> is what \<open>read_from\<close> finds on the descriptor: nothing when
  the client is gone, otherwise the object id and the request. The guard object resets the
  calling client however the function is left, an exception included; a failed assertion ends
  the process. The result is the value returned to the loop and the reply written to the client.
\<close>

definition leave_request ::
  "(exn + 'a) \<times> ('cb, 'z) bus_scheme \<Rightarrow> (exn + 'a) \<times> ('cb, 'z) bus_scheme" where
  "leave_request r = (case r of (x, w) \<Rightarrow> (x, w\<lparr>bs_calling := - 1\<rparr>))"

definition handle_client_request ::
  "('cb, ('cb, 'z) bus_scheme) environment \<Rightarrow> (u32 \<Rightarrow> int \<Rightarrow> request \<Rightarrow> (('cb, 'z) bus_scheme, reply) op)
   \<Rightarrow> nat \<Rightarrow> int \<Rightarrow> bool \<Rightarrow> (u32 \<times> request) option \<Rightarrow> ('cb, 'z) bus_scheme
   \<Rightarrow> ((exn + bool \<times> reply) \<times> ('cb, 'z) bus_scheme) option" where
  "handle_client_request env services fuel fd readable incoming w =
     (let w = w\<lparr>bs_calling := fd\<rparr> in
      if \<not> readable then Some (leave_request (Inr (True, NoReply), w))
      else case incoming of
        None \<Rightarrow> map_option (\<lambda>(r, w'). leave_request (map_sum id (\<lambda>_. (False, NoReply)) r, w'))
                  (server_client_hung_up fuel (en_run_cb env) fd w)
      | Some (object_id, rq) \<Rightarrow>
          Some (leave_request
            (bnd (call_service (en_run_cb env)
                    (\<lambda>i. if i = 1 then container_service_call env fuel fd rq else services i fd rq)
                    object_id) (\<lambda>reply.
             ret (True, case reply of
                          None \<Rightarrow> ExceptionReply ''remote call failed because service object was not found''
                        | Some r \<Rightarrow> r)) w)))"

section \<open>The end of a client\<close>

definition strip_signals :: "int set \<Rightarrow> 'cb service \<Rightarrow> 'cb service" where
  "strip_signals fds s = s\<lparr>sv_signals := filter (\<lambda>p. fst p \<notin> fds) (sv_signals s)\<rparr>"

lemma service_remove_signal_fd_strip: "service_remove_signal_fd fd s = strip_signals {fd} s"
proof (cases "map_of (sv_signals s) fd")
  case None
  then have "filter (\<lambda>p. fst p \<noteq> fd) (sv_signals s) = sv_signals s"
    by (simp add: filter_id_conv map_of_eq_None_iff) force
  with None show ?thesis by (simp add: service_remove_signal_fd_def strip_signals_def)
qed (simp add: service_remove_signal_fd_def strip_signals_def omap_erase_def)

lemma strip_strip: "strip_signals A (strip_signals B s) = strip_signals (A \<union> B) s"
  by (simp add: strip_signals_def conj_commute)

lemma strip_signals_sel [simp]:
  "sv_owner (strip_signals A s) = sv_owner s" "sv_path (strip_signals A s) = sv_path s"
  "sv_id (strip_signals A s) = sv_id s"
  "destroyed_on_quit (strip_signals A s) = destroyed_on_quit s"
  by (simp_all add: strip_signals_def destroyed_on_quit_def has_destruction_callback_def)

lemma container_remove_signal_fd_ok:
  assumes ok: "bus_ok w"
  obtains w' where "container_remove_signal_fd fd w = (Inr (), w')" "bus_ok w'"
    "bs_calling w' = bs_calling w" "bs_clients w' = bs_clients w"
    "\<And>j. the_service j w' = map_option (strip_signals {fd}) (the_service j w)"
proof -
  obtain r w' where r: "container_remove_signal_fd fd w = (r, w')" by fastforce
  have "r = Inr ()" "bs_calling w' = bs_calling w" "bs_clients w' = bs_clients w"
    and objs: "bs_objects w' = map (\<lambda>(i, so). (i, map_option (service_remove_signal_fd fd) so)) (bs_objects w)"
    using r bus_okD(3) [OF ok] by (auto simp: container_remove_signal_fd_def)
  moreover have "bus_ok w'" using keepsD [OF keeps_remove_signal_fd ok] r by (metis snd_conv)
  moreover have "the_service j w' = map_option (strip_signals {fd}) (the_service j w)" for j
    by (auto simp: the_service_def objs map_of_map_option service_remove_signal_fd_strip
        split: option.splits)
  ultimately show ?thesis using that r by blast
qed

lemma remove_signal_fds_ok:
  fixes w :: "('cb, 'z) bus_scheme"
  assumes "bus_ok w"
  shows "\<exists>w'. for_each (\<lambda>(sigfd, _). container_remove_signal_fd sigfd) sigs w = (Inr (), w') \<and> bus_ok w' \<and>
    bs_calling w' = bs_calling w \<and> bs_clients w' = bs_clients w \<and>
    (\<forall>j. the_service j w' = map_option (strip_signals (fst ` set sigs)) (the_service j w))"
  using assms
proof (induction sigs arbitrary: w)
  case Nil
  have "strip_signals {} = (\<lambda>s :: 'cb service. s)" by (rule ext) (simp add: strip_signals_def)
  then have "map_option (strip_signals {}) x = x" for x :: "'cb service option"
    by (cases x) (simp_all add: fun_eq_iff)
  with Nil show ?case by (simp add: op_simps)
next
  case (Cons e sigs)
  obtain fd n where e: "e = (fd, n)" by fastforce
  obtain w1 where 1: "container_remove_signal_fd fd w = (Inr (), w1)" "bus_ok w1"
    "bs_calling w1 = bs_calling w" "bs_clients w1 = bs_clients w"
    "\<And>j. the_service j w1 = map_option (strip_signals {fd}) (the_service j w)"
    using container_remove_signal_fd_ok [OF Cons.prems, of fd] by blast
  obtain w' where 2: "for_each (\<lambda>(sigfd, _). container_remove_signal_fd sigfd) sigs w1 = (Inr (), w')"
    "bus_ok w'" "bs_calling w' = bs_calling w1" "bs_clients w' = bs_clients w1"
    "\<And>j. the_service j w' = map_option (strip_signals (fst ` set sigs)) (the_service j w1)"
    using Cons.IH [OF 1(2)] by blast
  have "the_service j w' = map_option (strip_signals (fst ` set (e # sigs))) (the_service j w)" for j
    by (simp add: 1(5) 2(5) e option.map_comp comp_def strip_strip)
  with 1 2 e show ?case by (simp add: op_simps)
qed

lemma server_client_hung_up_result:
  assumes ok: "bus_ok w" and q: "quiet run_cb" and calling: "bs_calling w = fd" "fd \<noteq> - 1"
    and c: "find_client fd (bs_clients w) = Some c"
    and free: "\<And>i s. the_service i w = Some s \<Longrightarrow> sv_owner s = fd \<Longrightarrow> destroyed_on_quit s \<Longrightarrow>
      \<not> obstructed fd s w"
    and fuel: "card (owned_by fd w) < fuel"
  shows "\<exists>w'. server_client_hung_up fuel run_cb fd w = Some (Inr (), w') \<and> bus_ok w' \<and>
    (\<forall>i. the_service i w' = Option.bind (the_service i w)
       (\<lambda>s. after_hang_up fd (strip_signals (fst ` set (cl_signals c)) s)))"
proof -
  let ?A = "fst ` set (cl_signals c)"
  obtain w1 where 1: "for_each (\<lambda>(sigfd, _). container_remove_signal_fd sigfd) (cl_signals c) w = (Inr (), w1)"
    "bus_ok w1" "bs_calling w1 = bs_calling w" "bs_clients w1 = bs_clients w"
    "\<And>j. the_service j w1 = map_option (strip_signals ?A) (the_service j w)"
    using remove_signal_fds_ok [OF ok] by blast
  let ?w = "w1\<lparr>bs_clients := filter (\<lambda>c. cl_fd c \<noteq> fd) (bs_clients w1)\<rparr>"
  have svc: "the_service j ?w = map_option (strip_signals ?A) (the_service j w)" for j
    using 1(5) [of j] by (simp add: the_service_def)
  have "bus_ok ?w" using 1(2) by (simp add: bus_ok_def)
  moreover have "\<not> obstructed fd s ?w"
    if "the_service i ?w = Some s" "sv_owner s = fd" "destroyed_on_quit s" for i s
  proof -
    from that obtain s' where s': "the_service i w = Some s'" "s = strip_signals ?A s'"
      by (auto simp: svc)
    with that free have "\<not> obstructed fd s' w" by simp
    with s' show ?thesis
      unfolding obstructed_def svc foreign_owned_def map_option_eq_Some by (metis strip_signals_sel(1,2))
  qed
  moreover have "owned_by fd ?w = owned_by fd w" by (auto simp: owned_by_def svc)
  ultimately obtain w' where "container_client_hung_up fuel run_cb fd ?w = Some (Inr (), w')" "bus_ok w'"
    "\<And>i. the_service i w' = Option.bind (the_service i ?w) (after_hang_up fd)"
    using container_client_hung_up_result [of ?w run_cb fd fuel] q calling 1(3) fuel by auto
  moreover have "Option.bind (the_service i ?w) (after_hang_up fd) = Option.bind (the_service i w)
      (\<lambda>s. after_hang_up fd (strip_signals ?A s))" for i
    by (cases "the_service i w") (simp_all add: svc)
  ultimately show ?thesis using c 1(1) by (simp add: server_client_hung_up_def)
qed

section \<open>Requests keep the tables consistent\<close>

text \<open>The code outside of the container keeps them, too.\<close>

definition env_keeps :: "('cb, ('cb, 'z) bus_scheme) environment \<Rightarrow> bool" where
  "env_keeps env \<longleftrightarrow> (\<forall>cb. keeps bus_ok (en_run_cb env cb)) \<and> (\<forall>so. keeps bus_ok (en_load env so)) \<and>
     (\<forall>so args. keeps bus_ok (en_create env so args))"

lemma keeps_remove_with_callback:
  assumes "\<And>cb. keeps (bus_ok :: ('cb, 'z) bus_scheme \<Rightarrow> bool) (run_cb cb)"
  shows "keeps (bus_ok :: ('cb, 'z) bus_scheme \<Rightarrow> bool) (remove_with_callback run_cb path)"
proof -
  have 1: "keeps (bus_ok :: ('cb, 'z) bus_scheme \<Rightarrow> bool) (removal_helper path)"
    by (rule keepsI) (simp add: removal_helper_state)
  have 2: "keeps (bus_ok :: ('cb, 'z) bus_scheme \<Rightarrow> bool)
      (bnd (deref_service i) (run_destruction_callback run_cb))" for i
    by (rule keeps_deref)
      (auto simp: run_destruction_callback_def op_simps split: option.splits intro: keepsD [OF assms])
  show ?thesis
    unfolding remove_with_callback_def
    by (auto intro!: keeps_bnd [OF 1] keeps_thn [OF 2] keeps_bnd [OF keeps_gets]
        keeps_thn [OF keeps_remove_object] split: if_splits)
qed

lemma keeps_load_plugin:
  assumes "env_keeps env"
  shows "keeps bus_ok (load_plugin (en_load env) (en_create env) so args)"
proof -
  have 1: "keeps bus_ok (modify (\<lambda>w. w\<lparr>bs_plugins := bs_plugins w @ [so]\<rparr>))"
    by (rule keeps_modify) (simp add: bus_ok_def)
  show ?thesis
    using assms unfolding load_plugin_def env_keeps_def
    by (auto intro!: keeps_bnd [OF keeps_gets] keeps_thn 1 split: if_splits)
qed

lemma keeps_unload_plugin: "keeps (bus_ok :: ('cb, 'z) bus_scheme \<Rightarrow> bool) (unload_plugin so)"
proof -
  have 1: "keeps (bus_ok :: ('cb, 'z) bus_scheme \<Rightarrow> bool) (modify (\<lambda>w. w\<lparr>bs_plugins := ps\<rparr>))" for ps
    by (rule keeps_modify) (simp add: bus_ok_def)
  show ?thesis
    unfolding unload_plugin_def by (auto intro!: keeps_bnd [OF keeps_gets] keeps_thn 1)
qed

lemma keeps_get_status: "keeps (bus_ok :: ('cb, 'z) bus_scheme \<Rightarrow> bool) (get_status info)"
  by (simp add: keeps_def get_status_def)

lemma keeps_container_function:
  assumes env: "env_keeps env" and rq: "rq \<noteq> Quit"
  shows "keeps bus_ok (container_function env fuel fd rq)"
  using rq env keeps_remove_with_callback [of "en_run_cb env"]
  by (cases rq) (auto simp: Let_def env_keeps_def intro!: keeps_bnd [OF keeps_register_proxy]
      keeps_bnd [OF keeps_load_plugin [OF env]] keeps_bnd [OF keeps_unload_plugin]
      keeps_bnd [OF keeps_get_status] keeps_thn [OF keeps_unregister_proxy])

lemma keeps_try_catch: "keeps P m \<Longrightarrow> (\<And>e. keeps P (h e)) \<Longrightarrow> keeps P (try_catch m h)"
  by (fastforce simp: keeps_def try_catch_def split: prod.splits sum.splits)

lemma keeps_container_service_call:
  "env_keeps env \<Longrightarrow> rq \<noteq> Quit \<Longrightarrow> keeps bus_ok (container_service_call env fuel fd rq)"
  unfolding container_service_call_def by (intro keeps_try_catch keeps_container_function) simp_all

lemma bus_ok_calling [simp]: "bus_ok (w\<lparr>bs_calling := x\<rparr>) = bus_ok w"
  by (simp add: bus_ok_def)

lemma handle_client_request_keeps:
  assumes env: "env_keeps env" and rq: "rq \<noteq> Quit"
    and services: "\<And>i. keeps bus_ok (services i fd rq)" and ok: "bus_ok w"
    and r: "handle_client_request env services fuel fd readable (Some (object_id, rq)) w = Some (r, w')"
  shows "bus_ok w' \<and> bs_calling w' = - 1"
proof -
  let ?svc = "\<lambda>i. if i = 1 then container_service_call env fuel fd rq else services i fd rq"
  let ?call = "call_service (en_run_cb env) ?svc object_id"
  have "keeps bus_ok ?call"
    using env services keeps_container_service_call [OF env rq, of fuel fd]
    by (intro keeps_call_service) (auto simp: env_keeps_def)
  then have "keeps bus_ok (bnd ?call (\<lambda>reply. ret (True, case reply of
      None \<Rightarrow> ExceptionReply ''remote call failed because service object was not found''
    | Some r \<Rightarrow> r)))" (is "keeps _ ?m")
    by (rule keeps_bnd) simp
  from keepsD [OF this, of "w\<lparr>bs_calling := fd\<rparr>"] ok
  have "bus_ok (snd (?m (w\<lparr>bs_calling := fd\<rparr>)))" by simp
  moreover obtain x v where x: "?m (w\<lparr>bs_calling := fd\<rparr>) = (x, v)" by fastforce
  ultimately have "bus_ok v" by simp
  with r ok x show ?thesis
    by (cases readable) (auto simp: handle_client_request_def leave_request_def)
qed

end
