(* ===== verification/Owned.thy ===== *)
theory Owned
  imports Server
begin

text \<open>
  Exclusive access for clients (src/Owned.cpp): a driver object that is attached to a service of
  the container lets the owner of that service, or everybody when it has none, pass.
\<close>

section \<open>Model\<close>

text \<open>\<open>Owned\<close>: whether it has a container, and the service object it was given.\<close>

record owned =
  ow_cont :: bool
  ow_service :: "u32 option"

definition new_owned :: "bool \<Rightarrow> owned" where
  "new_owned container = \<lparr>ow_cont = container, ow_service = None\<rparr>"

definition set_service :: "u32 \<Rightarrow> owned \<Rightarrow> owned" where
  "set_service i o' = o'\<lparr>ow_service := Some i\<rparr>"

definition release_service :: "owned \<Rightarrow> owned" where
  "release_service o' = o'\<lparr>ow_service := None\<rparr>"

abbreviation not_owner :: exn where
  "not_owner \<equiv> invalid_args ''You are not my Owner''"

abbreviation no_service :: exn where
  "no_service \<equiv> invalid_args ''Owner service pointer not set''"

text \<open>The shape all these functions share: \<open>if (cont && service) ... else if (cont) throw\<close>.\<close>

definition with_service ::
  "owned \<Rightarrow> (u32 \<Rightarrow> 'cb service \<Rightarrow> (('cb, 'z) bus_scheme, 'a) op) \<Rightarrow> 'a \<Rightarrow> (('cb, 'z) bus_scheme, 'a) op" where
  "with_service o' body otherwise =
     (case (ow_cont o', ow_service o') of
        (True, Some i) \<Rightarrow> bnd (deref_service i) (body i)
      | (True, None) \<Rightarrow> raise no_service
      | (False, _) \<Rightarrow> ret otherwise)"

definition owner_check :: "'cb service \<Rightarrow> (('cb, 'z) bus_scheme, unit) op" where
  "owner_check s = bnd (gets bs_calling) (\<lambda>caller. throw_if (is_owned s \<and> caller \<noteq> get_owner s) not_owner)"

definition ownerOnly :: "owned \<Rightarrow> (('cb, 'z) bus_scheme, unit) op" where
  "ownerOnly o' = with_service o' (\<lambda>i s. owner_check s) ()"

definition Disown :: "owned \<Rightarrow> (('cb, 'z) bus_scheme, unit) op" where
  "Disown o' = with_service o' (\<lambda>i s. thn (owner_check s) (modify (put_service i (release_owner s)))) ()"

definition Own :: "owned \<Rightarrow> (('cb, 'z) bus_scheme, unit) op" where
  "Own o' = thn (ownerOnly o')
     (with_service o' (\<lambda>i s. bnd (gets bs_calling) (\<lambda>caller. modify (put_service i (set_owner caller s)))) ())"

definition getOwner :: "owned \<Rightarrow> (('cb, 'z) bus_scheme, string) op" where
  "getOwner o' = with_service o' (\<lambda>i s. ret (if get_owner s \<noteq> - 1 then show_int (get_owner s) else [])) []"

definition getDestructible :: "owned \<Rightarrow> (('cb, 'z) bus_scheme, bool) op" where
  "getDestructible o' = with_service o' (\<lambda>i s. ret (has_destruction_callback s)) False"

text \<open>\<open>emit\<close> is \<open>Destroyed.emit()\<close>; the service pointer is read again after it.\<close>

definition Destroy :: "owned \<Rightarrow> (('cb, 'z) bus_scheme, unit) op \<Rightarrow> (('cb, 'z) bus_scheme, unit) op" where
  "Destroy o' emit =
     thn (ownerOnly o')
    (thn (if ow_service o' \<noteq> None \<or> \<not> ow_cont o' then emit else ret ())
    (case (ow_cont o', ow_service o') of
       (True, Some i) \<Rightarrow> destroy_service i
     | (True, None) \<Rightarrow> raise no_service
     | (False, _) \<Rightarrow> ret ()))"

section \<open>Access\<close>

definition may_access :: "int \<Rightarrow> 'cb service \<Rightarrow> bool" where
  "may_access caller s \<longleftrightarrow> sv_owner s = - 1 \<or> sv_owner s = caller"

lemma may_access_foreign: "may_access caller s \<longleftrightarrow> \<not> foreign_owned caller s"
  by (auto simp: may_access_def foreign_owned_def)

lemma owner_check_eq:
  "owner_check s w = (if may_access (bs_calling w) s then (Inr (), w) else (Inl not_owner, w))"
  by (auto simp: owner_check_def op_simps may_access_def is_owned_def get_owner_def)

lemma ownerOnly_eq:
  assumes "ow_cont o'" "ow_service o' = Some i" "the_service i w = Some s"
  shows "ownerOnly o' w = (if may_access (bs_calling w) s then (Inr (), w) else (Inl not_owner, w))"
  using assms by (simp add: ownerOnly_def with_service_def bnd_def deref_service_def owner_check_eq)

lemma Own_eq:
  assumes "ow_cont o'" "ow_service o' = Some i" "the_service i w = Some s"
  shows "Own o' w =
    (if may_access (bs_calling w) s then (Inr (), put_service i (set_owner (bs_calling w) s) w)
     else (Inl not_owner, w))"
  using ownerOnly_eq [OF assms] assms
  by (simp add: Own_def with_service_def op_simps deref_service_def)

lemma Disown_eq:
  assumes "ow_cont o'" "ow_service o' = Some i" "the_service i w = Some s"
  shows "Disown o' w =
    (if may_access (bs_calling w) s then (Inr (), put_service i (release_owner s) w) else (Inl not_owner, w))"
  using assms by (simp add: Disown_def with_service_def thn_def bnd_def deref_service_def owner_check_eq modify_def)

text \<open>
  After one client took an unowned object, every other client is refused until the owner releases
  it, and the owner can release it.
\<close>

lemma own_excludes:
  assumes ok: "bus_ok w" and o: "ow_cont o'" "ow_service o' = Some i" "the_service i w = Some s"
    and free: "may_access (bs_calling w) s" and c: "bs_calling w \<noteq> - 1"
  shows "\<exists>w1. Own o' w = (Inr (), w1) \<and> bus_ok w1 \<and>
    (\<forall>other. other \<noteq> bs_calling w \<longrightarrow>
       fst (ownerOnly o' (w1\<lparr>bs_calling := other\<rparr>)) = Inl not_owner \<and>
       fst (Own o' (w1\<lparr>bs_calling := other\<rparr>)) = Inl not_owner \<and>
       fst (Disown o' (w1\<lparr>bs_calling := other\<rparr>)) = Inl not_owner) \<and>
    fst (ownerOnly o' w1) = Inr () \<and>
    (\<exists>w2. Disown o' w1 = (Inr (), w2) \<and>
       (\<forall>other. fst (ownerOnly o' (w2\<lparr>bs_calling := other\<rparr>)) = Inr ()))"
proof -
  let ?s1 = "set_owner (bs_calling w) s"
  let ?w1 = "put_service i ?s1 w"
  have ok1: "bus_ok ?w1" using ok o(3) by (rule bus_ok_put_service) (simp_all add: set_owner_def)
  have calling: "bs_calling ?w1 = bs_calling w" by (simp add: put_service_def)
  have svc: "the_service i (?w1\<lparr>bs_calling := x\<rparr>) = Some ?s1" for x
    using ok by (simp add: the_service_def put_service_def bus_ok_def)
  have s1: "the_service i ?w1 = Some ?s1" using ok by (simp add: the_service_put)
  have deny: "\<not> may_access other ?s1" if "other \<noteq> bs_calling w" for other
    using that c by (simp add: may_access_def set_owner_def)
  have allow: "may_access (bs_calling w) ?s1" by (simp add: may_access_def set_owner_def)
  have own: "Own o' w = (Inr (), ?w1)" using Own_eq [OF o] free by simp
  let ?w2 = "put_service i (release_owner ?s1) ?w1"
  have dis: "Disown o' ?w1 = (Inr (), ?w2)" using Disown_eq [OF o(1,2) s1] allow calling by simp
  have svc2: "the_service i (?w2\<lparr>bs_calling := x\<rparr>) = Some (release_owner ?s1)" for x
    using ok1 by (simp add: the_service_def put_service_def bus_ok_def)
  have "may_access x (release_owner ?s1)" for x by (simp add: may_access_def release_owner_def)
  then have "fst (ownerOnly o' (?w2\<lparr>bs_calling := x\<rparr>)) = Inr ()" for x
    using ownerOnly_eq [OF o(1,2) svc2] by simp
  then show ?thesis
    using own ok1 dis deny allow calling ownerOnly_eq [OF o(1,2) svc] Own_eq [OF o(1,2) svc]
      Disown_eq [OF o(1,2) svc] ownerOnly_eq [OF o(1,2) s1]
    by auto
qed

end
