(* ===== verification/Bus_Properties.thy ===== *)
theory Bus_Properties
  imports Owned
begin

text \<open>
  What the saftbus daemon promises its clients: names and objects stay consistent over every
  request, removal respects the owners, the objects of a client that is gone are cleaned up, and
  where the code does not keep these promises.
\<close>

section \<open>An example\<close>

text \<open>
  A daemon with the container object and two further objects: \<open>/a\<close> belongs to client 5 and is to
  be destroyed with it, \<open>/a/b\<close> belongs to \<open>other\<close>. The callbacks do nothing.
\<close>

definition empty_bus :: "unit bus" where
  "empty_bus = \<lparr>bs_objects = [], bs_lookup = [], bs_removed = [], bs_next_id = 1, bs_plugins = [],
     bs_info = [], bs_calling = - 1, bs_clients = [\<lparr>cl_fd = 5, cl_pid = 100, cl_signals = [(7, 1)]\<rparr>]\<rparr>"

definition example_bus :: "int \<Rightarrow> unit bus" where
  "example_bus other =
     snd (create_object ''/a/b'' (set_owner other (new_service [] (Some ()) True))
    (snd (create_object ''/a'' (set_owner 5 (new_service [] (Some ()) True))
    (snd (create_object ''/saftbus'' (new_service [] None False) empty_bus)))))"

definition idle :: "(unit, 'z) callbacks" where
  "idle cb = ret ()"

definition idle_environment :: "(unit, unit bus) environment" where
  "idle_environment = \<lparr>en_run_cb = idle, en_load = (\<lambda>_. ret ()), en_create = (\<lambda>_ _. ret ()),
     en_info = (\<lambda>_. []), en_quit_loop = (\<lambda>w. w)\<rparr>"

lemma quiet_idle: "quiet idle"
  by (simp add: quiet_def idle_def ret_def)

lemma idle_environment_keeps: "env_keeps idle_environment"
  by (simp add: env_keeps_def idle_environment_def idle_def)

lemma empty_bus_ok: "bus_ok empty_bus"
  by (simp add: bus_ok_def empty_bus_def)

lemma example_bus_ok: "bus_ok (example_bus other)"
  unfolding example_bus_def by (intro keepsD [OF keeps_create_object] empty_bus_ok)

lemma example_services:
  "bs_lookup (example_bus other) = [(''/a'', 2), (''/a/b'', 3), (''/saftbus'', 1)]"
  "bs_objects (example_bus other) =
     [(1, Some \<lparr>sv_owner = - 1, sv_signals = [], sv_interfaces = [], sv_path = ''/saftbus'', sv_id = 1,
         sv_callback = None, sv_destroy_if_owner_quits = False\<rparr>),
      (2, Some \<lparr>sv_owner = 5, sv_signals = [], sv_interfaces = [], sv_path = ''/a'', sv_id = 2,
         sv_callback = Some (), sv_destroy_if_owner_quits = True\<rparr>),
      (3, Some \<lparr>sv_owner = other, sv_signals = [], sv_interfaces = [], sv_path = ''/a/b'', sv_id = 3,
         sv_callback = Some (), sv_destroy_if_owner_quits = True\<rparr>)]"
  by code_simp+


section \<open>Histories of the daemon\<close>

text \<open>
  What happens between two rounds of the event loop: a client connects, sends a request other
  than the one that ends the daemon, or is found to be gone.
\<close>

inductive daemon_step ::
  "('cb, ('cb, 'z) bus_scheme) environment \<Rightarrow> (u32 \<Rightarrow> int \<Rightarrow> request \<Rightarrow> (('cb, 'z) bus_scheme, reply) op)
   \<Rightarrow> ('cb, 'z) bus_scheme \<Rightarrow> ('cb, 'z) bus_scheme \<Rightarrow> bool"
  for env services where
  connects: "accept_client fd pid w = (r, w') \<Longrightarrow> daemon_step env services w w'"
| requests: "handle_client_request env services fuel fd readable (Some (i, rq)) w = Some (r, w') \<Longrightarrow>
    rq \<noteq> Quit \<Longrightarrow> daemon_step env services w w'"
| hangs_up: "handle_client_request env services fuel fd readable None w = Some (r, w') \<Longrightarrow>
    daemon_step env services w w'"

lemma keeps_release_or_remove:
  "keeps (bus_ok :: ('cb, 'z) bus_scheme \<Rightarrow> bool) (release_or_remove i)"
  unfolding release_or_remove_def
proof (rule keeps_deref)
  fix s and w :: "('cb, 'z) bus_scheme"
  assume ok: "bus_ok w" and s: "the_service i w = Some s"
  show "bus_ok (snd ((if has_destruction_callback s \<and> sv_destroy_if_owner_quits s
     then log_runtime_error (remove_object (sv_path s))
     else modify (put_service i (s\<lparr>sv_owner := - 1\<rparr>))) w))"
    using keepsD [OF keeps_log [OF keeps_remove_object] ok]
      keeps_put_service [OF ok s, of "s\<lparr>sv_owner := - 1\<rparr>"] by simp
qed

lemma keeps_run_destruction_callback:
  assumes "\<And>cb. keeps (bus_ok :: ('cb, 'z) bus_scheme \<Rightarrow> bool) (run_cb cb)"
  shows "keeps (bus_ok :: ('cb, 'z) bus_scheme \<Rightarrow> bool) (bnd (deref_service i) (run_destruction_callback run_cb))"
proof (rule keeps_deref)
  fix s and w :: "('cb, 'z) bus_scheme"
  assume "bus_ok w"
  then show "bus_ok (snd (run_destruction_callback run_cb s w))"
    using keepsD [OF assms] by (auto simp: run_destruction_callback_def ret_def split: option.split)
qed

lemma container_client_hung_up_keeps:
  fixes w :: "('cb, 'z) bus_scheme"
  assumes cb: "\<And>cb. keeps (bus_ok :: ('cb, 'z) bus_scheme \<Rightarrow> bool) (run_cb cb)"
  shows "bus_ok w \<Longrightarrow> container_client_hung_up fuel run_cb fd w = Some (r, w') \<Longrightarrow> bus_ok w'"
proof (induction fuel arbitrary: w)
  case (Suc fuel)
  have rnd: "bus_ok (snd (thn (bnd (deref_service i) (run_destruction_callback run_cb)) (release_or_remove i) w))" for i
    using keepsD [OF keeps_thn [OF keeps_run_destruction_callback [OF cb] keeps_release_or_remove] Suc.prems(1)] .
  show ?case
  proof (cases "find_owned fd (rev (bs_objects w))")
    case (Inr x)
    then show ?thesis
    proof (cases x)
      case (Some i)
      with Inr Suc.prems rnd [of i] show ?thesis
        by (auto split: prod.splits sum.splits intro: Suc.IH)
    qed (use Inr Suc.prems in auto)
  qed (use Suc.prems in auto)
qed simp

lemma server_client_hung_up_keeps:
  fixes w :: "('cb, 'z) bus_scheme"
  assumes cb: "\<And>cb. keeps (bus_ok :: ('cb, 'z) bus_scheme \<Rightarrow> bool) (run_cb cb)"
    and ok: "bus_ok w" and r: "server_client_hung_up fuel run_cb fd w = Some (r, w')"
  shows "bus_ok w'"
proof (cases "find_client fd (bs_clients w)")
  case None
  with r ok show ?thesis by (auto simp: server_client_hung_up_def)
next
  case (Some c)
  obtain w1 where w1: "for_each (\<lambda>(sigfd, _). container_remove_signal_fd sigfd) (cl_signals c) w = (Inr (), w1)"
    "bus_ok w1" using remove_signal_fds_ok [OF ok] by blast
  have "bus_ok (w1\<lparr>bs_clients := cs\<rparr>)" for cs
    using w1(2) by (simp add: bus_ok_cong [of "w1\<lparr>bs_clients := cs\<rparr>" w1])
  then have "bus_ok (w1\<lparr>bs_clients := filter (\<lambda>c. cl_fd c \<noteq> fd) (bs_clients w1)\<rparr>)" .
  moreover have "container_client_hung_up fuel run_cb fd
      (w1\<lparr>bs_clients := filter (\<lambda>c. cl_fd c \<noteq> fd) (bs_clients w1)\<rparr>) = Some (r, w')"
    using r Some w1(1) by (simp add: server_client_hung_up_def)
  ultimately show ?thesis using container_client_hung_up_keeps [where run_cb = run_cb] cb by blast
qed

lemma daemon_step_keeps:
  fixes w :: "('cb, 'z) bus_scheme"
  assumes st: "daemon_step env services w w'" and env: "env_keeps env"
    and sv: "\<And>i fd rq. keeps bus_ok (services i fd rq)" and ok: "bus_ok w \<and> bs_calling w = - 1"
  shows "bus_ok w' \<and> bs_calling w' = - 1"
  using st
proof cases
  case (connects fd pid r)
  then have "bs_objects w' = bs_objects w \<and> bs_lookup w' = bs_lookup w \<and> bs_calling w' = bs_calling w"
    by (auto simp: accept_client_def op_simps split: if_splits)
  with ok show ?thesis using bus_ok_cong by metis
next
  case (requests fuel fd readable i rq r)
  show ?thesis by (rule handle_client_request_keeps [OF env requests(2) sv _ requests(1)]) (use ok in simp)
next
  case (hangs_up fuel fd readable r)
  have cb: "\<And>cb. keeps bus_ok (en_run_cb env cb)" using env by (simp add: env_keeps_def)
  have ok': "bus_ok (w\<lparr>bs_calling := fd\<rparr>)" using ok by simp
  from hangs_up server_client_hung_up_keeps [OF cb ok'] ok show ?thesis
    by (auto simp: handle_client_request_def Let_def leave_request_def split: if_splits)
qed

text \<open>
  C3. However clients connect, send requests, raise errors and vanish: between two rounds of the
  event loop the table of object paths and the table of objects describe the same objects, and no
  client is left behind as the calling one, which the ownership checks rely on.
\<close>

theorem daemon_tables_consistent:
  assumes "(daemon_step env services)\<^sup>*\<^sup>* w w'" "env_keeps env"
    and "\<And>i fd rq. keeps bus_ok (services i fd rq)" "bus_ok w" "bs_calling w = - 1"
  shows "bus_ok w' \<and> bs_calling w' = - 1"
  using assms(1)
proof (induction rule: rtranclp_induct)
  case base
  show ?case using assms(4,5) by simp
next
  case (step w1 w2)
  show ?case by (rule daemon_step_keeps [OF step(2) assms(2,3) step(3)])
qed

theorem daemon_tables_consistent_witness:
  "\<exists>w'. handle_client_request idle_environment (\<lambda>_ _ _. ret NoReply) 9 5 True
      (Some (1, RemoveObject ''/a'')) (example_bus 5) = Some (Inr (True, ReturnBool True), w') \<and>
    the_service 2 w' = None \<and> bus_ok w' \<and> bs_calling w' = - 1"
proof -
  have "\<exists>r w'. handle_client_request idle_environment (\<lambda>_ _ _. ret NoReply) 9 5 True
      (Some (1, RemoveObject ''/a'')) (example_bus 5) = Some (r, w')"
    by (simp add: handle_client_request_def Let_def)
  then obtain r w' where h: "handle_client_request idle_environment (\<lambda>_ _ _. ret NoReply) 9 5 True
      (Some (1, RemoveObject ''/a'')) (example_bus 5) = Some (r, w')" by blast
  have "map_option (\<lambda>(r, w'). r = Inr (True, ReturnBool True) \<and> the_service 2 w' = None)
     (handle_client_request idle_environment (\<lambda>_ _ _. ret NoReply) 9 5 True
      (Some (1, RemoveObject ''/a'')) (example_bus 5)) = Some True"
    by code_simp
  with h have res: "r = Inr (True, ReturnBool True)" "the_service 2 w' = None" by simp_all
  have "(daemon_step idle_environment (\<lambda>_ _ _. ret NoReply))\<^sup>*\<^sup>* (example_bus 5) w'"
    using daemon_step.requests [OF h] by blast
  from daemon_tables_consistent [OF this idle_environment_keeps _ example_bus_ok]
  have "bus_ok w' \<and> bs_calling w' = - 1"
    by (simp add: example_bus_def create_object_def generate_saftbus_object_id_def empty_bus_def)
  with h res show ?thesis by blast
qed


section \<open>Objects\<close>

text \<open>
  C32. Creating an object under a path in use changes nothing and returns 0. Otherwise, unless
  every 32-bit id is taken, the object is found under its path and a fresh id that is not 0, and
  all other objects stay.
\<close>

theorem create_object_fresh:
  fixes w :: "('cb, 'z) bus_scheme"
  assumes ok: "bus_ok w" and room: "length (bs_objects w) + 2 \<le> 2 ^ 32"
  shows "if map_of (bs_lookup w) path \<noteq> None then create_object path s w = (Inr 0, w)
    else \<exists>i w'. create_object path s w = (Inr i, w') \<and> i \<noteq> 0 \<and> the_service i w = None \<and> bus_ok w' \<and>
      map_of (bs_lookup w') = (map_of (bs_lookup w))(path \<mapsto> i) \<and>
      (\<forall>j. the_service j w' = (if j = i then Some (s\<lparr>sv_id := i, sv_path := path\<rparr>) else the_service j w))"
proof (cases "map_of (bs_lookup w) path")
  case None
  obtain i where i: "next_free_id (length (bs_objects w) + 2) (bs_next_id w) (bs_objects w) = Some i"
    using next_free_id_enough [OF room] by blast
  with None obtain w' where c: "create_object path s w = (Inr i, w')"
    by (simp add: create_object_cases)
  from create_object_ok [OF ok c] next_free_id_Some [OF i] c None show ?thesis by auto
qed (simp add: create_object_def)

theorem create_object_fresh_witness:
  "\<exists>i w'. create_object ''/x'' (new_service [] None False) (example_bus 9) = (Inr i, w') \<and> i \<noteq> 0 \<and>
    map_of (bs_lookup w') ''/x'' = Some i \<and> bus_ok w'"
proof -
  have "length (bs_objects (example_bus 9)) + 2 \<le> 2 ^ 32" "map_of (bs_lookup (example_bus 9)) ''/x'' = None"
    by (simp_all add: example_services)
  with create_object_fresh [OF example_bus_ok, of 9 "''/x''" "new_service [] None False"]
  show ?thesis by auto
qed

text \<open>
  C25. An object is removed exactly when its path is known, it is not the container itself, and
  neither it nor an object below it belongs to a client other than the calling one. It is then
  gone under its path and its id, and every other object stays. Otherwise the caller gets an
  INVALID_ARGS error and nothing changes.
\<close>

theorem remove_object_exact:
  fixes w :: "('cb, 'z) bus_scheme"
  assumes ok: "bus_ok w"
  shows "if \<exists>i. removable path i w
    then \<exists>i w'. map_of (bs_lookup w) path = Some i \<and> remove_object path w = (Inr False, w') \<and> bus_ok w' \<and>
      map_of (bs_lookup w') = (map_of (bs_lookup w))(path := None) \<and>
      (\<forall>j. the_service j w' = (if j = i then None else the_service j w))
    else \<exists>msg. remove_object path w = (Inl (invalid_args msg), w)"
proof (cases "\<exists>i. removable path i w")
  case True
  then obtain i where i: "removable path i w" by blast
  then have lk: "map_of (bs_lookup w) path = Some i" by (simp add: removable_def)
  have "remove_object path w = (Inr False, erase_object path i w)"
    using i remove_object_Inr [of path w False "erase_object path i w"] by blast
  with True lk erase_object_ok [OF ok lk] the_service_erase [of _ path i w] show ?thesis
    by (auto simp: erase_object_def)
next
  case False
  with remove_object_refused [OF ok] show ?thesis by simp
qed

theorem remove_object_exact_witness:
  "\<exists>w'. remove_object ''/a/b'' (example_bus (- 1)) = (Inr False, w') \<and> bus_ok w' \<and> the_service 3 w' = None"
proof -
  have "removable ''/a/b'' 3 (example_bus (- 1))"
    by (simp add: removable_def example_services the_service_def foreign_owned_def child_path_def)
  then have ex: "\<exists>i. removable ''/a/b'' i (example_bus (- 1))" by blast
  from remove_object_exact [OF example_bus_ok, of "''/a/b''" "- 1", unfolded if_P [OF ex]]
  obtain i w' where "map_of (bs_lookup (example_bus (- 1))) ''/a/b'' = Some i"
    "remove_object ''/a/b'' (example_bus (- 1)) = (Inr False, w')" "bus_ok w'"
    "\<forall>j. the_service j w' = (if j = i then None else the_service j (example_bus (- 1)))" by blast
  moreover from this(1) have "i = 3" by (simp add: example_services)
  ultimately show ?thesis by auto
qed

section \<open>The end of a client\<close>

text \<open>
  C4. When a client is gone, the daemon finishes its clean-up, in at most one round more than the
  client owned objects: its signal pipes are forgotten everywhere, its objects that were to go with
  it are destroyed, its other objects are released, and nobody else's object is touched. This holds
  while no object to be destroyed has a child that belongs to a third client, and destruction
  callbacks leave the container alone.
\<close>

theorem client_gone_is_cleaned_up:
  fixes w :: "('cb, 'z) bus_scheme"
  assumes "bus_ok w" "quiet run_cb" "bs_calling w = fd" "fd \<noteq> - 1" "find_client fd (bs_clients w) = Some c"
    and "\<And>i s. the_service i w = Some s \<Longrightarrow> sv_owner s = fd \<Longrightarrow> destroyed_on_quit s \<Longrightarrow> \<not> obstructed fd s w"
    and "card (owned_by fd w) < fuel"
  shows "\<exists>w'. server_client_hung_up fuel run_cb fd w = Some (Inr (), w') \<and> bus_ok w' \<and>
    (\<forall>i. the_service i w' = Option.bind (the_service i w)
       (\<lambda>s. after_hang_up fd (strip_signals (fst ` set (cl_signals c)) s)))"
  by (rule server_client_hung_up_result [OF assms])

lemma example_obstructed:
  assumes "the_service i (example_bus 5\<lparr>bs_calling := 5\<rparr>) = Some s" "sv_owner s = 5"
  shows "\<not> obstructed 5 s (example_bus 5\<lparr>bs_calling := 5\<rparr>)"
proof -
  have "i = 2 \<or> i = 3" using assms by (auto simp: the_service_def example_services split: if_splits)
  then show ?thesis using assms
    by (auto simp: the_service_def example_services obstructed_def foreign_owned_def child_path_def split: if_splits)
qed

theorem client_gone_is_cleaned_up_witness:
  "\<exists>w'. server_client_hung_up 4 idle 5 (example_bus 5\<lparr>bs_calling := 5\<rparr>) = Some (Inr (), w') \<and> bus_ok w' \<and>
    the_service 2 w' = None \<and> the_service 1 w' \<noteq> None"
proof -
  let ?w = "example_bus 5\<lparr>bs_calling := 5\<rparr>"
  have c: "find_client 5 (bs_clients ?w) = Some \<lparr>cl_fd = 5, cl_pid = 100, cl_signals = [(7, 1)]\<rparr>"
    by code_simp
  have "card (owned_by 5 ?w) \<le> length (bs_objects ?w)" by (rule owned_by_le)
  then have few: "card (owned_by 5 ?w) < 4" by (simp add: example_services)
  have ok: "bus_ok ?w" using example_bus_ok by simp
  have free: "\<not> obstructed 5 s ?w" if "the_service i ?w = Some s" "sv_owner s = 5" for i s
    using that by (rule example_obstructed)
  have "\<exists>w'. server_client_hung_up 4 idle 5 ?w = Some (Inr (), w') \<and> bus_ok w' \<and>
    (\<forall>i. the_service i w' = Option.bind (the_service i ?w)
      (\<lambda>s. after_hang_up 5 (strip_signals (fst ` set (cl_signals \<lparr>cl_fd = 5, cl_pid = 100, cl_signals = [(7, 1)]\<rparr>)) s)))"
    by (rule client_gone_is_cleaned_up [OF ok quiet_idle _ _ c _ few]) (use free in simp_all)
  then obtain w' where "server_client_hung_up 4 idle 5 ?w = Some (Inr (), w')" "bus_ok w'"
    "\<forall>i. the_service i w' = Option.bind (the_service i ?w) (\<lambda>s. after_hang_up 5 (strip_signals {7} s))"
    by auto
  moreover have "Option.bind (the_service 2 ?w) (\<lambda>s. after_hang_up 5 (strip_signals {7} s)) = None"
    "Option.bind (the_service 1 ?w) (\<lambda>s. after_hang_up 5 (strip_signals {7} s)) \<noteq> None"
    by (simp_all add: the_service_def example_services after_hang_up_def strip_signals_def
        destroyed_on_quit_def has_destruction_callback_def)
  ultimately show ?thesis by auto
qed

text \<open>
  The clean-up never ends when the youngest object of the vanished client is to be destroyed
  with it and has a child owned by a third client: the removal is refused, the refusal is only
  logged, and the loop starts over with the same object. The daemon hangs.
\<close>

theorem client_gone_livelock:
  fixes w :: "('cb, 'z) bus_scheme"
  assumes "bus_ok w" "quiet run_cb" "bs_calling w = fd" "find_owned fd (rev (bs_objects w)) = Inr (Some i)"
    and "the_service i w = Some s" "destroyed_on_quit s" "obstructed fd s w"
  shows "\<forall>fuel. container_client_hung_up fuel run_cb fd w = None"
  using container_client_hung_up_stuck [OF assms] by blast

theorem client_gone_livelock_witness:
  "\<forall>fuel. container_client_hung_up fuel idle 5 (example_bus 9\<lparr>bs_calling := 5\<rparr>) = None"
proof (rule client_gone_livelock [of _ _ _ 2])
  let ?s = "\<lparr>sv_owner = 5, sv_signals = [], sv_interfaces = [], sv_path = ''/a'', sv_id = 2,
     sv_callback = Some (), sv_destroy_if_owner_quits = True\<rparr>"
  show "bus_ok (example_bus 9\<lparr>bs_calling := 5\<rparr>)" using example_bus_ok by simp
  show "find_owned 5 (rev (bs_objects (example_bus 9\<lparr>bs_calling := 5\<rparr>))) = Inr (Some 2)"
    by (simp add: example_services)
  show s: "the_service 2 (example_bus 9\<lparr>bs_calling := 5\<rparr>) = Some ?s"
    by (simp add: the_service_def example_services)
  show "destroyed_on_quit ?s" by (simp add: destroyed_on_quit_def has_destruction_callback_def)
  have "the_service 3 (example_bus 9\<lparr>bs_calling := 5\<rparr>) =
     Some \<lparr>sv_owner = 9, sv_signals = [], sv_interfaces = [], sv_path = ''/a/b'', sv_id = 3,
         sv_callback = Some (), sv_destroy_if_owner_quits = True\<rparr>"
    by (simp add: the_service_def example_services)
  then show "obstructed 5 ?s (example_bus 9\<lparr>bs_calling := 5\<rparr>)"
    unfolding obstructed_def by (intro disjI2 exI conjI) (auto simp: child_path_def foreign_owned_def)
qed (simp_all add: quiet_idle)


section \<open>Ownership\<close>

text \<open>
  C24. After a client took a free object with \<open>Own\<close>, every other caller is refused by
  \<open>ownerOnly\<close>, \<open>Own\<close> and \<open>Disown\<close>, the owner itself passes, and after its \<open>Disown\<close> everybody
  passes again.
\<close>

theorem ownership_excludes_others:
  assumes "bus_ok w" "ow_cont o'" "ow_service o' = Some i" "the_service i w = Some s"
    and "may_access (bs_calling w) s" "bs_calling w \<noteq> - 1"
  shows "\<exists>w1. Own o' w = (Inr (), w1) \<and> bus_ok w1 \<and>
    (\<forall>other. other \<noteq> bs_calling w \<longrightarrow>
       fst (ownerOnly o' (w1\<lparr>bs_calling := other\<rparr>)) = Inl not_owner \<and>
       fst (Own o' (w1\<lparr>bs_calling := other\<rparr>)) = Inl not_owner \<and>
       fst (Disown o' (w1\<lparr>bs_calling := other\<rparr>)) = Inl not_owner) \<and>
    fst (ownerOnly o' w1) = Inr () \<and>
    (\<exists>w2. Disown o' w1 = (Inr (), w2) \<and>
       (\<forall>other. fst (ownerOnly o' (w2\<lparr>bs_calling := other\<rparr>)) = Inr ()))"
  by (rule own_excludes [OF assms])

theorem ownership_excludes_others_witness:
  "\<exists>w1. Own \<lparr>ow_cont = True, ow_service = Some 3\<rparr> (example_bus (- 1)\<lparr>bs_calling := 8\<rparr>) = (Inr (), w1) \<and>
    fst (Own \<lparr>ow_cont = True, ow_service = Some 3\<rparr> (w1\<lparr>bs_calling := 9\<rparr>)) = Inl not_owner"
proof -
  let ?s = "\<lparr>sv_owner = - 1, sv_signals = [], sv_interfaces = [], sv_path = ''/a/b'', sv_id = 3,
     sv_callback = Some (), sv_destroy_if_owner_quits = True\<rparr>"
  have "the_service 3 (example_bus (- 1)\<lparr>bs_calling := 8\<rparr>) = Some ?s"
    by (simp add: the_service_def example_services)
  with ownership_excludes_others [of "example_bus (- 1)\<lparr>bs_calling := 8\<rparr>" "\<lparr>ow_cont = True, ow_service = Some 3\<rparr>" 3 ?s]
  show ?thesis using example_bus_ok by (auto simp: may_access_def)
qed

section \<open>Proxies and signals\<close>

lemma omap_erase_put: "map_of xs k = None \<Longrightarrow> omap_erase k (omap_put k v xs) = xs"
  by (induction k v xs rule: omap_put.induct)
    (auto simp: omap_erase_def map_of_eq_None_iff intro!: filter_True split: if_splits)

lemma omap_put_put: "omap_put k v (omap_put k u xs) = omap_put k v xs"
  by (induction k u xs rule: omap_put.induct) auto

lemma omap_put_same: "omap_ok xs \<Longrightarrow> map_of xs k = Some v \<Longrightarrow> omap_put k v xs = xs"
proof (induction xs)
  case (Cons p xs)
  obtain a b where p: "p = (a, b)" by (cases p)
  show ?case
  proof (cases "k = a")
    case False
    with Cons.prems p have m: "map_of xs k = Some v" by simp
    then have "a < k" using Cons.prems(1) p map_of_SomeD [of xs k v] by fastforce
    then have "\<not> k < a" by (rule less_not_sym)
    with Cons p m False show ?thesis by simp
  qed (use Cons.prems p in simp)
qed simp

lemma update_client_found:
  assumes "find_client fd cs = Some c" "f c = Inr c'" "cl_fd c' = fd"
  shows "\<exists>cs'. update_client fd f cs = Inr cs' \<and> find_client fd cs' = Some c' \<and>
    (\<forall>g. g \<noteq> fd \<longrightarrow> find_client g cs' = find_client g cs)"
  using assms by (induction cs) auto

lemma update_client_missing:
  "find_client fd cs = None \<Longrightarrow> update_client fd f cs = Inl (AssertFailed ''client not found'')"
  by (induction cs) auto

lemma find_client_fd: "find_client fd cs = Some c \<Longrightarrow> cl_fd c = fd"
  by (induction cs) (auto split: if_splits)

lemma add_use_back:
  assumes ok: "omap_ok (sv_signals s)" and e: "map_of (sv_signals s) fd = None \<or> fst (signal_entry fd s) \<noteq> 0"
  shows "(if fst (signal_entry fd (add_use fd (- 1) (add_use fd 1 s))) = 0
      then (add_use fd (- 1) (add_use fd 1 s))\<lparr>sv_signals := omap_erase fd (sv_signals (add_use fd (- 1) (add_use fd 1 s)))\<rparr>
      else add_use fd (- 1) (add_use fd 1 s)) = s"
proof (cases "map_of (sv_signals s) fd")
  case None
  then show ?thesis using ok
    by (simp add: add_use_def signal_entry_def omap_put_put omap_erase_put)
next
  case (Some x)
  then obtain c d where x: "map_of (sv_signals s) fd = Some (c, d)" by (cases x) auto
  with e have c: "c \<noteq> 0" by (simp add: signal_entry_def)
  have two: "add_use fd (- 1) (add_use fd 1 s) = s"
    using ok x by (simp add: add_use_def signal_entry_def omap_put_put omap_put_same)
  show ?thesis using x c by (simp add: two signal_entry_def)
qed

lemma put_service_back:
  assumes ok: "bus_ok w" and s: "the_service i w = Some s"
  shows "put_service i s w = w"
proof -
  have "map_of (bs_objects w) i = Some (Some s)" using s by (simp add: the_service_iff)
  then show ?thesis using omap_put_same [OF bus_okD(1) [OF ok]] by (simp add: put_service_def)
qed

lemma put_service_put_service [simp]:
  "put_service i s (put_service i t w) = put_service i s w"
  by (simp add: put_service_def omap_put_put)

lemma put_service_clients [simp]:
  "put_service i s (w\<lparr>bs_clients := cs\<rparr>) = (put_service i s w)\<lparr>bs_clients := cs\<rparr>"
  "bs_clients (put_service i s w) = bs_clients w"
  by (simp_all add: put_service_def)

lemma unregister_proxy_eq:
  assumes ok: "bus_ok w" and s: "the_service i w = Some s"
    and u: "update_client cfd (release_signal_fd fd) (bs_clients w) = Inr cs"
  shows "unregister_proxy i cfd fd w = (Inr (),
    (put_service i (if fst (signal_entry fd (add_use fd (- 1) s)) = 0
       then (add_use fd (- 1) s)\<lparr>sv_signals := omap_erase fd (sv_signals (add_use fd (- 1) s))\<rparr>
       else add_use fd (- 1) s) w)\<lparr>bs_clients := cs\<rparr>)"
proof -
  have m: "map_of (bs_objects w) i = Some (Some s)" using s by (simp add: the_service_iff)
  show ?thesis
    by (simp add: unregister_proxy_def unregister_signal_id_for_client_def on_client_def op_simps m
        deref_service_def s Let_def u)
qed

lemma register_proxy_eq:
  assumes r: "register_proxy path names cfd fd w = (Inr (n, m), w')" and n: "n > 0" and ok: "bus_ok w"
  obtains i s cs where "map_of (bs_lookup w) path = Some i" "the_service i w = Some s" "n = int (unat i)"
    "update_client cfd (\<lambda>c. Inr (use_signal_fd fd c)) (bs_clients w) = Inr cs"
    "w' = (put_service i (add_use fd 1 s) w)\<lparr>bs_clients := cs\<rparr>"
proof -
  obtain i where i: "map_of (bs_lookup w) path = Some i"
    using r n by (cases "map_of (bs_lookup w) path") (auto simp: register_proxy_def op_simps)
  then obtain s where s: "the_service i w = Some s" using bus_ok_lookup [OF ok] by blast
  then have m: "map_of (bs_objects w) i = Some (Some s)" by (simp add: the_service_iff)
  obtain b mm where b: "interface_name2no_map names s [] = (b, mm)" by (cases "interface_name2no_map names s []")
  have True: "b"
  proof (rule ccontr)
    assume "\<not> b"
    then have "n = - 1" using r i b m s by (simp add: register_proxy_def op_simps deref_service_def)
    with n show False by simp
  qed
  have "(case update_client cfd (\<lambda>c. Inr (use_signal_fd fd c)) (bs_clients w) of
      Inl e \<Rightarrow> (Inl e, put_service i (add_use fd 1 s) w)
    | Inr cs \<Rightarrow> (Inr (int (unat i), mm), (put_service i (add_use fd 1 s) w)\<lparr>bs_clients := cs\<rparr>)) = (Inr (n, m), w')"
    using r i b True m s
    by (simp add: register_proxy_def op_simps deref_service_def register_signal_id_for_client_def on_client_def
        split: sum.splits)
  then show thesis using that [OF i s] by (auto split: sum.splits)
qed

text \<open>
  C36. Registering a proxy and unregistering it again restores the service object, its use counts
  and dropped-signal counts included, and the use counts of the client.
\<close>

theorem proxy_round_trip:
  fixes w :: "('cb, 'z) bus_scheme"
  assumes ok: "bus_ok w" and lk: "map_of (bs_lookup w) path = Some i" and s: "the_service i w = Some s"
    and sigs: "omap_ok (sv_signals s)" "map_of (sv_signals s) fd = None \<or> fst (signal_entry fd s) \<noteq> 0"
    and c: "find_client cfd (bs_clients w) = Some c" "omap_ok (cl_signals c)" "use_count_of c fd \<ge> 0"
    and r: "register_proxy path names cfd fd w = (Inr (n, m), w1)" "n > 0"
  shows "\<exists>w2 c2. unregister_proxy i cfd fd w1 = (Inr (), w2) \<and>
    bs_objects w2 = bs_objects w \<and> bs_lookup w2 = bs_lookup w \<and>
    find_client cfd (bs_clients w2) = Some c2 \<and> use_count_of c2 = use_count_of c"
proof -
  obtain cs where w1: "w1 = (put_service i (add_use fd 1 s) w)\<lparr>bs_clients := cs\<rparr>"
    and cs: "update_client cfd (\<lambda>c. Inr (use_signal_fd fd c)) (bs_clients w) = Inr cs"
    by (rule register_proxy_eq [OF r ok]) (use lk s in auto)
  have fdc: "cl_fd c = cfd" using find_client_fd [OF c(1)] .
  obtain c1 where c1: "c1 = use_signal_fd fd c" "find_client cfd cs = Some c1"
    using update_client_found [OF c(1), of "\<lambda>c. Inr (use_signal_fd fd c)"] cs fdc
    by (auto simp: use_signal_fd_def)
  define c2 where "c2 = c1\<lparr>cl_signals := omap_put fd (use_count_of c fd) (cl_signals c1)\<rparr>"
  have n1: "use_count_of c1 fd = use_count_of c fd + 1"
    using c(2) by (simp add: c1(1) use_signal_fd_def use_count_of_def)
  then have rel: "release_signal_fd fd c1 = Inr c2"
    using c(3) by (simp add: release_signal_fd_def c2_def Let_def)
  have "cl_fd c2 = cfd" using fdc by (simp add: c2_def c1(1) use_signal_fd_def)
  then obtain cs2 where cs2: "update_client cfd (release_signal_fd fd) cs = Inr cs2" "find_client cfd cs2 = Some c2"
    using update_client_found [OF c1(2), where f = "release_signal_fd fd", OF rel] by blast
  have counts: "use_count_of c2 = use_count_of c"
    using c(2) by (auto simp: fun_eq_iff c2_def c1(1) use_signal_fd_def use_count_of_def omap_put_put)
  have ok1: "bus_ok w1"
    using bus_ok_put_service [OF ok s, of "add_use fd 1 s"] by (simp add: w1 bus_ok_cong [of "_\<lparr>bs_clients := cs\<rparr>"])
  have s1: "the_service i w1 = Some (add_use fd 1 s)"
    using put_service_twice [OF ok, of i "add_use fd 1 s"] by (simp add: w1 the_service_def)
  have "unregister_proxy i cfd fd w1 = (Inr (), (put_service i s w1)\<lparr>bs_clients := cs2\<rparr>)"
    using unregister_proxy_eq [OF ok1 s1, of cfd fd cs2] cs2(1) add_use_back [OF sigs]
    by (simp add: w1)
  moreover have "put_service i s w1 = w\<lparr>bs_clients := cs\<rparr>"
    using put_service_back [OF ok s] by (simp add: w1)
  ultimately show ?thesis using cs2(2) counts by auto
qed

theorem proxy_round_trip_witness:
  "\<exists>w1 w2. register_proxy ''/a'' [] 5 7 (example_bus 5) = (Inr (2, []), w1) \<and>
    unregister_proxy 2 5 7 w1 = (Inr (), w2) \<and> bs_objects w2 = bs_objects (example_bus 5)"
proof -
  let ?s = "\<lparr>sv_owner = 5, sv_signals = [], sv_interfaces = [], sv_path = ''/a'', sv_id = 2,
     sv_callback = Some (), sv_destroy_if_owner_quits = True\<rparr>"
  have s: "the_service 2 (example_bus 5) = Some ?s" by (simp add: the_service_def example_services)
  have c: "find_client 5 (bs_clients (example_bus 5)) = Some \<lparr>cl_fd = 5, cl_pid = 100, cl_signals = [(7, 1)]\<rparr>"
    by code_simp
  have "fst (register_proxy ''/a'' [] 5 7 (example_bus 5)) = Inr (2, [])" by code_simp
  then obtain w1 where r: "register_proxy ''/a'' [] 5 7 (example_bus 5) = (Inr (2, []), w1)"
    by (metis prod.collapse)
  from proxy_round_trip [OF example_bus_ok _ s _ _ c _ _ r]
  show ?thesis using r by (auto simp: example_services use_count_of_def)
qed

text \<open>
  The descriptors in an \<open>UnregisterProxy\<close> request are the ones the client sends: for an
  existing object and a descriptor that is not a connected client, an assertion fails outside of
  every handler, so one malformed request ends the daemon.
\<close>

theorem unregister_unknown_client_aborts:
  fixes w :: "('cb, 'z) bus_scheme"
  assumes ok: "bus_ok w" and svc: "the_service i w = Some s" "the_service 1 w = Some t"
    and no: "find_client other (bs_clients w) = None"
  shows "\<exists>w'. handle_client_request env services fuel fd True (Some (1, UnregisterProxy i other sfd)) w =
    Some (Inl (AssertFailed ''client not found''), w')"
proof -
  let ?w = "w\<lparr>bs_calling := fd\<rparr>"
  have m: "map_of (bs_objects ?w) i = Some (Some s)" "map_of (bs_objects ?w) 1 = Some (Some t)"
    using svc by (simp_all add: the_service_iff)
  have u: "update_client other f (bs_clients w) = Inl (AssertFailed ''client not found'')" for f
    using update_client_missing [OF no] .
  have "\<exists>w'. unregister_proxy i other sfd ?w = (Inl (AssertFailed ''client not found''), w')"
    using m by (simp add: unregister_proxy_def unregister_signal_id_for_client_def on_client_def op_simps
        deref_service_def the_service_def Let_def u put_service_def)
  then show ?thesis using m
    by (auto simp: handle_client_request_def Let_def call_service_def op_simps deref_service_def the_service_def
        container_service_call_def leave_request_def)
qed

theorem unregister_unknown_client_aborts_witness:
  "\<exists>w'. handle_client_request idle_environment (\<lambda>_ _ _. ret NoReply) 9 5 True
      (Some (1, UnregisterProxy 2 77 7)) (example_bus 5) =
    Some (Inl (AssertFailed ''client not found''), w')"
proof -
  have "\<exists>s. the_service 2 (example_bus 5) = Some s" "\<exists>t. the_service 1 (example_bus 5) = Some t"
    by (simp_all add: the_service_def example_services)
  moreover have "find_client 77 (bs_clients (example_bus 5)) = None" by code_simp
  ultimately show ?thesis using unregister_unknown_client_aborts [OF example_bus_ok] by blast
qed

text \<open>
  A signal is written, in the order of the descriptors, to exactly the pipes in use that are
  ready; for every other pipe in use one more dropped signal is counted, and nothing else changes.
\<close>

theorem emit_writes_or_counts:
  "emit_signal ready s =
     (s\<lparr>sv_signals := map (\<lambda>(fd, c, d). (fd, c, if c > 0 \<and> \<not> ready fd then d + 1 else d)) (sv_signals s)\<rparr>,
      map fst (filter (\<lambda>(fd, c, d). c > 0 \<and> ready fd) (sv_signals s)))"
  by (simp add: emit_signal_def emit_to_written [symmetric] emit_to_signals [symmetric] split: prod.split)

end
