(* ===== verification/Condition.thy ===== *)
theory Condition
  imports Prelude
begin

text \<open>
  The data of a \<open>saftlib::Condition\<close> (src/Condition.cpp, src/Condition.hpp) and its constructor
  with the sanity checks on its arguments. The setters, which recompile the tables of the event
  condition action unit, are in the theory of that unit.
\<close>

section \<open>The condition object\<close>

text \<open>
  The back pointer \<open>sink\<close> is the place of the condition inside its action sink. The base class
  \<open>Owned\<close> contributes the pointer to the service object, an object id of the container.
  Signed 64-bit offsets are kept as 64-bit words and read with \<open>sint\<close>.
\<close>

record condition =
  c_objectPath :: string
  c_number :: u32
  c_id :: u64
  c_mask :: u64
  c_offset :: u64
  c_tag :: u32
  c_acceptLate :: bool
  c_acceptEarly :: bool
  c_acceptConflict :: bool
  c_acceptDelayed :: bool
  c_active :: bool
  c_service :: "u32 option"

text \<open>
  \<open>Condition::Condition\<close>: the offset must lie within the limits of the sink, the mask must be
  a prefix and the id must have no bit outside the mask.
\<close>

definition new_condition ::
  "string \<Rightarrow> u64 \<Rightarrow> u64 \<Rightarrow> u32 \<Rightarrow> bool \<Rightarrow> u64 \<Rightarrow> u64 \<Rightarrow> u64 \<Rightarrow> u32 \<Rightarrow> exn + condition" where
  "new_condition sink_path minOffset maxOffset number active i m offset tag =
     (if sint offset < sint minOffset \<or> sint maxOffset < sint offset
      then Inl (invalid_args ''offset is out of range; adjust {min,max}Offset?'')
      else if NOT m AND (NOT m + 1) \<noteq> 0
      then Inl (invalid_args ''mask is not a prefix'')
      else if i AND m \<noteq> i
      then Inl (invalid_args ''id has bits set that are not in the mask'')
      else Inr \<lparr>c_objectPath = sink_path @ ''/_'' @ show_nat (unat number),
                c_number = number, c_id = i, c_mask = m, c_offset = offset, c_tag = tag,
                c_acceptLate = False, c_acceptEarly = False, c_acceptConflict = False,
                c_acceptDelayed = True, c_active = active, c_service = None\<rparr>)"

section \<open>Which events a condition selects\<close>

text \<open>
  What the class documents: an event matches when its identifier agrees with \<open>id\<close> on the bits
  of \<open>mask\<close>.
\<close>

definition matches :: "condition \<Rightarrow> u64 \<Rightarrow> bool" where
  "matches c e \<longleftrightarrow> e AND c_mask c = c_id c"

definition valid_condition :: "condition \<Rightarrow> bool" where
  "valid_condition c \<longleftrightarrow> prefix_mask (c_mask c) \<and> c_id c AND c_mask c = c_id c"

lemma new_condition_valid:
  "new_condition p mn mx n a i m off t = Inr c \<Longrightarrow> valid_condition c"
  by (auto simp: new_condition_def valid_condition_def prefix_mask_def split: if_splits)

lemma valid_matches_iff:
  "valid_condition c \<Longrightarrow>
   matches c e \<longleftrightarrow> c_id c AND c_mask c \<le> e \<and> e \<le> c_id c OR NOT (c_mask c)"
  using prefix_interval [of "c_mask c" "c_id c" e]
  by (simp add: valid_condition_def matches_def)

end
