(* ===== verification/ECA_Tables.thy ===== *)
theory ECA_Tables
  imports Condition
begin

text \<open>
  The table compiler at the core of \<open>ECA::compile\<close> (src/ECA.cpp): the open/close records of
  the active conditions are sorted and swept into the search table and the walker table the
  hardware reads. The registers of src/eca_regs.h document how the hardware reads them: an event
  takes the record of the search table with the greatest event that is not above it, and follows
  the walker entries from there until \<open>0xffff\<close>.
\<close>

section \<open>Records\<close>

record oc_record =
  oc_key :: u64
  oc_open :: bool
  oc_subkey :: u64
  oc_offset :: u64
  oc_tag :: u32
  oc_flags :: u8
  oc_channel :: u32
  oc_num :: u32

text \<open>\<open>operator <\<close> on \<open>ECA_OpenClose\<close>.\<close>

definition oc_less :: "oc_record \<Rightarrow> oc_record \<Rightarrow> bool" where
  "oc_less a b =
     (if oc_key a < oc_key b then True
      else if oc_key a > oc_key b then False
      else if \<not> oc_open a \<and> oc_open b then True
      else if oc_open a \<and> \<not> oc_open b then False
      else if oc_subkey a > oc_subkey b then True
      else if oc_subkey a < oc_subkey b then False
      else False)"

record search_entry =
  se_event :: u64
  se_index :: u16

record walk_entry =
  we_next :: u16
  we_offset :: u64
  we_tag :: u32
  we_flags :: u8
  we_channel :: u32
  we_num :: u32

definition mk_walk :: "u16 \<Rightarrow> oc_record \<Rightarrow> walk_entry" where
  "mk_walk n oc = \<lparr>we_next = n, we_offset = oc_offset oc, we_tag = oc_tag oc,
     we_flags = oc_flags oc, we_channel = oc_channel oc, we_num = oc_num oc\<rparr>"

section \<open>From conditions to records\<close>

text \<open>Bit numbers of src/eca_flags.h.\<close>

definition cond_flags :: "condition \<Rightarrow> u8" where
  "cond_flags c = (if c_acceptLate c then push_bit 0 1 else 0)
               OR (if c_acceptEarly c then push_bit 1 1 else 0)
               OR (if c_acceptConflict c then push_bit 2 1 else 0)
               OR (if c_acceptDelayed c then push_bit 3 1 else 0)"

definition open_record :: "u32 \<Rightarrow> u32 \<Rightarrow> condition \<Rightarrow> oc_record" where
  "open_record channel num c =
     \<lparr>oc_key = c_id c AND c_mask c, oc_open = True, oc_subkey = c_id c OR NOT (c_mask c),
      oc_offset = c_offset c, oc_tag = c_tag c, oc_flags = cond_flags c,
      oc_channel = channel, oc_num = num\<rparr>"

text \<open>
  The close record is the open record with key and subkey swapped and the key incremented; an
  interval that ends at the greatest event has none.
\<close>

definition oc_records :: "oc_record \<Rightarrow> oc_record list" where
  "oc_records oc =
     oc # (if oc_subkey oc \<noteq> - 1
           then [oc\<lparr>oc_open := False, oc_key := oc_subkey oc + 1, oc_subkey := oc_key oc\<rparr>]
           else [])"

text \<open>\<open>std::sort\<close> with \<open>oc_less\<close>, by insertion.\<close>

fun oc_insert :: "oc_record \<Rightarrow> oc_record list \<Rightarrow> oc_record list" where
  "oc_insert x [] = [x]"
| "oc_insert x (y # ys) = (if oc_less y x then y # oc_insert x ys else x # y # ys)"

fun oc_sort :: "oc_record list \<Rightarrow> oc_record list" where
  "oc_sort [] = []"
| "oc_sort (x # xs) = oc_insert x (oc_sort xs)"

section \<open>The sweep\<close>

text \<open>
  \<open>next\<close> is an \<open>int16_t\<close>; -1 marks the empty stack. Indexing the walker vector with a negative
  or too large value would be undefined behaviour, so it is a result of its own.
\<close>

definition walk_ok :: "walk_entry list \<Rightarrow> u16 \<Rightarrow> bool" where
  "walk_ok walk n \<longleftrightarrow> 0 \<le> sint n \<and> nat (sint n) < length walk"

definition walk_at :: "walk_entry list \<Rightarrow> u16 \<Rightarrow> walk_entry" where
  "walk_at walk n = walk ! nat (sint n)"

fun pop_closes ::
  "u64 \<Rightarrow> oc_record list \<Rightarrow> u16 \<Rightarrow> walk_entry list \<Rightarrow> exn + (oc_record list \<times> u16)" where
  "pop_closes cursor [] n walk = Inr ([], n)"
| "pop_closes cursor (r # rs) n walk =
     (if cursor = oc_key r \<and> \<not> oc_open r
      then if n = - 1
           then Inl (invalid_args ''TimingReceiver: Impossible mismatched open/close'')
           else if walk_ok walk n
           then pop_closes cursor rs (we_next (walk_at walk n)) walk
           else Inl (Undefined ''walk[next]'')
      else Inr (r # rs, n))"

fun push_opens ::
  "u64 \<Rightarrow> oc_record list \<Rightarrow> u16 \<Rightarrow> walk_entry list \<Rightarrow> oc_record list \<times> u16 \<times> walk_entry list" where
  "push_opens cursor [] n walk = ([], n, walk)"
| "push_opens cursor (r # rs) n walk =
     (if cursor = oc_key r \<and> oc_open r
      then push_opens cursor rs (of_nat (length walk)) (walk @ [mk_walk n r])
      else (r # rs, n, walk))"

lemma pop_closes_length:
  "pop_closes cursor rs n walk = Inr (rs', n') \<Longrightarrow>
   length rs' \<le> length rs \<and>
   (rs \<noteq> [] \<and> \<not> oc_open (hd rs) \<and> cursor = oc_key (hd rs) \<longrightarrow> length rs' < length rs) \<and>
   (rs \<noteq> [] \<and> oc_open (hd rs) \<longrightarrow> rs' = rs)"
  by (induction cursor rs n walk rule: pop_closes.induct) (auto split: if_splits)

lemma push_opens_length:
  "push_opens cursor rs n walk = (rs', n', walk') \<Longrightarrow>
   length rs' \<le> length rs \<and>
   (rs \<noteq> [] \<and> oc_open (hd rs) \<and> cursor = oc_key (hd rs) \<longrightarrow> length rs' < length rs)"
  by (induction cursor rs n walk rule: push_opens.induct) (force split: if_splits)+

lemma sweep_step_length:
  assumes pop: "pop_closes (oc_key r) (r # rs) n walk = Inr (rs1, n1)"
    and push: "push_opens (oc_key r) rs1 n1 walk = (rs2, n2, walk2)"
  shows "length rs2 < Suc (length rs)"
  using pop_closes_length [OF pop] push_opens_length [OF push] by (cases "oc_open r") auto

function build_loop ::
  "oc_record list \<Rightarrow> u16 \<Rightarrow> walk_entry list \<Rightarrow> search_entry list
   \<Rightarrow> exn + (search_entry list \<times> walk_entry list)" where
  "build_loop [] n walk search = Inr (search, walk)"
| "build_loop (r # rs) n walk search =
     (case pop_closes (oc_key r) (r # rs) n walk of
        Inl e \<Rightarrow> Inl e
      | Inr (rs1, n1) \<Rightarrow>
          (case push_opens (oc_key r) rs1 n1 walk of
             (rs2, n2, walk2) \<Rightarrow>
               build_loop rs2 n2 walk2 (search @ [\<lparr>se_event = oc_key r, se_index = n2\<rparr>])))"
  by pat_completeness auto

termination
  by (relation "measure (\<lambda>(rs, n, walk, search). length rs)") (auto simp del: pop_closes.simps dest: sweep_step_length [OF _ sym])

text \<open>A leading record for event zero is always present.\<close>

definition build_tables :: "oc_record list \<Rightarrow> exn + (search_entry list \<times> walk_entry list)" where
  "build_tables ids =
     build_loop ids (- 1) []
       (if ids = [] \<or> oc_key (hd ids) \<noteq> 0 then [\<lparr>se_event = 0, se_index = - 1\<rparr>] else [])"

definition compile_tables ::
  "nat \<Rightarrow> oc_record list \<Rightarrow> exn + (search_entry list \<times> walk_entry list)" where
  "compile_tables max_conditions ids =
     (if length ids div 2 \<ge> max_conditions
      then Inl (invalid_args ''Too many active conditions for hardware'')
      else build_tables (oc_sort ids))"

section \<open>How the hardware reads the tables\<close>

text \<open>
  The specification side, from the comments of src/eca_regs.h. The walker chain is followed with
  fuel; \<open>None\<close> means that it did not reach the end of the list.
\<close>

definition search_index :: "search_entry list \<Rightarrow> u64 \<Rightarrow> u16" where
  "search_index search e =
     (let hits = filter (\<lambda>s. se_event s \<le> e) search
      in if hits = [] then - 1 else se_index (last hits))"

fun walk_chain :: "nat \<Rightarrow> walk_entry list \<Rightarrow> u16 \<Rightarrow> walk_entry list option" where
  "walk_chain 0 walk n = None"
| "walk_chain (Suc fuel) walk n =
     (if n = - 1 then Some []
      else if walk_ok walk n
      then map_option ((#) (walk_at walk n)) (walk_chain fuel walk (we_next (walk_at walk n)))
      else None)"

definition eca_match :: "search_entry list \<Rightarrow> walk_entry list \<Rightarrow> u64 \<Rightarrow> walk_entry list option" where
  "eca_match search walk e = walk_chain (Suc (length walk)) walk (search_index search e)"

text \<open>The action a walker entry or a record stands for, without the link to the next entry.\<close>

type_synonym eca_action = "u64 \<times> u32 \<times> u8 \<times> u32 \<times> u32"

definition we_action :: "walk_entry \<Rightarrow> eca_action" where
  "we_action w = (we_offset w, we_tag w, we_flags w, we_channel w, we_num w)"

definition oc_action :: "oc_record \<Rightarrow> eca_action" where
  "oc_action r = (oc_offset r, oc_tag r, oc_flags r, oc_channel r, oc_num r)"

section \<open>Sorting\<close>

lemma mset_oc_insert [simp]: "mset (oc_insert x xs) = add_mset x (mset xs)"
  by (induction xs) auto

lemma mset_oc_sort [simp]: "mset (oc_sort xs) = mset xs"
  by (induction xs) auto

text \<open>The order the sweep relies on: the negation of \<open>oc_less\<close> the other way round.\<close>

definition oc_le :: "oc_record \<Rightarrow> oc_record \<Rightarrow> bool" where
  "oc_le a b \<longleftrightarrow> \<not> oc_less b a"

lemma oc_le_trans: "oc_le a b \<Longrightarrow> oc_le b c \<Longrightarrow> oc_le a c"
  by (auto simp: oc_le_def oc_less_def split: if_splits)

lemma oc_less_le: "oc_less a b \<Longrightarrow> oc_le a b"
  by (auto simp: oc_le_def oc_less_def split: if_splits)

lemma set_oc_insert [simp]: "set (oc_insert x xs) = insert x (set xs)"
  by (induction xs) auto

lemma sorted_oc_insert: "sorted_wrt oc_le xs \<Longrightarrow> sorted_wrt oc_le (oc_insert x xs)"
proof (induction xs)
  case (Cons y ys)
  show ?case
  proof (cases "oc_less y x")
    case True
    with Cons show ?thesis by (auto dest: oc_less_le)
  next
    case False
    then have "oc_le x y" by (simp add: oc_le_def)
    with Cons.prems False show ?thesis by (auto intro: oc_le_trans)
  qed
qed simp

lemma sorted_oc_sort [simp]: "sorted_wrt oc_le (oc_sort xs)"
  by (induction xs) (auto intro: sorted_oc_insert)

lemma oc_le_iff:
  "oc_le a b \<longleftrightarrow> oc_key a < oc_key b \<or>
     oc_key a = oc_key b \<and> (\<not> oc_open a \<and> oc_open b \<or>
       oc_open a = oc_open b \<and> oc_subkey a \<ge> oc_subkey b)"
  by (auto simp: oc_le_def oc_less_def split: if_splits)

section \<open>The walker table as a stack\<close>

text \<open>
  \<open>is_stack walk n st\<close>: following the walker table from \<open>n\<close> meets the records of \<open>st\<close>,
  the one on top of the stack first.
\<close>

fun is_stack :: "walk_entry list \<Rightarrow> u16 \<Rightarrow> oc_record list \<Rightarrow> bool" where
  "is_stack walk n [] \<longleftrightarrow> n = - 1"
| "is_stack walk n (r # rs) \<longleftrightarrow>
     walk_ok walk n \<and> (\<exists>n'. walk_at walk n = mk_walk n' r \<and> is_stack walk n' rs)"

lemma walk_ok_not_minus_1: "walk_ok walk n \<Longrightarrow> n \<noteq> - 1"
  by (auto simp: walk_ok_def)

lemma is_stack_append: "is_stack walk n st \<Longrightarrow> is_stack (walk @ ws) n st"
proof (induction st arbitrary: n)
  case (Cons r st)
  then show ?case by (fastforce simp: walk_ok_def walk_at_def nth_append)
qed simp

lemma sint_of_nat_u16: "k < 32768 \<Longrightarrow> sint (of_nat k :: u16) = int k"
  by (simp add: signed_of_nat signed_take_bit_int_eq_self)

lemma mk_walk_simps [simp]: "we_next (mk_walk n r) = n" "we_action (mk_walk n r) = oc_action r"
  by (simp_all add: mk_walk_def we_action_def oc_action_def)

lemma is_stack_push:
  assumes "is_stack walk n st" "length walk < 32768"
  shows "is_stack (walk @ [mk_walk n r]) (of_nat (length walk)) (r # st)"
proof -
  have "is_stack (walk @ [mk_walk n r]) n st"
    using assms(1) by (rule is_stack_append)
  then show ?thesis
    using sint_of_nat_u16 [OF assms(2)] by (auto simp: walk_ok_def walk_at_def)
qed

lemma is_stack_chain:
  "is_stack walk n st \<Longrightarrow> length st < fuel \<Longrightarrow>
   \<exists>ws. walk_chain fuel walk n = Some ws \<and> map we_action ws = map oc_action st"
proof (induction st arbitrary: n fuel)
  case Nil
  then show ?case by (cases fuel) auto
next
  case (Cons r st)
  then obtain f n' where f: "fuel = Suc f" and ok: "walk_ok walk n"
    and at: "walk_at walk n = mk_walk n' r" and st: "is_stack walk n' st"
    by (cases fuel) auto
  from Cons.IH [OF st, of f] Cons.prems(2) f obtain ws
    where "walk_chain f walk n' = Some ws" "map we_action ws = map oc_action st" by auto
  then show ?case
    using f ok at walk_ok_not_minus_1 [OF ok] by auto
qed

section \<open>One cursor of the sweep\<close>

lemma pop_closes_stack:
  assumes "\<forall>r \<in> set cl. oc_key r = y \<and> \<not> oc_open r"
    and "rest = [] \<or> \<not> (oc_key (hd rest) = y \<and> \<not> oc_open (hd rest))"
    and "is_stack walk n st" "length cl \<le> length st"
  shows "\<exists>n'. pop_closes y (cl @ rest) n walk = Inr (rest, n') \<and>
           is_stack walk n' (drop (length cl) st)"
  using assms
proof (induction cl arbitrary: n st)
  case Nil
  then show ?case by (cases rest) auto
next
  case (Cons r cl)
  from Cons.prems(3,4) obtain t st' n' where st: "st = t # st'" and ok: "walk_ok walk n"
    and at: "walk_at walk n = mk_walk n' t" and st': "is_stack walk n' st'"
    by (cases st) auto
  have cl: "\<forall>r \<in> set cl. oc_key r = y \<and> \<not> oc_open r" and len: "length cl \<le> length st'"
    using Cons.prems(1,4) st by auto
  from Cons.IH [OF cl Cons.prems(2) st' len] obtain n''
    where pop: "pop_closes y (cl @ rest) n' walk = Inr (rest, n'')"
      and stk: "is_stack walk n'' (drop (length cl) st')" by blast
  have "pop_closes y ((r # cl) @ rest) n walk = Inr (rest, n'')"
    using Cons.prems(1) ok at pop walk_ok_not_minus_1 [OF ok] by simp
  with stk st show ?case by auto
qed

lemma push_opens_stack:
  assumes "\<forall>r \<in> set ops. oc_key r = y \<and> oc_open r"
    and "rest = [] \<or> \<not> (oc_key (hd rest) = y \<and> oc_open (hd rest))"
    and "is_stack walk n st" "length walk + length ops \<le> 32768"
  shows "\<exists>n' ws. push_opens y (ops @ rest) n walk = (rest, n', walk @ ws) \<and>
           length ws = length ops \<and> is_stack (walk @ ws) n' (rev ops @ st)"
  using assms
proof (induction ops arbitrary: n st walk)
  case Nil
  then show ?case by (cases rest) auto
next
  case (Cons r ops)
  let ?w = "walk @ [mk_walk n r]"
  have stk: "is_stack ?w (of_nat (length walk)) (r # st)"
    using Cons.prems by (intro is_stack_push) auto
  have ops: "\<forall>r \<in> set ops. oc_key r = y \<and> oc_open r"
    and len: "length ?w + length ops \<le> 32768" using Cons.prems(1,4) by auto
  from Cons.IH [OF ops Cons.prems(2) stk len] obtain n' ws
    where p: "push_opens y (ops @ rest) (of_nat (length walk)) ?w = (rest, n', ?w @ ws)"
      and l: "length ws = length ops" and s: "is_stack (?w @ ws) n' (rev ops @ r # st)" by blast
  have "push_opens y ((r # ops) @ rest) n walk = (rest, n', walk @ (mk_walk n r # ws))"
    using Cons.prems(1) p by simp
  moreover have "is_stack (walk @ (mk_walk n r # ws)) n' (rev (r # ops) @ st)" using s by simp
  ultimately show ?case using l by (metis length_Cons)
qed

section \<open>What a cursor has to find\<close>

abbreviation lo :: "oc_record \<Rightarrow> nat" where "lo r \<equiv> unat (oc_key r)"
abbreviation hi :: "oc_record \<Rightarrow> nat" where "hi r \<equiv> unat (oc_subkey r)"

text \<open>An open record of a non-empty interval.\<close>

definition ivl :: "oc_record \<Rightarrow> bool" where
  "ivl r \<longleftrightarrow> oc_open r \<and> oc_key r \<le> oc_subkey r"

text \<open>Intervals that meet are nested: what prefix masks guarantee.\<close>

definition laminar :: "oc_record list \<Rightarrow> bool" where
  "laminar opens \<longleftrightarrow>
     (\<forall>c \<in> set opens. \<forall>d \<in> set opens. lo d < lo c \<and> lo c \<le> hi d \<longrightarrow> hi c \<le> hi d)"

definition active_at :: "oc_record list \<Rightarrow> nat \<Rightarrow> oc_record list" where
  "active_at opens x = filter (\<lambda>c. lo c \<le> x \<and> x \<le> hi c) opens"

text \<open>The intervals on the stack when every record with a key below \<open>k\<close> is processed.\<close>

definition opened :: "oc_record list \<Rightarrow> nat \<Rightarrow> oc_record list" where
  "opened opens k = filter (\<lambda>c. lo c < k \<and> k \<le> Suc (hi c)) opens"

abbreviation all_records :: "oc_record list \<Rightarrow> oc_record list" where
  "all_records opens \<equiv> concat (map oc_records opens)"

lemma opened_Suc: "opened opens (Suc x) = active_at opens x"
  by (auto simp: opened_def active_at_def less_Suc_eq_le intro: filter_cong)

lemma unat_succ_u64: "(x::u64) \<noteq> - 1 \<Longrightarrow> unat (x + 1) = Suc (unat x)"
  by (metis add.commute unatSuc add_eq_0_iff2)

lemma close_key:
  "oc_subkey c \<noteq> - 1 \<Longrightarrow> unat (oc_subkey c + 1) = Suc (hi c)"
  by (rule unat_succ_u64)

text \<open>Nothing happens at keys without a record.\<close>

lemma opened_gap:
  assumes "\<forall>r \<in> set (all_records opens). \<not> (k \<le> lo r \<and> lo r < y)" "k \<le> y" "y \<le> 2 ^ 64"
  shows "opened opens k = opened opens y"
  unfolding opened_def
proof (rule filter_cong [OF refl])
  fix c assume c: "c \<in> set opens"
  have "c \<in> set (all_records opens)" using c by (auto simp: oc_records_def)
  with assms(1) have 1: "\<not> (k \<le> lo c \<and> lo c < y)" by blast
  have 2: "\<not> (k \<le> Suc (hi c) \<and> Suc (hi c) < y)"
  proof (cases "oc_subkey c = - 1")
    case True
    then have "hi c = 2 ^ 64 - 1" by (simp add: unsigned_minus_1_eq_mask mask_eq_exp_minus_1)
    with assms(3) show ?thesis by simp
  next
    case False
    then have "c\<lparr>oc_open := False, oc_key := oc_subkey c + 1, oc_subkey := oc_key c\<rparr>
        \<in> set (all_records opens)"
      using c by (auto simp: oc_records_def)
    with assms(1) have "\<not> (k \<le> unat (oc_subkey c + 1) \<and> unat (oc_subkey c + 1) < y)" by force
    with close_key [OF False] show ?thesis by simp
  qed
  show "(lo c < k \<and> k \<le> Suc (hi c)) = (lo c < y \<and> y \<le> Suc (hi c))"
    using 1 2 assms(2) by auto
qed

lemma closes_at:
  "\<forall>c \<in> set opens. oc_open c \<Longrightarrow>
   length (filter (\<lambda>r. oc_key r = y \<and> \<not> oc_open r) (all_records opens))
     = length (filter (\<lambda>c. Suc (hi c) = unat y) opens)"
proof (induction opens)
  case (Cons c opens)
  have "oc_subkey c + 1 = y \<and> oc_subkey c \<noteq> - 1 \<longleftrightarrow> Suc (hi c) = unat y"
  proof (cases "oc_subkey c = - 1")
    case True
    then have "hi c = 2 ^ 64 - 1" by (simp add: unsigned_minus_1_eq_mask mask_eq_exp_minus_1)
    moreover have "unat y < 2 ^ 64" using unsigned_less [of y] by simp
    ultimately show ?thesis using True by simp
  next
    case False
    then show ?thesis using close_key [OF False] by (metis word_unat_eq_iff)
  qed
  with Cons show ?case by (auto simp: oc_records_def)
qed simp

lemma opens_at:
  "\<forall>c \<in> set opens. oc_open c \<Longrightarrow>
   filter (\<lambda>r. oc_key r = y \<and> oc_open r) (all_records opens)
     = filter (\<lambda>c. lo c = unat y) opens"
  by (induction opens) (auto simp: oc_records_def word_unat_eq_iff)

lemma sorted_split:
  "sorted_wrt oc_le rs \<Longrightarrow> \<forall>r \<in> set rs. y \<le> oc_key r \<Longrightarrow>
   rs = filter (\<lambda>r. oc_key r = y \<and> \<not> oc_open r) rs @
        filter (\<lambda>r. oc_key r = y \<and> oc_open r) rs @ filter (\<lambda>r. y < oc_key r) rs"
proof (induction rs)
  case (Cons r rs)
  have later: "\<forall>s \<in> set rs. oc_le r s" using Cons.prems(1) by simp
  have IH: "rs = filter (\<lambda>r. oc_key r = y \<and> \<not> oc_open r) rs @
        filter (\<lambda>r. oc_key r = y \<and> oc_open r) rs @ filter (\<lambda>r. y < oc_key r) rs"
    using Cons by simp
  consider "oc_key r = y \<and> \<not> oc_open r" | "oc_key r = y \<and> oc_open r" | "y < oc_key r"
    using Cons.prems(2) by fastforce
  then show ?case
  proof cases
    case 1
    then show ?thesis using IH by auto
  next
    case 2
    with later have "filter (\<lambda>r. oc_key r = y \<and> \<not> oc_open r) rs = []"
      by (auto simp: oc_le_iff filter_empty_conv)
    with 2 show ?thesis using IH by auto
  next
    case 3
    with later have "filter (\<lambda>r. oc_key r = y \<and> \<not> oc_open r) rs = []"
      and "filter (\<lambda>r. oc_key r = y \<and> oc_open r) rs = []"
      by (auto simp: oc_le_iff filter_empty_conv)
    with 3 show ?thesis using IH by auto
  qed
qed simp

lemma drop_least:
  "sorted (map f st) \<Longrightarrow> \<forall>c \<in> set st. b \<le> f c \<Longrightarrow>
   drop (length (filter (\<lambda>c. f c = b) st)) st = filter (\<lambda>c. f c \<noteq> (b::nat)) st"
proof (induction st)
  case (Cons c st)
  show ?case
  proof (cases "f c = b")
    case True
    with Cons show ?thesis by simp
  next
    case False
    with Cons.prems have "\<forall>d \<in> set (c # st). f d \<noteq> b" by fastforce
    then have "filter (\<lambda>c. f c = b) (c # st) = []" "filter (\<lambda>c. f c \<noteq> b) (c # st) = c # st"
      by (auto simp: filter_empty_conv filter_id_conv)
    then show ?thesis by (metis drop0 list.size(3))
  qed
qed simp

section \<open>The sweep\<close>

definition sweep_inv :: "oc_record list \<Rightarrow> nat \<Rightarrow> oc_record list \<Rightarrow> oc_record list \<Rightarrow> bool" where
  "sweep_inv opens k rs st \<longleftrightarrow> sorted_wrt oc_le rs \<and>
     mset rs = filter_mset (\<lambda>r. k \<le> lo r) (mset (all_records opens)) \<and>
     length st = length (opened opens k)"

lemma length_filter_mono: "(\<And>x. x \<in> set xs \<Longrightarrow> P x \<Longrightarrow> Q x) \<Longrightarrow>
    length (filter P xs) \<le> length (filter Q xs)"
  by (induction xs) (auto intro: le_SucI)

lemma sweep_split:
  assumes op: "\<forall>c \<in> set opens. ivl c" and inv: "sweep_inv opens k (r # rs) st"
  defines "cl \<equiv> filter (\<lambda>s. oc_key s = oc_key r \<and> \<not> oc_open s) (r # rs)"
    and "ops \<equiv> filter (\<lambda>s. oc_key s = oc_key r \<and> oc_open s) (r # rs)"
    and "rest \<equiv> filter (\<lambda>s. oc_key r < oc_key s) (r # rs)"
  shows "r # rs = cl @ ops @ rest"
    and "length cl = length (filter (\<lambda>c. Suc (hi c) = lo r) opens)"
    and "mset ops = mset (filter (\<lambda>c. lo c = lo r) opens)"
    and "sorted_wrt (\<lambda>a b. hi b \<le> hi a) ops"
    and "mset rest = filter_mset (\<lambda>s. Suc (lo r) \<le> lo s) (mset (all_records opens))"
    and "opened opens k = opened opens (lo r)" and "k \<le> lo r"
proof -
  have srt: "sorted_wrt oc_le (r # rs)"
    and m: "mset (r # rs) = filter_mset (\<lambda>s. k \<le> lo s) (mset (all_records opens))"
    using inv by (auto simp: sweep_inv_def)
  have ge: "\<forall>s \<in> set (r # rs). oc_key r \<le> oc_key s"
    using srt by (auto simp: oc_le_iff)
  show "r # rs = cl @ ops @ rest"
    unfolding cl_def ops_def rest_def using srt ge by (rule sorted_split)
  have "r \<in># filter_mset (\<lambda>s. k \<le> lo s) (mset (all_records opens))"
    unfolding m [symmetric] by simp
  then show kr: "k \<le> lo r" by simp
  have opn: "\<forall>c \<in> set opens. oc_open c" using op by (simp add: ivl_def)
  have "mset cl = mset (filter (\<lambda>s. oc_key s = oc_key r \<and> \<not> oc_open s) (all_records opens))"
    unfolding cl_def mset_filter m using kr
    by (auto simp: filter_filter_mset intro: filter_mset_cong)
  then have "length cl = length (filter (\<lambda>s. oc_key s = oc_key r \<and> \<not> oc_open s) (all_records opens))"
    by (rule mset_eq_length)
  then show "length cl = length (filter (\<lambda>c. Suc (hi c) = lo r) opens)"
    using closes_at [OF opn] by simp
  have "mset ops = mset (filter (\<lambda>s. oc_key s = oc_key r \<and> oc_open s) (all_records opens))"
    unfolding ops_def mset_filter m using kr
    by (auto simp: filter_filter_mset intro: filter_mset_cong)
  then show "mset ops = mset (filter (\<lambda>c. lo c = lo r) opens)"
    using opens_at [OF opn] by simp
  have "sorted_wrt oc_le ops" unfolding ops_def using srt by (rule sorted_wrt_filter)
  then show "sorted_wrt (\<lambda>a b. hi b \<le> hi a) ops"
  proof (rule sorted_wrt_mono_rel [rotated])
    fix a b assume "a \<in> set ops" "b \<in> set ops" "oc_le a b"
    moreover have "\<forall>s \<in> set ops. oc_key s = oc_key r \<and> oc_open s" by (auto simp: ops_def)
    ultimately show "hi b \<le> hi a" by (auto simp: oc_le_iff word_le_nat_alt)
  qed
  show "mset rest = filter_mset (\<lambda>s. Suc (lo r) \<le> lo s) (mset (all_records opens))"
    unfolding rest_def mset_filter m using kr
    by (auto simp: filter_filter_mset word_less_nat_alt Suc_le_eq intro!: filter_mset_cong)
  show "opened opens k = opened opens (lo r)"
  proof (rule opened_gap)
    show "\<forall>s \<in> set (all_records opens). \<not> (k \<le> lo s \<and> lo s < lo r)"
    proof (intro ballI notI)
      fix s assume s: "s \<in> set (all_records opens)" "k \<le> lo s \<and> lo s < lo r"
      then have "s \<in># mset (r # rs)" unfolding m by simp
      then have "s \<in> set (r # rs)" by simp
      with ge have "oc_key r \<le> oc_key s" by blast
      with s(2) show False by (simp add: word_le_nat_alt)
    qed
  qed (use kr unsigned_less [of "oc_key r"] in \<open>auto intro: less_imp_le\<close>)
qed

text \<open>What the pops and pushes of one cursor leave on the stack.\<close>

definition next_stack :: "oc_record list \<Rightarrow> oc_record list \<Rightarrow> nat \<Rightarrow> oc_record list \<Rightarrow> oc_record list" where
  "next_stack opens ops y st = rev ops @ drop (length (filter (\<lambda>c. Suc (hi c) = y) opens)) st"

lemma active_split_length:
  assumes "\<forall>c \<in> set opens. ivl c"
  shows "length (filter (\<lambda>c. lo c = y) opens) +
     (length (opened opens y) - length (filter (\<lambda>c. Suc (hi c) = y) opens))
     = length (active_at opens y) \<and>
     length (filter (\<lambda>c. Suc (hi c) = y) opens) \<le> length (opened opens y)"
  using assms
proof (induction opens)
  case (Cons c opens)
  then have c: "lo c \<le> hi c" by (simp add: ivl_def word_le_nat_alt)
  show ?case using Cons c by (auto simp: opened_def active_at_def)
qed (simp add: opened_def active_at_def)

lemma sweep_step:
  assumes op: "\<forall>c \<in> set opens. ivl c" and inv: "sweep_inv opens k (r # rs) st"
    and stk: "is_stack walk n st" and len: "length walk + length (filter oc_open (r # rs)) \<le> 32768"
  obtains ops rest n1 n2 ws where
    "pop_closes (oc_key r) (r # rs) n walk = Inr (ops @ rest, n1)"
    "push_opens (oc_key r) (ops @ rest) n1 walk = (rest, n2, walk @ ws)"
    "is_stack (walk @ ws) n2 (next_stack opens ops (lo r) st)"
    "sweep_inv opens (Suc (lo r)) rest (next_stack opens ops (lo r) st)"
    "mset ops = mset (filter (\<lambda>c. lo c = lo r) opens)"
    "sorted_wrt (\<lambda>a b. hi b \<le> hi a) ops"
    "opened opens k = opened opens (lo r)"
    "length ws = length ops" "length (filter oc_open (r # rs)) = length ops + length (filter oc_open rest)"
    "oc_key ` set (r # rs) = insert (oc_key r) (oc_key ` set rest)"
    "\<forall>s \<in> set rest. oc_key r < oc_key s" "length rest \<le> length rs"
proof -
  let ?y = "oc_key r"
  define cl where "cl = filter (\<lambda>s. oc_key s = ?y \<and> \<not> oc_open s) (r # rs)"
  define ops where "ops = filter (\<lambda>s. oc_key s = ?y \<and> oc_open s) (r # rs)"
  define rest where "rest = filter (\<lambda>s. ?y < oc_key s) (r # rs)"
  note sp = sweep_split [OF op inv, folded cl_def ops_def rest_def]
  have stl: "length st = length (opened opens (lo r))"
    using inv sp(6) by (simp add: sweep_inv_def)
  have cll: "length cl \<le> length st"
    using sp(2) active_split_length [OF op, of "lo r"] stl by simp
  have C: "\<forall>s \<in> set cl. oc_key s = ?y \<and> \<not> oc_open s" by (auto simp: cl_def)
  have O: "\<forall>s \<in> set ops. oc_key s = ?y \<and> oc_open s" by (auto simp: ops_def)
  have R: "\<forall>s \<in> set rest. ?y < oc_key s" by (auto simp: rest_def)
  have h1: "ops @ rest = [] \<or> \<not> (oc_key (hd (ops @ rest)) = ?y \<and> \<not> oc_open (hd (ops @ rest)))"
    using O R hd_in_set [of "ops @ rest"] by fastforce
  have h2: "rest = [] \<or> \<not> (oc_key (hd rest) = ?y \<and> oc_open (hd rest))"
    using R hd_in_set [of rest] by fastforce
  obtain n1 where pop: "pop_closes ?y (cl @ ops @ rest) n walk = Inr (ops @ rest, n1)"
    and s1: "is_stack walk n1 (drop (length cl) st)"
    using pop_closes_stack [OF C h1 stk cll] by blast
  have opl: "length (filter oc_open (r # rs)) = length ops + length (filter oc_open rest)"
  proof -
    have "filter oc_open cl = []" "filter oc_open ops = ops"
      using C O by (auto simp: filter_empty_conv filter_id_conv)
    then show ?thesis unfolding sp(1) by simp
  qed
  then have wl: "length walk + length ops \<le> 32768" using len by simp
  obtain n2 ws where push: "push_opens ?y (ops @ rest) n1 walk = (rest, n2, walk @ ws)"
    and wsl: "length ws = length ops"
    and s2: "is_stack (walk @ ws) n2 (rev ops @ drop (length cl) st)"
    using push_opens_stack [OF O h2 s1 wl] by blast
  have ns: "next_stack opens ops (lo r) st = rev ops @ drop (length cl) st"
    by (simp add: next_stack_def sp(2))
  have "length ops = length (filter (\<lambda>c. lo c = lo r) opens)"
    using sp(3) by (rule mset_eq_length)
  then have "length (next_stack opens ops (lo r) st) = length (active_at opens (lo r))"
    using ns stl sp(2) active_split_length [OF op, of "lo r"] by simp
  then have inv': "sweep_inv opens (Suc (lo r)) rest (next_stack opens ops (lo r) st)"
    using sp(5) inv by (auto simp: sweep_inv_def opened_Suc rest_def intro: sorted_wrt_filter)
  have keys: "oc_key ` set (r # rs) = insert ?y (oc_key ` set rest)"
  proof -
    have "r \<in> set (cl @ ops @ rest)" unfolding sp(1) [symmetric] by simp
    then have r: "r \<in> set cl \<union> set ops" using R by auto
    have "\<forall>s \<in> set cl \<union> set ops. oc_key s = ?y" using C O by blast
    with r have "oc_key ` (set cl \<union> set ops) = {?y}" by blast
    then show ?thesis unfolding sp(1) by (auto simp: image_Un)
  qed
  have restl: "length rest \<le> length rs" by (simp add: rest_def)
  show thesis
    by (rule that [OF pop [folded sp(1)] push s2 [folded ns] inv' sp(3,4,6) wsl opl keys R restl])
qed

lemma active_split_mset:
  "\<forall>c \<in> set opens. ivl c \<Longrightarrow>
   mset (filter (\<lambda>c. lo c = y) opens) + filter_mset (\<lambda>c. Suc (hi c) \<noteq> y) (mset (opened opens y))
     = mset (active_at opens y)"
  by (induction opens) (auto simp: opened_def active_at_def ivl_def word_le_nat_alt)

text \<open>With nested intervals the stack is ordered by the ends, so the pops hit the right entries.\<close>

lemma next_stack_laminar:
  assumes op: "\<forall>c \<in> set opens. ivl c" and lam: "laminar opens"
    and st: "mset st = mset (opened opens y)" "sorted (map hi st)"
    and ops: "mset ops = mset (filter (\<lambda>c. lo c = y) opens)" "sorted_wrt (\<lambda>a b. hi b \<le> hi a) ops"
  shows "mset (next_stack opens ops y st) = mset (active_at opens y) \<and>
         sorted (map hi (next_stack opens ops y st))"
proof -
  let ?D = "filter (\<lambda>c. Suc (hi c) \<noteq> y) st"
  have mem: "\<forall>d \<in> set st. d \<in> set opens \<and> lo d < y \<and> y \<le> Suc (hi d)"
    using mset_eq_setD [OF st(1)] by (auto simp: opened_def)
  have "filter (\<lambda>c. Suc (hi c) = y) (opened opens y) = filter (\<lambda>c. Suc (hi c) = y) opens"
    using op by (auto simp: opened_def ivl_def word_le_nat_alt intro!: filter_cong)
  then have "length (filter (\<lambda>c. Suc (hi c) = y) opens) = length (filter (\<lambda>c. Suc (hi c) = y) st)"
    using st(1) by (metis mset_eq_length mset_filter)
  moreover have "sorted (map (\<lambda>c. Suc (hi c)) st)"
    using st(2) by (simp add: sorted_map)
  ultimately have ns: "next_stack opens ops y st = rev ops @ ?D"
    using drop_least [of "\<lambda>c. Suc (hi c)" st y] mem by (simp add: next_stack_def)
  have "mset (rev ops @ ?D) = mset (active_at opens y)"
    using active_split_mset [OF op, of y] ops(1) st(1) by simp
  moreover have "sorted (map hi (rev ops @ ?D))"
  proof -
    have "sorted (map hi (rev ops))"
      using ops(2) by (simp add: sorted_map sorted_wrt_rev)
    moreover have "sorted (map hi ?D)" using st(2) by (simp add: sorted_filter)
    moreover have "hi c \<le> hi d" if "c \<in> set ops" "d \<in> set ?D" for c d
    proof -
      have "c \<in> set opens \<and> lo c = y" using mset_eq_setD [OF ops(1)] that(1) by auto
      moreover have "d \<in> set opens \<and> lo d < y \<and> y \<le> hi d" using mem that(2) by fastforce
      ultimately show ?thesis using lam by (auto simp: laminar_def)
    qed
    ultimately show ?thesis by (auto simp: sorted_append)
  qed
  ultimately show ?thesis by (simp only: ns)
qed

definition table_rows ::
  "oc_record list \<Rightarrow> walk_entry list \<Rightarrow> search_entry list \<Rightarrow> bool" where
  "table_rows opens walk rows \<longleftrightarrow>
     (\<forall>s \<in> set rows. \<exists>st. is_stack walk (se_index s) st \<and>
        length st = length (active_at opens (unat (se_event s))) \<and>
        (laminar opens \<longrightarrow> mset st = mset (active_at opens (unat (se_event s)))))"

lemma build_loop_ok:
  assumes op: "\<forall>c \<in> set opens. ivl c"
  shows "sweep_inv opens k rs st \<Longrightarrow> is_stack walk n st \<Longrightarrow>
    length walk + length (filter oc_open rs) \<le> 32768 \<Longrightarrow>
    laminar opens \<longrightarrow> mset st = mset (opened opens k) \<and> sorted (map hi st) \<Longrightarrow>
    \<exists>new ws. build_loop rs n walk search = Inr (search @ new, walk @ ws) \<and>
      length ws = length (filter oc_open rs) \<and> length new \<le> length rs \<and>
      se_event ` set new = oc_key ` set rs \<and> sorted_wrt (<) (map se_event new) \<and>
      table_rows opens (walk @ ws) new"
proof (induction "length rs" arbitrary: k rs st n walk search rule: less_induct)
  case less
  show ?case
  proof (cases rs)
    case Nil
    then show ?thesis by (simp add: table_rows_def)
  next
    case (Cons r rs')
    note inv = less.prems(1) [unfolded Cons] and len = less.prems(3) [unfolded Cons]
    obtain ops rest n1 n2 ws where
      pop: "pop_closes (oc_key r) (r # rs') n walk = Inr (ops @ rest, n1)" and
      push: "push_opens (oc_key r) (ops @ rest) n1 walk = (rest, n2, walk @ ws)" and
      stk: "is_stack (walk @ ws) n2 (next_stack opens ops (lo r) st)" and
      inv': "sweep_inv opens (Suc (lo r)) rest (next_stack opens ops (lo r) st)" and
      mops: "mset ops = mset (filter (\<lambda>c. lo c = lo r) opens)" and
      sops: "sorted_wrt (\<lambda>a b. hi b \<le> hi a) ops" and
      gap: "opened opens k = opened opens (lo r)" and
      wsl: "length ws = length ops" and
      opl: "length (filter oc_open (r # rs')) = length ops + length (filter oc_open rest)" and
      keys: "oc_key ` set (r # rs') = insert (oc_key r) (oc_key ` set rest)" and
      later: "\<forall>s \<in> set rest. oc_key r < oc_key s" and
      shorter: "length rest \<le> length rs'"
      using sweep_step [OF op inv less.prems(2) len] by blast
    let ?row = "\<lparr>se_event = oc_key r, se_index = n2\<rparr>"
    have lam: "laminar opens \<longrightarrow>
        mset (next_stack opens ops (lo r) st) = mset (opened opens (Suc (lo r))) \<and>
        sorted (map hi (next_stack opens ops (lo r) st))"
      using next_stack_laminar [OF op _ _ _ mops sops, of st] less.prems(4) gap
      by (simp add: opened_Suc)
    have shr: "length rest < length rs" using shorter Cons by simp
    have len': "length (walk @ ws) + length (filter oc_open rest) \<le> 32768"
      using len opl wsl by simp
    from less.hyps [OF shr inv' stk len' lam, of "search @ [?row]"] obtain new ws'
      where b: "build_loop rest n2 (walk @ ws) (search @ [?row]) = Inr ((search @ [?row]) @ new, (walk @ ws) @ ws')"
        and l: "length ws' = length (filter oc_open rest)" "length new \<le> length rest"
        and k: "se_event ` set new = oc_key ` set rest" and so: "sorted_wrt (<) (map se_event new)"
        and rows: "table_rows opens ((walk @ ws) @ ws') new" by blast
    have "build_loop rs n walk search = Inr (search @ (?row # new), walk @ (ws @ ws'))"
      using pop push b by (simp add: Cons del: pop_closes.simps push_opens.simps)
    moreover have "length (ws @ ws') = length (filter oc_open rs)"
      using opl wsl l by (simp add: Cons)
    moreover have "length (?row # new) \<le> length rs" using l(2) shorter by (simp add: Cons)
    moreover have "se_event ` set (?row # new) = oc_key ` set rs"
      unfolding Cons keys using k by simp
    moreover have "sorted_wrt (<) (map se_event (?row # new))"
    proof -
      have "\<forall>x \<in> se_event ` set new. oc_key r < x" unfolding k using later by simp
      then show ?thesis using so by simp
    qed
    moreover have "table_rows opens (walk @ (ws @ ws')) (?row # new)"
    proof -
      have "is_stack (walk @ (ws @ ws')) n2 (next_stack opens ops (lo r) st)"
        using is_stack_append [OF stk, of ws'] by simp
      moreover have "length (next_stack opens ops (lo r) st) = length (active_at opens (lo r))"
        using inv' by (simp add: sweep_inv_def opened_Suc)
      ultimately show ?thesis
        using rows lam by (auto simp: table_rows_def opened_Suc)
    qed
    ultimately show ?thesis by blast
  qed
qed

section \<open>The tables\<close>

lemma sorted_last_greatest:
  "sorted_wrt (<) (map f xs) \<Longrightarrow> t \<in> set xs \<Longrightarrow> f t \<le> (f (last xs) :: 'a::linorder)"
  by (induction xs) (auto intro: less_imp_le)

lemma search_index_hit:
  assumes so: "sorted_wrt (<) (map se_event rows)" and z: "rows \<noteq> []" "se_event (hd rows) \<le> e"
  obtains s where "s \<in> set rows" "search_index rows e = se_index s" "se_event s \<le> e"
    "\<forall>t \<in> set rows. \<not> (se_event s < se_event t \<and> se_event t \<le> e)"
proof -
  let ?h = "filter (\<lambda>s. se_event s \<le> e) rows"
  have ne: "?h \<noteq> []" using z by (cases rows) auto
  then have "last ?h \<in> set ?h" by (rule last_in_set)
  then have in_rows: "last ?h \<in> set rows" and le: "se_event (last ?h) \<le> e" by auto
  have "sorted_wrt (<) (map se_event ?h)"
    using so by (simp add: sorted_wrt_map sorted_wrt_filter)
  then have "\<forall>t \<in> set ?h. se_event t \<le> se_event (last ?h)"
    by (blast intro: sorted_last_greatest)
  then have mx: "\<forall>t \<in> set rows. \<not> (se_event (last ?h) < se_event t \<and> se_event t \<le> e)"
    by fastforce
  show thesis
    by (rule that [OF in_rows _ le mx]) (use ne in \<open>simp add: search_index_def Let_def\<close>)
qed

text \<open>
  The tables built from any ordering \<open>std::sort\<close> may produce: sorted by \<open>oc_less\<close>, ties in any
  order. No exception, no access outside the walker table, and for every event the hardware
  finds as many entries as there are intervals around it, and exactly those when they are nested.
\<close>

lemma build_tables_ok:
  assumes op: "\<forall>c \<in> set opens. ivl c" and perm: "mset ids = mset (all_records opens)"
    and srt: "sorted_wrt oc_le ids" and few: "length opens \<le> 32768"
  obtains search walk where "build_tables ids = Inr (search, walk)"
    "length walk = length opens" "length search \<le> Suc (length ids)" "search \<noteq> []"
    "sorted_wrt (<) (map se_event search)" "se_event (hd search) = 0"
    "\<forall>e. \<exists>st. is_stack walk (search_index search e) st \<and>
       length st = length (active_at opens (unat e)) \<and>
       (laminar opens \<longrightarrow> mset st = mset (active_at opens (unat e)))"
proof -
  let ?lead = "if ids = [] \<or> oc_key (hd ids) \<noteq> 0 then [\<lparr>se_event = 0, se_index = - 1\<rparr>] else []"
  have opened0: "opened opens 0 = []" by (simp add: opened_def)
  have opc: "length (filter oc_open ids) = length opens"
  proof -
    have "length (filter oc_open ids) = length (filter oc_open (all_records opens))"
      using perm by (metis mset_eq_length mset_filter)
    also have "\<dots> = length opens"
      using op by (induction opens) (auto simp: oc_records_def ivl_def)
    finally show ?thesis .
  qed
  have inv: "sweep_inv opens 0 ids []" using perm srt opened0 by (simp add: sweep_inv_def)
  obtain new walk where b: "build_tables ids = Inr (?lead @ new, walk)"
    and wl: "length walk = length opens" and nl: "length new \<le> length ids"
    and keys: "se_event ` set new = oc_key ` set ids" and so: "sorted_wrt (<) (map se_event new)"
    and rows: "table_rows opens walk new"
    using build_loop_ok [OF op inv, of "[]" "- 1" ?lead] few opc opened0
    by (auto simp: build_tables_def)
  have lead: "?lead = [] \<Longrightarrow> new \<noteq> [] \<and> se_event (hd new) = 0"
  proof -
    assume "?lead = []"
    then have ids: "ids \<noteq> []" "oc_key (hd ids) = 0" by (auto split: if_splits)
    then have "0 \<in> se_event ` set new" unfolding keys by (metis hd_in_set image_eqI)
    with so show ?thesis by (cases new) auto
  qed
  have lead1: "?lead \<noteq> [] \<Longrightarrow> \<forall>s \<in> set new. 0 < se_event s"
  proof
    fix s assume l: "?lead \<noteq> []" and "s \<in> set new"
    then obtain r where r: "r \<in> set ids" "se_event s = oc_key r" using keys by blast
    then have ids: "ids \<noteq> []" by auto
    with l have "oc_key (hd ids) \<noteq> 0" by (auto split: if_splits)
    moreover have "oc_key (hd ids) \<le> oc_key r"
      using srt r(1) by (cases ids) (auto simp: oc_le_iff)
    ultimately show "0 < se_event s" using r(2) by (metis leD word_gt_0 word_le_0_iff)
  qed
  let ?search = "?lead @ new"
  have ss: "sorted_wrt (<) (map se_event ?search)" using so lead1 by auto
  have ne: "?search \<noteq> []" using lead by auto
  have h0: "se_event (hd ?search) = 0" using lead by auto
  have main: "\<exists>st. is_stack walk (search_index ?search e) st \<and>
       length st = length (active_at opens (unat e)) \<and>
       (laminar opens \<longrightarrow> mset st = mset (active_at opens (unat e)))" for e
  proof -
    obtain s where s: "s \<in> set ?search" "search_index ?search e = se_index s" "se_event s \<le> e"
      and mx: "\<forall>t \<in> set ?search. \<not> (se_event s < se_event t \<and> se_event t \<le> e)"
      using search_index_hit [OF ss ne, of e] h0 by auto
    have mem: "\<And>r. r \<in> set (all_records opens) \<Longrightarrow> \<exists>t \<in> set new. se_event t = oc_key r"
      using keys mset_eq_setD [OF perm] by (metis image_iff)
    have gap: "opened opens k = opened opens (Suc (unat e))"
      if "k \<le> Suc (unat e)" "\<forall>r \<in> set (all_records opens). \<not> (k \<le> lo r \<and> oc_key r \<le> e)" for k
    proof (rule opened_gap)
      show "\<forall>r \<in> set (all_records opens). \<not> (k \<le> lo r \<and> lo r < Suc (unat e))"
        using that(2) by (metis less_Suc_eq_le word_le_nat_alt)
      show "Suc (unat e) \<le> 2 ^ 64" using unat_u64_less [of e] by simp
    qed (rule that(1))
    show ?thesis
    proof (cases "s \<in> set new")
      case True
      have "opened opens (Suc (unat (se_event s))) = opened opens (Suc (unat e))"
      proof (rule gap)
      show "Suc (unat (se_event s)) \<le> Suc (unat e)" using s(3) by (simp add: word_le_nat_alt)
      show "\<forall>r \<in> set (all_records opens). \<not> (Suc (unat (se_event s)) \<le> lo r \<and> oc_key r \<le> e)"
      proof (intro ballI notI)
        fix r assume r: "r \<in> set (all_records opens)" "Suc (unat (se_event s)) \<le> lo r \<and> oc_key r \<le> e"
        from mem [OF r(1)] obtain t where t: "t \<in> set new" "se_event t = oc_key r" by auto
        then have "t \<in> set ?search" by simp
        with mx have "\<not> (se_event s < se_event t \<and> se_event t \<le> e)" by blast
        with t(2) r(2) show False by (simp add: word_less_nat_alt Suc_le_eq)
      qed
    qed
      then have "active_at opens (unat (se_event s)) = active_at opens (unat e)"
        by (simp add: opened_Suc)
      with bspec [OF rows [unfolded table_rows_def] True] show ?thesis by (simp only: s(2))
    next
      case False
      with s(1) have s0: "s = \<lparr>se_event = 0, se_index = - 1\<rparr>" and l: "?lead \<noteq> []"
        by (auto split: if_splits)
      have "opened opens 0 = opened opens (Suc (unat e))"
      proof (rule gap)
        show "\<forall>r \<in> set (all_records opens). \<not> (0 \<le> lo r \<and> oc_key r \<le> e)"
        proof (intro ballI notI)
          fix r assume r: "r \<in> set (all_records opens)" "0 \<le> lo r \<and> oc_key r \<le> e"
          from mem [OF r(1)] obtain t where t: "t \<in> set new" "se_event t = oc_key r" by auto
          then have "t \<in> set ?search" by simp
          with mx have "\<not> (se_event s < se_event t \<and> se_event t \<le> e)" by blast
          moreover have "0 < se_event t" using lead1 [OF l] t(1) by blast
          ultimately show False using t(2) r(2) s0 by simp
        qed
      qed simp
      then have "active_at opens (unat e) = []" by (simp add: opened_Suc opened0)
      with s(2) s0 show ?thesis by (intro exI [of _ "[]"]) auto
    qed
  qed
  show thesis
    by (rule that [OF b wl _ ne ss h0]) (use nl main in auto)
qed

section \<open>From conditions to tables\<close>

text \<open>The active conditions in the order \<open>ECA::compile\<close> meets them, with channel and subchannel.\<close>

type_synonym placed = "u32 \<times> u32 \<times> condition"

definition placed_open :: "placed \<Rightarrow> oc_record" where
  "placed_open p = (case p of (channel, num, c) \<Rightarrow> open_record channel num c)"

definition id_space :: "placed list \<Rightarrow> oc_record list" where
  "id_space ps = concat (map (\<lambda>p. oc_records (placed_open p)) ps)"

definition placed_matches :: "u64 \<Rightarrow> placed \<Rightarrow> bool" where
  "placed_matches e p = matches (snd (snd p)) e"

definition placed_action :: "placed \<Rightarrow> eca_action" where
  "placed_action p = (case p of (channel, num, c) \<Rightarrow>
     (c_offset c, c_tag c, cond_flags c, channel, num))"

lemma id_space_all_records: "id_space ps = all_records (map placed_open ps)"
  by (simp add: id_space_def comp_def)

lemma placed_open_ivl: "ivl (placed_open p)"
proof -
  have "\<forall>c. c_id c AND c_mask c \<le> c_id c OR NOT (c_mask c)"
    by (rule allI, rule order_trans [OF and_le_self id_le_or])
  then show ?thesis by (auto simp: ivl_def placed_open_def open_record_def split: prod.split)
qed

lemma oc_action_placed [simp]: "oc_action (placed_open p) = placed_action p"
  by (simp add: oc_action_def placed_open_def open_record_def placed_action_def split: prod.split)

lemma placed_laminar:
  assumes v: "\<forall>p \<in> set ps. valid_condition (snd (snd p))"
  shows "laminar (map placed_open ps)"
proof -
  have "hi (placed_open p) \<le> hi (placed_open q)"
    if p: "p \<in> set ps" "q \<in> set ps"
      and less: "lo (placed_open q) < lo (placed_open p)" "lo (placed_open p) \<le> hi (placed_open q)" for p q
  proof -
    obtain c d where cd: "snd (snd p) = c" "snd (snd q) = d" by simp
    have vc: "prefix_mask (c_mask c)" "c_id c AND c_mask c = c_id c"
      and vd: "prefix_mask (c_mask d)" "c_id d AND c_mask d = c_id d"
      using v p cd by (auto simp: valid_condition_def)
    have "c_id d < c_id c" "c_id c \<le> c_id d OR NOT (c_mask d)"
      using less cd vc vd
      by (auto simp: placed_open_def open_record_def word_less_nat_alt word_le_nat_alt split: prod.splits)
    then have "c_id c OR NOT (c_mask c) \<le> c_id d OR NOT (c_mask d)"
      using prefix_intervals_nested vc vd by blast
    then show ?thesis
      using cd by (auto simp: placed_open_def open_record_def word_le_nat_alt split: prod.splits)
  qed
  then show ?thesis by (auto simp: laminar_def)
qed

lemma active_at_placed:
  assumes v: "\<forall>p \<in> set ps. valid_condition (snd (snd p))"
  shows "active_at (map placed_open ps) (unat e) = map placed_open (filter (placed_matches e) ps)"
  using v
proof (induction ps)
  case (Cons p ps)
  have "placed_matches e p \<longleftrightarrow>
      lo (placed_open p) \<le> unat e \<and> unat e \<le> hi (placed_open p)"
    using valid_matches_iff [of "snd (snd p)" e] Cons.prems
    by (auto simp: placed_matches_def placed_open_def open_record_def word_le_nat_alt split: prod.split)
  with Cons show ?case by (simp add: active_at_def)
qed (simp add: active_at_def)

text \<open>The form the properties use, for any ordering of the records the sort may choose.\<close>

lemma sorted_tables_match:
  assumes perm: "mset ids = mset (id_space ps)" and srt: "sorted_wrt oc_le ids"
    and few: "length ps \<le> 32768"
  obtains search walk where "build_tables ids = Inr (search, walk)"
    "length walk = length ps" "length search \<le> Suc (length ids)" "search \<noteq> []"
    "sorted_wrt (<) (map se_event search)" "se_event (hd search) = 0"
    "\<forall>e. \<exists>ws. eca_match search walk e = Some ws"
    "(\<forall>p \<in> set ps. valid_condition (snd (snd p))) \<Longrightarrow>
     \<forall>e. \<exists>ws. eca_match search walk e = Some ws \<and>
       mset (map we_action ws) = mset (map placed_action (filter (placed_matches e) ps))"
proof -
  let ?o = "map placed_open ps"
  have op: "\<forall>c \<in> set ?o. ivl c" by (auto simp: placed_open_ivl)
  have perm': "mset ids = mset (all_records ?o)" using perm by (simp add: id_space_all_records)
  have few': "length ?o \<le> 32768" using few by simp
  obtain search walk where t: "build_tables ids = Inr (search, walk)"
    "length walk = length ?o" "length search \<le> Suc (length ids)" "search \<noteq> []"
    "sorted_wrt (<) (map se_event search)" "se_event (hd search) = 0"
    and st: "\<forall>e. \<exists>st. is_stack walk (search_index search e) st \<and>
       length st = length (active_at ?o (unat e)) \<and>
       (laminar ?o \<longrightarrow> mset st = mset (active_at ?o (unat e)))"
    using build_tables_ok [OF op perm' srt few'] by blast
  have ex: "\<exists>ws st. eca_match search walk e = Some ws \<and> map we_action ws = map oc_action st \<and>
      (laminar ?o \<longrightarrow> mset st = mset (active_at ?o (unat e)))" for e
  proof -
    obtain st where s: "is_stack walk (search_index search e) st"
      "length st = length (active_at ?o (unat e))"
      "laminar ?o \<longrightarrow> mset st = mset (active_at ?o (unat e))" using st by blast
    have "length st \<le> length walk" using s(2) t(2) by (simp add: active_at_def)
    then have "length st < Suc (length walk)" by simp
    from is_stack_chain [OF s(1) this] s(3) show ?thesis unfolding eca_match_def by blast
  qed
  show thesis
  proof (rule that [OF t(1) _ t(3-6)])
    show "length walk = length ps" using t(2) by simp
    show "\<forall>e. \<exists>ws. eca_match search walk e = Some ws" using ex by blast
    assume v: "\<forall>p \<in> set ps. valid_condition (snd (snd p))"
    show "\<forall>e. \<exists>ws. eca_match search walk e = Some ws \<and>
       mset (map we_action ws) = mset (map placed_action (filter (placed_matches e) ps))"
    proof
      fix e
      obtain ws st where "eca_match search walk e = Some ws" "map we_action ws = map oc_action st"
        "mset st = mset (map placed_open (filter (placed_matches e) ps))"
        using ex [of e] placed_laminar [OF v] active_at_placed [OF v, of e] by auto
      moreover have "map oc_action (map placed_open qs) = map placed_action qs" for qs by simp
      ultimately have "mset (map we_action ws) = mset (map placed_action (filter (placed_matches e) ps))"
        by (metis mset_map)
      with \<open>eca_match search walk e = Some ws\<close>
      show "\<exists>ws. eca_match search walk e = Some ws \<and>
         mset (map we_action ws) = mset (map placed_action (filter (placed_matches e) ps))" by blast
    qed
  qed
qed

end
