(* ===== verification/Etherbone.thy ===== *)
theory Etherbone
  imports Prelude
begin

text \<open>
  The bus behind the drivers. The Etherbone library and the hardware are not part of this
  repository: what a device answers to a read, and whether a cycle fails, is a parameter \<open>hw\<close>, a
  function of everything that was done on the bus before. The state is that history.
\<close>

datatype bus_op = BusWrite u64 u32 | BusRead u64

record hardware =
  hw_answer :: "bus_op list \<Rightarrow> u64 \<Rightarrow> u32"
  hw_failure :: "bus_op list \<Rightarrow> bus_op list \<Rightarrow> exn option"

text \<open>
  \<open>etherbone::Cycle\<close>: the operations between \<open>open\<close> and \<open>close\<close> reach the bus together when the
  cycle is closed. The reads are returned in order. A cycle that fails throws.
\<close>

fun cycle_answers :: "hardware \<Rightarrow> bus_op list \<Rightarrow> bus_op list \<Rightarrow> u32 list" where
  "cycle_answers hw log [] = []"
| "cycle_answers hw log (BusWrite a d # ops) = cycle_answers hw (log @ [BusWrite a d]) ops"
| "cycle_answers hw log (BusRead a # ops) = hw_answer hw log a # cycle_answers hw (log @ [BusRead a]) ops"

definition close_cycle :: "hardware \<Rightarrow> bus_op list \<Rightarrow> bus_op list \<Rightarrow> (exn + u32 list) \<times> bus_op list" where
  "close_cycle hw ops log =
     (case hw_failure hw log ops of
        Some e \<Rightarrow> (Inl e, log)
      | None \<Rightarrow> (Inr (cycle_answers hw log ops), log @ ops))"

fun reads_of :: "bus_op list \<Rightarrow> nat" where
  "reads_of [] = 0"
| "reads_of (BusWrite a d # ops) = reads_of ops"
| "reads_of (BusRead a # ops) = Suc (reads_of ops)"

lemma length_cycle_answers: "length (cycle_answers hw log ops) = reads_of ops"
  by (induction hw log ops rule: cycle_answers.induct) auto

lemma reads_of_append [simp]: "reads_of (xs @ ys) = reads_of xs + reads_of ys"
  by (induction xs rule: reads_of.induct) auto

lemma close_cycle_Inr:
  "close_cycle hw ops log = (Inr rs, log') \<longleftrightarrow>
     hw_failure hw log ops = None \<and> rs = cycle_answers hw log ops \<and> log' = log @ ops"
  by (auto simp: close_cycle_def split: option.splits)

lemma close_cycle_Inl:
  "close_cycle hw ops log = (Inl e, log') \<longleftrightarrow> hw_failure hw log ops = Some e \<and> log' = log"
  by (auto simp: close_cycle_def split: option.splits)

text \<open>The exceptions of a bus failure are the ones of the library.\<close>

definition proper_failures :: "hardware \<Rightarrow> bool" where
  "proper_failures hw \<longleftrightarrow> (\<forall>log ops e. hw_failure hw log ops = Some e \<longrightarrow> (\<exists>b msg. e = EbException b msg))"

text \<open>A device that always answers 0 and never fails.\<close>

definition silent_hardware :: hardware where
  "silent_hardware = \<lparr>hw_answer = (\<lambda>_ _. 0), hw_failure = (\<lambda>_ _. None)\<rparr>"

lemma silent_never_fails [simp]: "hw_failure silent_hardware log ops = None"
  by (simp add: silent_hardware_def)

lemma silent_proper [simp]: "proper_failures silent_hardware"
  by (simp add: proper_failures_def)

end
