(* ===== verification/Event_Loop.thy ===== *)
theory Event_Loop
  imports Prelude
begin

text \<open>
  The event loop of saftbus (saftbus/loop.cpp, saftbus/loop.hpp): sources, their poll descriptors,
  one iteration with its preparation, waiting, dispatch and clean-up, and the two source types.
  Times are in nanoseconds, intervals in milliseconds.
\<close>

section \<open>Sources\<close>

record pollfd =
  pf_fd :: int
  pf_events :: u16
  pf_revents :: u16

definition POLLIN :: u16 where "POLLIN = 1"
definition POLLERR :: u16 where "POLLERR = 8"
definition POLLHUP :: u16 where "POLLHUP = 16"

text \<open>
  \<open>TimeoutSource\<close> (slot, interval, dispatch time) and \<open>IoSource\<close> (slot, address of its pollfd).
  Every source has a vector of pointers to pollfd structs; pointers are addresses.
\<close>

datatype 'cb source_kind = TimeoutSource 'cb int int | IoSource 'cb nat

record 'cb source =
  so_id :: u64
  so_pfds :: "nat list"
  so_kind :: "'cb source_kind"

text \<open>
  \<open>Loop::Impl\<close> together with the static id counter of \<open>Source\<close> and the pollfd structs in
  memory. A null pointer in a vector of sources is \<open>None\<close>.
\<close>

record 'cb loop =
  lp_added :: "'cb source option list"
  lp_sources :: "'cb source option list"
  lp_running :: bool
  lp_depth :: nat
  lp_id :: u64
  lp_source_counter :: u64
  lp_mem :: "nat \<Rightarrow> pollfd option"

record source_handle =
  sh_source_id :: u64
  sh_loop_id :: u64

definition null_handle :: source_handle where
  "null_handle = \<lparr>sh_source_id = 0, sh_loop_id = 0\<rparr>"

definition connected :: "source_handle \<Rightarrow> bool" where
  "connected h \<longleftrightarrow> sh_loop_id h \<noteq> 0"

text \<open>\<open>Source::Source\<close>, given the next value of \<open>rand()\<close>; \<open>Loop::Loop\<close> numbers loops the same way.\<close>

definition next_counter :: "u64 \<Rightarrow> u64" where
  "next_counter c = (if c = - 1 then c + 1 else c) + 1"

definition make_id :: "u64 \<Rightarrow> u64 \<Rightarrow> u64" where
  "make_id rand c = next_counter c OR push_bit 32 (rand mod 0xffffffff)"

definition new_source_id :: "u64 \<Rightarrow> ('cb, 'z) loop_scheme \<Rightarrow> u64 \<times> ('cb, 'z) loop_scheme" where
  "new_source_id rand w =
     (make_id rand (lp_source_counter w), w\<lparr>lp_source_counter := next_counter (lp_source_counter w)\<rparr>)"

definition new_loop :: "u64 \<Rightarrow> u64 \<Rightarrow> u64 \<Rightarrow> 'cb loop" where
  "new_loop rand loop_counter source_counter =
     \<lparr>lp_added = [], lp_sources = [], lp_running = True, lp_depth = 0, lp_id = make_id rand loop_counter,
      lp_source_counter = source_counter, lp_mem = (\<lambda>_. None)\<rparr>"

definition add_poll :: "nat \<Rightarrow> nat list \<Rightarrow> nat list" where
  "add_poll p pfds = pfds @ [p]"

text \<open>
  \<open>pfds.erase(pfds.begin(), std::remove(pfds.begin(), pfds.end(), pfd))\<close>: \<open>std::remove\<close> moves the
  elements to keep to the front and returns the end of that part; the range erased is the part in
  front of it, and what stays are the last elements of the old vector.
\<close>

definition std_remove :: "'a \<Rightarrow> 'a list \<Rightarrow> 'a list \<times> nat" where
  "std_remove p xs = (let kept = filter (\<lambda>q. q \<noteq> p) xs in (kept @ drop (length kept) xs, length kept))"

definition remove_poll :: "nat \<Rightarrow> nat list \<Rightarrow> nat list" where
  "remove_poll p pfds = (case std_remove p pfds of (moved, k) \<Rightarrow> drop k moved)"

section \<open>The environment\<close>

text \<open>
  The clock, \<open>poll\<close>, \<open>sleep_for\<close> and the slots: \<open>poll\<close> answers with the returned events when its
  result is positive.
\<close>

record ('cb, 'w) loop_env =
  le_now :: "'w \<Rightarrow> int \<times> 'w"
  le_poll :: "pollfd list \<Rightarrow> int \<Rightarrow> 'w \<Rightarrow> u16 list option \<times> 'w"
  le_sleep :: "int \<Rightarrow> 'w \<Rightarrow> 'w"
  le_timeout_slot :: "'cb \<Rightarrow> ('w, bool) op"
  le_io_slot :: "'cb \<Rightarrow> int \<Rightarrow> u16 \<Rightarrow> ('w, bool) op"

text \<open>\<open>duration_cast<milliseconds>\<close> truncates towards zero.\<close>

definition to_ms :: "int \<Rightarrow> int" where
  "to_ms ns = sgn ns * (\<bar>ns\<bar> div 1000000)"

section \<open>Connecting and removing\<close>

definition new_timeout_source :: "u64 \<Rightarrow> 'cb \<Rightarrow> int \<Rightarrow> int \<Rightarrow> int \<Rightarrow> 'cb source" where
  "new_timeout_source i slot interval offset now =
     \<lparr>so_id = i, so_pfds = [],
      so_kind = TimeoutSource slot (if interval \<le> 0 then 1 else interval) (now + offset * 1000000)\<rparr>"

definition new_io_source ::
  "u64 \<Rightarrow> 'cb \<Rightarrow> nat \<Rightarrow> int \<Rightarrow> u16 \<Rightarrow> ('cb, 'z) loop_scheme \<Rightarrow> 'cb source \<times> ('cb, 'z) loop_scheme" where
  "new_io_source i slot addr fd c w =
     (\<lparr>so_id = i, so_pfds = add_poll addr [], so_kind = IoSource slot addr\<rparr>,
      w\<lparr>lp_mem := (lp_mem w)(addr \<mapsto> \<lparr>pf_fd = fd, pf_events = c OR POLLHUP OR POLLERR, pf_revents = 0\<rparr>)\<rparr>)"

definition loop_connect :: "'cb source \<Rightarrow> ('cb, 'z) loop_scheme \<Rightarrow> source_handle \<times> ('cb, 'z) loop_scheme" where
  "loop_connect src w =
     (\<lparr>sh_source_id = so_id src, sh_loop_id = lp_id w\<rparr>,
      if lp_depth w \<noteq> 0 then w\<lparr>lp_added := lp_added w @ [Some src]\<rparr>
      else w\<lparr>lp_sources := lp_sources w @ [Some src]\<rparr>)"

text \<open>The destructor of a source: an \<open>IoSource\<close> takes its pollfd struct with it.\<close>

definition free_source :: "'cb source \<Rightarrow> ('cb, 'z) loop_scheme \<Rightarrow> ('cb, 'z) loop_scheme" where
  "free_source src w =
     (case so_kind src of IoSource _ a \<Rightarrow> w\<lparr>lp_mem := (lp_mem w)(a := None)\<rparr> | TimeoutSource _ _ _ \<Rightarrow> w)"

fun find_source :: "u64 \<Rightarrow> 'cb source option list \<Rightarrow> nat \<Rightarrow> (nat \<times> 'cb source) option" where
  "find_source i [] k = None"
| "find_source i (None # xs) k = find_source i xs (Suc k)"
| "find_source i (Some s # xs) k = (if so_id s = i then Some (k, s) else find_source i xs (Suc k))"

definition loop_remove :: "source_handle \<Rightarrow> ('cb, 'z) loop_scheme \<Rightarrow> ('cb, 'z) loop_scheme" where
  "loop_remove h w =
     (if sh_loop_id h = lp_id w then
        let w1 = (case find_source (sh_source_id h) (lp_sources w) 0 of
                    Some (k, s) \<Rightarrow> free_source s (w\<lparr>lp_sources := (lp_sources w)[k := None]\<rparr>)
                  | None \<Rightarrow> w)
        in (case find_source (sh_source_id h) (lp_added w1) 0 of
              Some (k, s) \<Rightarrow> free_source s (w1\<lparr>lp_added := (lp_added w1)[k := None]\<rparr>)
            | None \<Rightarrow> w1)
      else w)"

definition free_all :: "'cb source option list \<Rightarrow> ('cb, 'z) loop_scheme \<Rightarrow> ('cb, 'z) loop_scheme" where
  "free_all xs w = fold (\<lambda>x w. case x of Some s \<Rightarrow> free_source s w | None \<Rightarrow> w) xs w"

definition loop_clear :: "('cb, 'z) loop_scheme \<Rightarrow> ('cb, 'z) loop_scheme" where
  "loop_clear w =
     (let w1 = free_all (lp_sources w) (w\<lparr>lp_sources := []\<rparr>)
      in free_all (lp_added w1) (w1\<lparr>lp_added := []\<rparr>))"

definition loop_quit :: "('cb, 'z) loop_scheme \<Rightarrow> bool \<times> ('cb, 'z) loop_scheme" where
  "loop_quit w = (False, w\<lparr>lp_running := False\<rparr>)"

section \<open>One iteration\<close>

definition deref_pollfd :: "nat \<Rightarrow> (('cb, 'z) loop_scheme, pollfd) op" where
  "deref_pollfd a = (\<lambda>w. case lp_mem w a of Some p \<Rightarrow> (Inr p, w) | None \<Rightarrow> (Inl (Undefined ''dangling pollfd''), w))"

text \<open>The virtual functions \<open>prepare\<close> (the timeout it reports, -1 when it leaves it alone) and \<open>check\<close>.\<close>

definition prepare ::
  "('cb, ('cb, 'z) loop_scheme) loop_env \<Rightarrow> 'cb source \<Rightarrow> ('cb, 'z) loop_scheme \<Rightarrow> int \<times> ('cb, 'z) loop_scheme" where
  "prepare env src w =
     (case so_kind src of
        TimeoutSource _ _ dispatch_time \<Rightarrow>
          (case le_now env w of (now, w') \<Rightarrow>
             (let t = to_ms (dispatch_time - now) in (if t \<le> 0 then 0 else t, w')))
      | IoSource _ _ \<Rightarrow> (- 1, w))"

definition check :: "('cb, ('cb, 'z) loop_scheme) loop_env \<Rightarrow> 'cb source \<Rightarrow> (('cb, 'z) loop_scheme, bool) op" where
  "check env src =
     (case so_kind src of
        TimeoutSource _ _ dispatch_time \<Rightarrow>
          (\<lambda>w. case le_now env w of (now, w') \<Rightarrow> (Inr (to_ms (dispatch_time - now) \<le> 0), w'))
      | IoSource _ a \<Rightarrow> bnd (deref_pollfd a) (\<lambda>p. ret (pf_revents p AND pf_events p \<noteq> 0)))"

text \<open>The earliest timeout and the pollfd structs of all sources.\<close>

fun prepare_all ::
  "('cb, ('cb, 'z) loop_scheme) loop_env \<Rightarrow> 'cb source option list \<Rightarrow> int \<Rightarrow> nat list
   \<Rightarrow> ('cb, 'z) loop_scheme \<Rightarrow> (int \<times> nat list) \<times> ('cb, 'z) loop_scheme" where
  "prepare_all env [] timeout addrs w = ((timeout, addrs), w)"
| "prepare_all env (None # xs) timeout addrs w = prepare_all env xs timeout addrs w"
| "prepare_all env (Some s # xs) timeout addrs w =
     (case prepare env s w of (t, w') \<Rightarrow>
        prepare_all env xs
          (if t \<noteq> - 1 then (if timeout = - 1 then t else min timeout t) else timeout)
          (addrs @ so_pfds s) w')"

fun deref_all :: "nat list \<Rightarrow> (('cb, 'z) loop_scheme, pollfd list) op" where
  "deref_all [] = ret []"
| "deref_all (a # as) = bnd (deref_pollfd a) (\<lambda>p. bnd (deref_all as) (\<lambda>ps. ret (p # ps)))"

definition copy_back :: "nat list \<Rightarrow> u16 list \<Rightarrow> ('cb, 'z) loop_scheme \<Rightarrow> ('cb, 'z) loop_scheme" where
  "copy_back addrs revents w =
     w\<lparr>lp_mem := fold (\<lambda>(a, r) m. m(a := map_option (\<lambda>p. p\<lparr>pf_revents := r\<rparr>) (m a))) (zip addrs revents) (lp_mem w)\<rparr>"

definition wait_for ::
  "('cb, ('cb, 'z) loop_scheme) loop_env \<Rightarrow> int \<Rightarrow> nat list \<Rightarrow> (('cb, 'z) loop_scheme, unit) op" where
  "wait_for env timeout addrs =
     (if addrs \<noteq> [] then
        bnd (deref_all addrs) (\<lambda>pfds w.
          case le_poll env pfds timeout w of
            (Some revents, w') \<Rightarrow> (Inr (), copy_back addrs revents w')
          | (None, w') \<Rightarrow> (Inr (), w'))
      else if timeout > 0 then modify (le_sleep env timeout)
      else ret ())"

text \<open>\<open>do { dispatch_time += interval; } while (now >= dispatch_time)\<close>; the interval is positive.\<close>

function catch_up :: "int \<Rightarrow> int \<Rightarrow> int \<Rightarrow> int" where
  "catch_up now interval t =
     (let t' = t + interval in if interval > 0 \<and> now \<ge> t' then catch_up now interval t' else t')"
  by auto
termination by (relation "measure (\<lambda>(now, interval, t). nat (now + 1 - t))") auto

declare catch_up.simps [simp del]

text \<open>
  \<open>dispatch\<close> of the source in slot \<open>k\<close> of the vector. \<open>IoSource::dispatch\<close> uses its members after
  the slot has run, so the source must still be there.
\<close>

definition dispatch ::
  "('cb, ('cb, 'z) loop_scheme) loop_env \<Rightarrow> nat \<Rightarrow> 'cb source \<Rightarrow> (('cb, 'z) loop_scheme, bool) op" where
  "dispatch env k src =
     (case so_kind src of
        TimeoutSource slot interval dispatch_time \<Rightarrow>
          (\<lambda>w. case le_now env w of (now, w1) \<Rightarrow>
             (let src' = src\<lparr>so_kind := TimeoutSource slot interval
                                (catch_up now (interval * 1000000) dispatch_time)\<rparr>
              in le_timeout_slot env slot (w1\<lparr>lp_sources := (lp_sources w1)[k := Some src']\<rparr>)))
      | IoSource slot a \<Rightarrow>
          bnd (deref_pollfd a) (\<lambda>p.
          bnd (le_io_slot env slot (pf_fd p) (pf_revents p)) (\<lambda>result.
          bnd (deref_pollfd a) (\<lambda>p'.
          thn (modify (\<lambda>w. w\<lparr>lp_mem := (lp_mem w)(a \<mapsto> p'\<lparr>pf_revents := 0\<rparr>)\<rparr>))
              (ret (if pf_revents p' = POLLHUP \<or> pf_revents p' = POLLERR then False else result))))))"

definition reset_source :: "nat \<Rightarrow> ('cb, 'z) loop_scheme \<Rightarrow> ('cb, 'z) loop_scheme" where
  "reset_source k w =
     (case lp_sources w ! k of
        None \<Rightarrow> w
      | Some s \<Rightarrow> free_source s (w\<lparr>lp_sources := (lp_sources w)[k := None]\<rparr>))"

definition dispatch_at ::
  "('cb, ('cb, 'z) loop_scheme) loop_env \<Rightarrow> nat \<Rightarrow> (('cb, 'z) loop_scheme, unit) op" where
  "dispatch_at env k =
     bnd (gets lp_sources) (\<lambda>xs.
     if \<not> k < length xs then raise (Undefined ''sources changed while iterating'')
     else case xs ! k of
       None \<Rightarrow> ret ()
     | Some src \<Rightarrow>
         bnd (check env src) (\<lambda>ready.
         if \<not> ready then ret ()
         else bnd (dispatch env k src) (\<lambda>go_on.
              bnd (gets lp_sources) (\<lambda>ys.
              if length ys \<noteq> length xs then raise (Undefined ''sources changed while iterating'')
              else if go_on then ret () else modify (reset_source k)))))"

definition clean_up :: "('cb, 'z) loop_scheme \<Rightarrow> ('cb, 'z) loop_scheme" where
  "clean_up w =
     (if lp_depth w = 1
      then w\<lparr>lp_sources := filter (\<lambda>s. s \<noteq> None) (lp_sources w) @ filter (\<lambda>s. s \<noteq> None) (lp_added w),
             lp_added := []\<rparr>
      else w)"

definition iteration ::
  "('cb, ('cb, 'z) loop_scheme) loop_env \<Rightarrow> bool \<Rightarrow> (('cb, 'z) loop_scheme, bool) op" where
  "iteration env may_block =
     thn (modify (\<lambda>w. w\<lparr>lp_depth := lp_depth w + 1\<rparr>))
    (bnd (\<lambda>w. case prepare_all env (lp_sources w) (- 1) [] w of (r, w') \<Rightarrow> (Inr r, w')) (\<lambda>(timeout, addrs).
     thn (wait_for env (if may_block then timeout else 0) addrs)
    (bnd (gets (\<lambda>w. length (lp_sources w))) (\<lambda>n.
     thn (for_each (dispatch_at env) [0..<n])
    (thn (modify clean_up)
    (thn (modify (\<lambda>w. w\<lparr>lp_depth := lp_depth w - 1\<rparr>))
         (gets (\<lambda>w. lp_sources w \<noteq> []))))))))"

text \<open>\<open>Loop::run\<close>, for at most \<open>fuel\<close> iterations.\<close>

fun run_loop ::
  "('cb, ('cb, 'z) loop_scheme) loop_env \<Rightarrow> nat \<Rightarrow> ('cb, 'z) loop_scheme
   \<Rightarrow> ((exn + unit) \<times> ('cb, 'z) loop_scheme) option" where
  "run_loop env 0 w = None"
| "run_loop env (Suc fuel) w =
     (if \<not> lp_running w then Some (Inr (), w)
      else case iteration env True w of
        (Inl e, w') \<Rightarrow> Some (Inl e, w')
      | (Inr busy, w') \<Rightarrow> run_loop env fuel (if busy then w' else w'\<lparr>lp_running := False\<rparr>))"

definition loop_run ::
  "('cb, ('cb, 'z) loop_scheme) loop_env \<Rightarrow> nat \<Rightarrow> ('cb, 'z) loop_scheme
   \<Rightarrow> ((exn + unit) \<times> ('cb, 'z) loop_scheme) option" where
  "loop_run env fuel w = run_loop env fuel (w\<lparr>lp_running := True\<rparr>)"

definition quit_in ::
  "('cb, ('cb, 'z) loop_scheme) loop_env \<Rightarrow> u64 \<Rightarrow> 'cb \<Rightarrow> int \<Rightarrow> ('cb, 'z) loop_scheme \<Rightarrow> bool \<times> ('cb, 'z) loop_scheme" where
  "quit_in env rand slot wait_ms w =
     (case new_source_id rand w of (i, w1) \<Rightarrow>
      case le_now env w1 of (now, w2) \<Rightarrow>
        (False, snd (loop_connect (new_timeout_source i slot wait_ms wait_ms now) w2)))"

section \<open>Identities of sources\<close>

lemma next_counter_nonzero: "next_counter c \<noteq> 0"
  by (simp add: next_counter_def add_eq_0_iff2)

lemma make_id_nonzero: "make_id r c \<noteq> 0"
  using next_counter_nonzero [of c] by (simp add: make_id_def or_eq_0_iff)

lemma loop_connect_connected:
  "lp_id w = make_id r c \<Longrightarrow> connected (fst (loop_connect src w))"
  by (simp add: loop_connect_def connected_def make_id_nonzero)

section \<open>Timeouts\<close>

lemma to_ms_le_zero: "to_ms t \<le> 0 \<longleftrightarrow> t < 1000000"
proof -
  consider "t < 0" | "t = 0" | "t > 0" by linarith
  then show ?thesis
  proof cases
    case 1
    then have "- t div 1000000 \<ge> 0" by (simp add: pos_imp_zdiv_nonneg_iff)
    with 1 show ?thesis by (simp add: to_ms_def)
  next
    case 3
    then have "t div 1000000 \<le> 0 \<longleftrightarrow> t < 1000000" by linarith
    with 3 show ?thesis by (simp add: to_ms_def)
  qed (simp add: to_ms_def)
qed

text \<open>
  After the dispatch the next dispatch time lies in the future, on the grid of the interval, and
  no later than necessary.
\<close>

lemma catch_up_result:
  assumes "interval > 0"
  shows "\<exists>k\<ge>1. catch_up now interval t = t + int k * interval \<and>
    now < catch_up now interval t \<and> (k = 1 \<or> catch_up now interval t - interval \<le> now)"
  using assms
proof (induction now interval t rule: catch_up.induct)
  case (1 now interval t)
  show ?case
  proof (cases "now \<ge> t + interval")
    case True
    with 1 have "\<exists>k\<ge>1. catch_up now interval (t + interval) = t + interval + int k * interval \<and>
      now < catch_up now interval (t + interval) \<and>
      (k = 1 \<or> catch_up now interval (t + interval) - interval \<le> now)"
      by blast
    then obtain k :: nat where k: "k \<ge> 1"
      "catch_up now interval (t + interval) = t + interval + int k * interval"
      "now < catch_up now interval (t + interval)"
      "k = 1 \<or> catch_up now interval (t + interval) - interval \<le> now" by blast
    have eq: "catch_up now interval t = catch_up now interval (t + interval)"
      using True 1(2) by (subst catch_up.simps) (simp add: Let_def)
    have "catch_up now interval t - interval \<le> now" using k True eq by auto
    moreover have "catch_up now interval t = t + int (Suc k) * interval"
      using k(2) unfolding eq by (simp add: algebra_simps)
    ultimately show ?thesis using k(3) eq by (intro exI [of _ "Suc k"]) auto
  next
    case False
    then have "catch_up now interval t = t + interval" by (subst catch_up.simps) (simp add: Let_def)
    with False show ?thesis by (intro exI [of _ 1]) simp
  qed
qed

section \<open>Adding, removing and cleaning up\<close>

lemma connect_while_running:
  "lp_depth w \<noteq> 0 \<Longrightarrow> lp_sources (snd (loop_connect src w)) = lp_sources w"
  by (simp add: loop_connect_def)

text \<open>
  The environment is balanced when nothing it does changes the nesting depth: a slot that runs
  nested iterations leaves every one of them.
\<close>

definition balanced :: "('cb, ('cb, 'z) loop_scheme) loop_env \<Rightarrow> bool" where
  "balanced env \<longleftrightarrow>
     (\<forall>w. lp_depth (snd (le_now env w)) = lp_depth w) \<and>
     (\<forall>ps t w. lp_depth (snd (le_poll env ps t w)) = lp_depth w) \<and>
     (\<forall>t w. lp_depth (le_sleep env t w) = lp_depth w) \<and>
     (\<forall>s w. lp_depth (snd (le_timeout_slot env s w)) = lp_depth w) \<and>
     (\<forall>s fd r w. lp_depth (snd (le_io_slot env s fd r w)) = lp_depth w)"

abbreviation at_depth :: "nat \<Rightarrow> ('cb, 'z) loop_scheme \<Rightarrow> bool" where
  "at_depth d w \<equiv> lp_depth w = d"

lemma depth_free_source [simp]: "lp_depth (free_source s w) = lp_depth w"
  by (simp add: free_source_def split: source_kind.splits)

lemma depth_reset_source [simp]: "lp_depth (reset_source k w) = lp_depth w"
  by (simp add: reset_source_def split: option.splits)

lemma keeps_deref_pollfd [intro]: "keeps (at_depth d) (deref_pollfd a)"
  by (simp add: keeps_def deref_pollfd_def split: option.splits)

lemma keeps_deref_all [intro]: "keeps (at_depth d) (deref_all as)"
  by (induction as) auto

lemma balancedD:
  assumes "balanced env"
  shows "lp_depth (snd (le_now env w)) = lp_depth w"
    "lp_depth (snd (le_poll env ps t w)) = lp_depth w"
    "lp_depth (le_sleep env t w) = lp_depth w"
    "lp_depth (snd (le_timeout_slot env s w)) = lp_depth w"
    "lp_depth (snd (le_io_slot env s fd r w)) = lp_depth w"
  using assms by (simp_all add: balanced_def)

lemma depth_prepare: "balanced env \<Longrightarrow> lp_depth (snd (prepare env s w)) = lp_depth w"
  using balancedD(1) [of env w]
  by (cases "le_now env w") (simp add: prepare_def Let_def split: source_kind.splits)

lemma depth_prepare_all: "balanced env \<Longrightarrow> lp_depth (snd (prepare_all env xs t as w)) = lp_depth w"
proof (induction env xs t as w rule: prepare_all.induct)
  case (3 env s xs t as w)
  obtain u w' where p: "prepare env s w = (u, w')" by fastforce
  then have "lp_depth w' = lp_depth w" using depth_prepare [OF 3(2), of s w] by simp
  with 3 p show ?case by simp
qed simp_all

lemma keeps_wait_for: "balanced env \<Longrightarrow> keeps (at_depth d) (wait_for env t as)"
proof -
  assume bal: "balanced env"
  have 1: "keeps (at_depth d) (modify (le_sleep env t))"
    by (rule keeps_modify) (simp add: balancedD(3) [OF bal])
  have 2: "keeps (at_depth d) (\<lambda>w. case le_poll env pfds t w of
          (Some revents, w') \<Rightarrow> (Inr (), copy_back as revents w') | (None, w') \<Rightarrow> (Inr (), w'))" for pfds
  proof (rule keepsI, goal_cases)
    case (1 w)
    then show ?case
      using balancedD(2) [OF bal, of pfds t w]
      by (cases "le_poll env pfds t w") (simp add: copy_back_def split: option.splits)
  qed
  show ?thesis
    unfolding wait_for_def using 1 by (auto intro!: keeps_bnd 2)
qed

lemma keeps_check: "balanced env \<Longrightarrow> keeps (at_depth d) (check env s)"
proof (cases "so_kind s")
  case (TimeoutSource slot iv t)
  assume bal: "balanced env"
  show ?thesis
  proof (rule keepsI, goal_cases)
    case (1 w)
    then show ?case
      using balancedD(1) [OF bal, of w] by (cases "le_now env w") (simp add: check_def TimeoutSource)
  qed
qed (auto simp: check_def)

lemma keeps_dispatch: "balanced env \<Longrightarrow> keeps (at_depth d) (dispatch env k s)"
proof (cases "so_kind s")
  case (TimeoutSource slot iv t)
  assume bal: "balanced env"
  show ?thesis
  proof (rule keepsI, goal_cases)
    case (1 w)
    then show ?case
      using balancedD(1) [OF bal, of w]
      by (cases "le_now env w") (simp add: dispatch_def TimeoutSource Let_def balancedD(4) [OF bal])
  qed
next
  case (IoSource slot a)
  assume bal: "balanced env"
  have 1: "keeps (at_depth d) (le_io_slot env slot fd r)" for fd r
    by (simp add: keeps_def balancedD(5) [OF bal])
  have 2: "keeps (at_depth d) (modify (\<lambda>w. w\<lparr>lp_mem := (lp_mem w)(a \<mapsto> p)\<rparr>))" for p
    by (rule keeps_modify) simp
  show ?thesis unfolding dispatch_def IoSource by (auto intro!: keeps_bnd [OF 1] keeps_thn [OF 2] keeps_bnd)
qed

lemma keeps_dispatch_at: "balanced env \<Longrightarrow> keeps (at_depth d) (dispatch_at env k)"
proof -
  assume bal: "balanced env"
  have 1: "keeps (at_depth d) (modify (reset_source k))" by (rule keeps_modify) simp
  show ?thesis
    unfolding dispatch_at_def
    by (auto intro!: keeps_bnd [OF keeps_gets] keeps_bnd [OF keeps_check [OF bal]]
        keeps_bnd [OF keeps_dispatch [OF bal]] 1 split: option.splits if_splits)
qed

lemma iteration_clean:
  assumes bal: "balanced env" and depth: "lp_depth w = 0"
    and r: "iteration env may_block w = (Inr b, w')"
  shows "lp_depth w' = 0 \<and> None \<notin> set (lp_sources w') \<and> lp_added w' = [] \<and> (b \<longleftrightarrow> lp_sources w' \<noteq> [])"
proof -
  let ?w = "w\<lparr>lp_depth := lp_depth w + 1\<rparr>"
  obtain t as w1 where p: "prepare_all env (lp_sources ?w) (- 1) [] ?w = ((t, as), w1)"
    by (metis surj_pair)
  have d1: "lp_depth w1 = 1" using depth_prepare_all [OF bal, of "lp_sources ?w" "- 1" "[]" ?w] p depth by simp
  obtain r2 w2 where wf: "wait_for env (if may_block then t else 0) as w1 = (r2, w2)" by fastforce
  have d2: "lp_depth w2 = 1" using keepsD [OF keeps_wait_for [OF bal] d1] wf by (metis snd_conv)
  obtain r3 w3 where fe: "for_each (dispatch_at env) [0..<length (lp_sources w2)] w2 = (r3, w3)" by fastforce
  have "at_depth 1 (snd (for_each (dispatch_at env) [0..<length (lp_sources w2)] w2))"
    by (rule keepsD [OF keeps_for_each [OF keeps_dispatch_at [OF bal]]]) (rule d2)
  then have d3: "lp_depth w3 = 1" by (simp add: fe)
  have r2: "r2 = Inr ()" using r p wf by (cases r2) (simp_all add: iteration_def op_simps)
  have r3: "r3 = Inr ()" using r p wf fe r2 by (cases r3) (simp_all add: iteration_def op_simps)
  have "iteration env may_block w = (Inr (lp_sources (clean_up w3) \<noteq> []),
      (clean_up w3)\<lparr>lp_depth := lp_depth (clean_up w3) - 1\<rparr>)"
    using p wf [unfolded r2] fe [unfolded r3] by (simp add: iteration_def op_simps)
  with r have "w' = (clean_up w3)\<lparr>lp_depth := lp_depth (clean_up w3) - 1\<rparr>"
    "b \<longleftrightarrow> lp_sources (clean_up w3) \<noteq> []" by simp_all
  then show ?thesis using d3 by (auto simp: clean_up_def)
qed

text \<open>
  \<open>remove_poll\<close> leaves the pointer it was asked to remove, except when it happens to be in the
  first part.
\<close>

lemma remove_poll_eq: "remove_poll p pfds = drop (length (filter (\<lambda>q. q \<noteq> p) pfds)) pfds"
  by (simp add: remove_poll_def std_remove_def Let_def)

lemma remove_poll_last: "p \<notin> set pfds \<Longrightarrow> remove_poll p (pfds @ [p]) = [p]"
proof -
  assume "p \<notin> set pfds"
  then have "filter (\<lambda>q. q \<noteq> p) pfds = pfds" by (auto simp: filter_id_conv)
  then show ?thesis by (simp add: remove_poll_eq)
qed

text \<open>
  An \<open>IoSource\<close> whose slot removes it from the loop is used after its destruction.
\<close>

lemma dispatch_removed:
  assumes k: "so_kind src = IoSource slot a" and m: "lp_mem w a = Some p"
    and slot: "le_io_slot env slot (pf_fd p) (pf_revents p) w = (Inr b, w')" and gone: "lp_mem w' a = None"
  shows "dispatch env k src w = (Inl (Undefined ''dangling pollfd''), w')"
  using assms by (simp add: dispatch_def op_simps deref_pollfd_def)

lemma loop_remove_frees:
  assumes "find_source i (lp_sources w) 0 = Some (k, src)" "so_kind src = IoSource slot a"
    "find_source i (lp_added w) 0 = None"
  shows "lp_mem (loop_remove \<lparr>sh_source_id = i, sh_loop_id = lp_id w\<rparr> w) a = None"
  using assms by (simp add: loop_remove_def Let_def free_source_def)

end
