(* ===== verification/ECA_State.thy ===== *)
theory ECA_State
  imports ECA_Tables Etherbone Owned Event_Loop
begin

text \<open>
  The state of the event condition action unit driver: \<open>ECA\<close> (src/ECA.hpp, src/ECA.cpp) with its
  channels, the \<open>ActionSink\<close>s in them (src/ActionSink.hpp) and their conditions. The state
  extends the saftbus daemon, because conditions and sinks are service objects of its container.
\<close>

section \<open>Action sinks\<close>

datatype counter_kind = Overflow | Action | Late | Early | Conflict | Delayed

text \<open>One of the six cached counters: the count, its last update and the pending refresh.\<close>

record counter =
  ct_count :: u64
  ct_update :: int
  ct_pending :: source_handle

text \<open>
  The classes derived from \<open>ActionSink\<close>; a \<open>SoftwareActionSink\<close> knows the address of its queue.
  The conditions are a map from their numbers.
\<close>

datatype sink_kind = SoftwareActionSink u64 | WbmActionSink | SCUbusActionSink | EmbeddedCPUActionSink | Output

record action_sink =
  as_kind :: sink_kind
  as_path :: string
  as_name :: string
  as_channel :: u32
  as_num :: u32
  as_minOffset :: u64
  as_maxOffset :: u64
  as_signalRate :: int
  as_counter :: "counter_kind \<Rightarrow> counter"
  as_latency :: u64
  as_earlyThreshold :: u64
  as_capacity :: u16
  as_conditions :: "(u32 \<times> condition) list"
  as_service :: "u32 option"

section \<open>The unit\<close>

text \<open>
  Where an action sink is: channel and index in it. This stands for a pointer to the sink; with
  the number of a condition it stands for a pointer to the condition.
\<close>

type_synonym place = "nat \<times> nat"

text \<open>What the program attaches to services and to the event loop.\<close>

datatype callback =
    RemoveCondition place u32
  | RemoveSoftwareActionSink nat
  | UpdateCounter place counter_kind
  | PollReceiver

text \<open>Signals (sigc) that were emitted, in order.\<close>

datatype emitted =
    CounterSignal place counter_kind u64
  | SigAction place u32 u64 u64 u64 u64 u16
  | DestroyedSignal string

text \<open>
  \<open>ec_time\<close> is the reading of the steady clock during the current operation, \<open>ec_rand\<close> the
  values \<open>rand()\<close> will return.
\<close>

record eca = "callback bus" +
  ec_log :: "bus_op list"
  ec_loop :: "callback loop"
  ec_emitted :: "emitted list"
  ec_time :: int
  ec_rand :: "u32 list"
  ec_container :: bool
  ec_path :: string
  ec_base :: u64
  ec_channels :: u32
  ec_search_size :: u32
  ec_walker_size :: u32
  ec_max_conditions :: u32
  ec_used_conditions :: u32
  ec_queue_addresses :: "u64 list"
  ec_most_full :: "u16 list"
  ec_sinks :: "action_sink option list list"
  ec_linux :: "nat option"
  ec_linux_subchannels :: u32
  ec_sas_count :: u32
  ec_wbm_sinks :: "(string \<times> string) list"
  ec_scubus_sinks :: "(string \<times> string) list"
  ec_ecpu_sinks :: "(string \<times> string) list"

type_synonym 'a eca_op = "(eca, 'a) op"

section \<open>Registers\<close>

text \<open>src/eca_regs.h, src/eca_queue_regs.h and src/eca_flags.h.\<close>

definition ECA_CHANNELS_GET :: u64 where "ECA_CHANNELS_GET = 0x00"
definition ECA_SEARCH_CAPACITY_GET :: u64 where "ECA_SEARCH_CAPACITY_GET = 0x04"
definition ECA_WALKER_CAPACITY_GET :: u64 where "ECA_WALKER_CAPACITY_GET = 0x08"
definition ECA_LATENCY_GET :: u64 where "ECA_LATENCY_GET = 0x0c"
definition ECA_OFFSET_BITS_GET :: u64 where "ECA_OFFSET_BITS_GET = 0x10"
definition ECA_FLIP_ACTIVE_OWR :: u64 where "ECA_FLIP_ACTIVE_OWR = 0x14"
definition ECA_TIME_HI_GET :: u64 where "ECA_TIME_HI_GET = 0x18"
definition ECA_TIME_LO_GET :: u64 where "ECA_TIME_LO_GET = 0x1c"
definition ECA_SEARCH_SELECT_RW :: u64 where "ECA_SEARCH_SELECT_RW = 0x20"
definition ECA_SEARCH_RW_FIRST_RW :: u64 where "ECA_SEARCH_RW_FIRST_RW = 0x24"
definition ECA_SEARCH_RW_EVENT_HI_RW :: u64 where "ECA_SEARCH_RW_EVENT_HI_RW = 0x28"
definition ECA_SEARCH_RW_EVENT_LO_RW :: u64 where "ECA_SEARCH_RW_EVENT_LO_RW = 0x2c"
definition ECA_SEARCH_WRITE_OWR :: u64 where "ECA_SEARCH_WRITE_OWR = 0x30"
definition ECA_WALKER_SELECT_RW :: u64 where "ECA_WALKER_SELECT_RW = 0x40"
definition ECA_WALKER_RW_NEXT_RW :: u64 where "ECA_WALKER_RW_NEXT_RW = 0x44"
definition ECA_WALKER_RW_OFFSET_HI_RW :: u64 where "ECA_WALKER_RW_OFFSET_HI_RW = 0x48"
definition ECA_WALKER_RW_OFFSET_LO_RW :: u64 where "ECA_WALKER_RW_OFFSET_LO_RW = 0x4c"
definition ECA_WALKER_RW_TAG_RW :: u64 where "ECA_WALKER_RW_TAG_RW = 0x50"
definition ECA_WALKER_RW_FLAGS_RW :: u64 where "ECA_WALKER_RW_FLAGS_RW = 0x54"
definition ECA_WALKER_RW_CHANNEL_RW :: u64 where "ECA_WALKER_RW_CHANNEL_RW = 0x58"
definition ECA_WALKER_RW_NUM_RW :: u64 where "ECA_WALKER_RW_NUM_RW = 0x5c"
definition ECA_WALKER_WRITE_OWR :: u64 where "ECA_WALKER_WRITE_OWR = 0x60"
definition ECA_CHANNEL_SELECT_RW :: u64 where "ECA_CHANNEL_SELECT_RW = 0x80"
definition ECA_CHANNEL_NUM_SELECT_RW :: u64 where "ECA_CHANNEL_NUM_SELECT_RW = 0x84"
definition ECA_CHANNEL_CODE_SELECT_RW :: u64 where "ECA_CHANNEL_CODE_SELECT_RW = 0x88"
definition ECA_CHANNEL_TYPE_GET :: u64 where "ECA_CHANNEL_TYPE_GET = 0x90"
definition ECA_CHANNEL_MAX_NUM_GET :: u64 where "ECA_CHANNEL_MAX_NUM_GET = 0x94"
definition ECA_CHANNEL_CAPACITY_GET :: u64 where "ECA_CHANNEL_CAPACITY_GET = 0x98"
definition ECA_CHANNEL_MSI_SET_ENABLE_OWR :: u64 where "ECA_CHANNEL_MSI_SET_ENABLE_OWR = 0x9c"
definition ECA_CHANNEL_MSI_SET_TARGET_OWR :: u64 where "ECA_CHANNEL_MSI_SET_TARGET_OWR = 0xa4"
definition ECA_CHANNEL_MOSTFULL_ACK_GET :: u64 where "ECA_CHANNEL_MOSTFULL_ACK_GET = 0xac"
definition ECA_CHANNEL_MOSTFULL_CLEAR_GET :: u64 where "ECA_CHANNEL_MOSTFULL_CLEAR_GET = 0xb0"
definition ECA_CHANNEL_VALID_COUNT_GET :: u64 where "ECA_CHANNEL_VALID_COUNT_GET = 0xb4"
definition ECA_CHANNEL_OVERFLOW_COUNT_GET :: u64 where "ECA_CHANNEL_OVERFLOW_COUNT_GET = 0xb8"
definition ECA_CHANNEL_FAILED_COUNT_GET :: u64 where "ECA_CHANNEL_FAILED_COUNT_GET = 0xbc"
definition ECA_CHANNEL_EVENT_ID_HI_GET :: u64 where "ECA_CHANNEL_EVENT_ID_HI_GET = 0xc0"
definition ECA_CHANNEL_EVENT_ID_LO_GET :: u64 where "ECA_CHANNEL_EVENT_ID_LO_GET = 0xc4"
definition ECA_CHANNEL_PARAM_HI_GET :: u64 where "ECA_CHANNEL_PARAM_HI_GET = 0xc8"
definition ECA_CHANNEL_PARAM_LO_GET :: u64 where "ECA_CHANNEL_PARAM_LO_GET = 0xcc"
definition ECA_CHANNEL_TAG_GET :: u64 where "ECA_CHANNEL_TAG_GET = 0xd0"
definition ECA_CHANNEL_TEF_GET :: u64 where "ECA_CHANNEL_TEF_GET = 0xd4"
definition ECA_CHANNEL_DEADLINE_HI_GET :: u64 where "ECA_CHANNEL_DEADLINE_HI_GET = 0xd8"
definition ECA_CHANNEL_DEADLINE_LO_GET :: u64 where "ECA_CHANNEL_DEADLINE_LO_GET = 0xdc"
definition ECA_CHANNEL_EXECUTED_HI_GET :: u64 where "ECA_CHANNEL_EXECUTED_HI_GET = 0xe0"
definition ECA_CHANNEL_EXECUTED_LO_GET :: u64 where "ECA_CHANNEL_EXECUTED_LO_GET = 0xe4"

definition ECA_QUEUE_QUEUE_ID_GET :: u64 where "ECA_QUEUE_QUEUE_ID_GET = 0x00"
definition ECA_QUEUE_POP_OWR :: u64 where "ECA_QUEUE_POP_OWR = 0x04"
definition ECA_QUEUE_FLAGS_GET :: u64 where "ECA_QUEUE_FLAGS_GET = 0x08"
definition ECA_QUEUE_NUM_GET :: u64 where "ECA_QUEUE_NUM_GET = 0x0c"
definition ECA_QUEUE_EVENT_ID_HI_GET :: u64 where "ECA_QUEUE_EVENT_ID_HI_GET = 0x10"
definition ECA_QUEUE_EVENT_ID_LO_GET :: u64 where "ECA_QUEUE_EVENT_ID_LO_GET = 0x14"
definition ECA_QUEUE_PARAM_HI_GET :: u64 where "ECA_QUEUE_PARAM_HI_GET = 0x18"
definition ECA_QUEUE_PARAM_LO_GET :: u64 where "ECA_QUEUE_PARAM_LO_GET = 0x1c"
definition ECA_QUEUE_TAG_GET :: u64 where "ECA_QUEUE_TAG_GET = 0x20"
definition ECA_QUEUE_TEF_GET :: u64 where "ECA_QUEUE_TEF_GET = 0x24"
definition ECA_QUEUE_DEADLINE_HI_GET :: u64 where "ECA_QUEUE_DEADLINE_HI_GET = 0x28"
definition ECA_QUEUE_DEADLINE_LO_GET :: u64 where "ECA_QUEUE_DEADLINE_LO_GET = 0x2c"
definition ECA_QUEUE_EXECUTED_HI_GET :: u64 where "ECA_QUEUE_EXECUTED_HI_GET = 0x30"
definition ECA_QUEUE_EXECUTED_LO_GET :: u64 where "ECA_QUEUE_EXECUTED_LO_GET = 0x34"

definition ECA_LATE :: u8 where "ECA_LATE = 0"
definition ECA_EARLY :: u8 where "ECA_EARLY = 1"
definition ECA_CONFLICT :: u8 where "ECA_CONFLICT = 2"
definition ECA_DELAYED :: u8 where "ECA_DELAYED = 3"
definition ECA_VALID :: u8 where "ECA_VALID = 4"
definition ECA_OVERFLOW :: u8 where "ECA_OVERFLOW = 5"
definition ECA_MAX_FULL :: u8 where "ECA_MAX_FULL = 6"

definition ECA_LINUX :: u32 where "ECA_LINUX = 0"
definition ECA_WBM :: u32 where "ECA_WBM = 1"
definition ECA_EMBEDDED_CPU :: u32 where "ECA_EMBEDDED_CPU = 2"
definition ECA_SCUBUS :: u32 where "ECA_SCUBUS = 3"

section \<open>Access to the state\<close>

text \<open>A bus cycle on the device of the unit, and single accesses, which are cycles of their own.\<close>

definition cycle :: "hardware \<Rightarrow> bus_op list \<Rightarrow> u32 list eca_op" where
  "cycle hw ops = (\<lambda>w. case close_cycle hw ops (ec_log w) of (r, log) \<Rightarrow> (r, w\<lparr>ec_log := log\<rparr>))"

definition device_write :: "hardware \<Rightarrow> u64 \<Rightarrow> u32 \<Rightarrow> unit eca_op" where
  "device_write hw a d = bnd (cycle hw [BusWrite a d]) (\<lambda>_. ret ())"

definition device_read :: "hardware \<Rightarrow> u64 \<Rightarrow> u32 eca_op" where
  "device_read hw a = bnd (cycle hw [BusRead a]) (\<lambda>rs. ret (hd rs))"

definition sink_at :: "place \<Rightarrow> eca \<Rightarrow> action_sink option" where
  "sink_at p w =
     (case p of (ci, si) \<Rightarrow>
        if ci < length (ec_sinks w) \<and> si < length (ec_sinks w ! ci) then ec_sinks w ! ci ! si else None)"

definition put_sink :: "place \<Rightarrow> action_sink option \<Rightarrow> eca \<Rightarrow> eca" where
  "put_sink p s w =
     (case p of (ci, si) \<Rightarrow> w\<lparr>ec_sinks := (ec_sinks w)[ci := (ec_sinks w ! ci)[si := s]]\<rparr>)"

definition deref_sink :: "place \<Rightarrow> action_sink eca_op" where
  "deref_sink p =
     (\<lambda>w. case sink_at p w of Some s \<Rightarrow> (Inr s, w) | None \<Rightarrow> (Inl (Undefined ''dangling ActionSink*''), w))"

definition deref_condition :: "place \<Rightarrow> u32 \<Rightarrow> condition eca_op" where
  "deref_condition p n =
     bnd (deref_sink p) (\<lambda>s.
     case map_of (as_conditions s) n of
       Some c \<Rightarrow> ret c
     | None \<Rightarrow> raise (Undefined ''dangling Condition*''))"

definition modify_sink :: "place \<Rightarrow> (action_sink \<Rightarrow> action_sink) \<Rightarrow> unit eca_op" where
  "modify_sink p f = bnd (deref_sink p) (\<lambda>s. modify (put_sink p (Some (f s))))"

definition set_condition :: "u32 \<Rightarrow> (condition \<Rightarrow> condition) \<Rightarrow> action_sink \<Rightarrow> action_sink" where
  "set_condition n f s =
     s\<lparr>as_conditions := map (\<lambda>(k, c). (k, if k = n then f c else c)) (as_conditions s)\<rparr>"

definition modify_condition :: "place \<Rightarrow> u32 \<Rightarrow> (condition \<Rightarrow> condition) \<Rightarrow> unit eca_op" where
  "modify_condition p n f = modify_sink p (set_condition n f)"

definition eca_emit :: "emitted \<Rightarrow> unit eca_op" where
  "eca_emit e = modify (\<lambda>w. w\<lparr>ec_emitted := ec_emitted w @ [e]\<rparr>)"

text \<open>The \<open>Owned\<close> part of a sink and of a condition.\<close>

definition sink_owned :: "eca \<Rightarrow> action_sink \<Rightarrow> owned" where
  "sink_owned w s = \<lparr>ow_cont = ec_container w, ow_service = as_service s\<rparr>"

definition condition_owned :: "eca \<Rightarrow> condition \<Rightarrow> owned" where
  "condition_owned w c = \<lparr>ow_cont = ec_container w, ow_service = c_service c\<rparr>"

definition sink_ownerOnly :: "place \<Rightarrow> unit eca_op" where
  "sink_ownerOnly p = bnd (deref_sink p) (\<lambda>s. bnd (gets (\<lambda>w. sink_owned w s)) ownerOnly)"

text \<open>All sinks in the order of the loops over channels, and all conditions in that order.\<close>

definition sink_places :: "eca \<Rightarrow> place list" where
  "sink_places w =
     concat (map (\<lambda>ci. map (Pair ci) [0..<length (ec_sinks w ! ci)]) [0..<length (ec_sinks w)])"

definition sink_conditions :: "eca \<Rightarrow> place \<Rightarrow> (place \<times> u32) list" where
  "sink_conditions w p =
     (case sink_at p w of None \<Rightarrow> [] | Some s \<Rightarrow> map (\<lambda>(n, c). (p, n)) (as_conditions s))"

definition all_conditions :: "eca \<Rightarrow> (place \<times> u32) list" where
  "all_conditions w = concat (map (sink_conditions w) (sink_places w))"

end
