(* ===== verification/ECA.thy ===== *)
theory ECA
  imports ECA_State
begin

text \<open>
  The operations of the event condition action unit driver: \<open>ECA\<close> (src/ECA.cpp), \<open>ActionSink\<close>
  (src/ActionSink.cpp), \<open>SoftwareActionSink\<close> (src/SoftwareActionSink.cpp) and the setters of
  \<open>Condition\<close> (src/Condition.cpp).
\<close>

section \<open>Compiling the tables\<close>

text \<open>The active conditions in the order the loops of \<open>compile\<close> meet them.\<close>

definition sink_active :: "action_sink option \<Rightarrow> placed list" where
  "sink_active so =
     (case so of
        None \<Rightarrow> []
      | Some s \<Rightarrow> map (\<lambda>(n, c). (as_channel s, as_num s, c)) (filter (\<lambda>(n, c). c_active c) (as_conditions s)))"

definition active_placed :: "eca \<Rightarrow> placed list" where
  "active_placed w = concat (map (\<lambda>ch. concat (map sink_active ch)) (ec_sinks w))"

definition search_cycle :: "u64 \<Rightarrow> u32 \<Rightarrow> search_entry \<Rightarrow> bus_op list" where
  "search_cycle base i se =
     [BusWrite (base + ECA_SEARCH_SELECT_RW) i,
      BusWrite (base + ECA_SEARCH_RW_FIRST_RW) (ucast (se_index se)),
      BusWrite (base + ECA_SEARCH_RW_EVENT_HI_RW) (hi32 (se_event se)),
      BusWrite (base + ECA_SEARCH_RW_EVENT_LO_RW) (lo32 (se_event se)),
      BusWrite (base + ECA_SEARCH_WRITE_OWR) 1]"

definition walker_cycle :: "u64 \<Rightarrow> u32 \<Rightarrow> walk_entry \<Rightarrow> bus_op list" where
  "walker_cycle base i we =
     [BusWrite (base + ECA_WALKER_SELECT_RW) i,
      BusWrite (base + ECA_WALKER_RW_NEXT_RW) (ucast (we_next we)),
      BusWrite (base + ECA_WALKER_RW_OFFSET_HI_RW) (hi32 (we_offset we)),
      BusWrite (base + ECA_WALKER_RW_OFFSET_LO_RW) (lo32 (we_offset we)),
      BusWrite (base + ECA_WALKER_RW_TAG_RW) (we_tag we),
      BusWrite (base + ECA_WALKER_RW_FLAGS_RW) (ucast (we_flags we)),
      BusWrite (base + ECA_WALKER_RW_CHANNEL_RW) (we_channel we),
      BusWrite (base + ECA_WALKER_RW_NUM_RW) (we_num we),
      BusWrite (base + ECA_WALKER_WRITE_OWR) 1]"

text \<open>The last search entry is repeated to fill the table.\<close>

definition search_row :: "search_entry list \<Rightarrow> nat \<Rightarrow> search_entry" where
  "search_row search i = (if i < length search then search ! i else last search)"

definition run_cycle :: "hardware \<Rightarrow> bus_op list \<Rightarrow> unit eca_op" where
  "run_cycle hw ops = bnd (cycle hw ops) (\<lambda>_. ret ())"

definition write_search :: "hardware \<Rightarrow> u64 \<Rightarrow> search_entry list \<Rightarrow> nat \<Rightarrow> unit eca_op" where
  "write_search hw base search n =
     for_each (\<lambda>i. run_cycle hw (search_cycle base (of_nat i) (search_row search i))) [0..<n]"

definition write_walker :: "hardware \<Rightarrow> u64 \<Rightarrow> walk_entry list \<Rightarrow> unit eca_op" where
  "write_walker hw base walk =
     for_each (\<lambda>i. run_cycle hw (walker_cycle base (of_nat i) (walk ! i))) [0..<length walk]"

definition compile :: "hardware \<Rightarrow> unit eca_op" where
  "compile hw =
     bnd (gets (\<lambda>w. id_space (active_placed w))) (\<lambda>ids.
     bnd (gets ec_max_conditions) (\<lambda>mx.
     case compile_tables (unat mx) ids of
       Inl e \<Rightarrow> raise e
     | Inr (search, walk) \<Rightarrow>
         bnd (gets ec_base) (\<lambda>base.
         bnd (gets (\<lambda>w. unat (ec_search_size w))) (\<lambda>n.
         thn (write_search hw base search n)
        (thn (write_walker hw base walk)
        (thn (device_write hw (base + ECA_FLIP_ACTIVE_OWR) 1)
             (modify (\<lambda>w. w\<lparr>ec_used_conditions := of_nat (length ids div 2)\<rparr>))))))))"

definition getFree :: "eca \<Rightarrow> u32" where
  "getFree w = ec_max_conditions w - ec_used_conditions w"

section \<open>Channel status\<close>

definition updateMostFull :: "hardware \<Rightarrow> u32 \<Rightarrow> u16 eca_op" where
  "updateMostFull hw channel =
     bnd (gets (\<lambda>w. length (ec_most_full w))) (\<lambda>n.
     if unat channel \<ge> n then ret 0
     else bnd (gets ec_base) (\<lambda>base.
          bnd (cycle hw [BusWrite (base + ECA_CHANNEL_SELECT_RW) channel,
                         BusRead (base + ECA_CHANNEL_MOSTFULL_ACK_GET)]) (\<lambda>rs.
          let raw = rs ! 0; mostFull = ucast (raw AND 0xFFFF) :: u16; used = ucast (drop_bit 16 raw) :: u16
          in thn (modify (\<lambda>w. if ec_most_full w ! unat channel \<noteq> mostFull
                              then w\<lparr>ec_most_full := (ec_most_full w)[unat channel := mostFull]\<rparr> else w))
                 (ret used))))"

definition resetMostFull :: "hardware \<Rightarrow> u32 \<Rightarrow> unit eca_op" where
  "resetMostFull hw channel =
     bnd (gets (\<lambda>w. length (ec_most_full w))) (\<lambda>n.
     if unat channel \<ge> n then ret ()
     else bnd (gets ec_base) (\<lambda>base.
          run_cycle hw [BusWrite (base + ECA_CHANNEL_SELECT_RW) channel,
                        BusRead (base + ECA_CHANNEL_MOSTFULL_CLEAR_GET)]))"

text \<open>
  The accesses between \<open>cycle.open\<close> and \<open>cycle.close\<close> go to the device, not to the cycle, so each
  is a bus cycle of its own and the cycle that is closed is empty.
\<close>

definition popMissingQueue :: "hardware \<Rightarrow> u32 \<Rightarrow> u32 \<Rightarrow> unit eca_op" where
  "popMissingQueue hw channel num =
     bnd (gets ec_base) (\<lambda>base.
     thn (device_write hw (base + ECA_CHANNEL_SELECT_RW) channel)
    (thn (device_write hw (base + ECA_CHANNEL_NUM_SELECT_RW) num)
    (bnd (device_read hw (base + ECA_CHANNEL_VALID_COUNT_GET)) (\<lambda>_.
     thn (run_cycle hw [])
    (bnd (gets ec_queue_addresses) (\<lambda>qs.
     if \<not> unat channel < length qs then raise (Undefined ''queue_addresses[channel]'')
     else device_write hw (qs ! unat channel + ECA_QUEUE_POP_OWR) 1))))))"

definition setHandler :: "hardware \<Rightarrow> u32 \<Rightarrow> bool \<Rightarrow> u32 \<Rightarrow> unit eca_op" where
  "setHandler hw channel enable address =
     bnd (gets ec_base) (\<lambda>base.
     run_cycle hw [BusWrite (base + ECA_CHANNEL_SELECT_RW) channel,
                   BusWrite (base + ECA_CHANNEL_MSI_SET_ENABLE_OWR) 0,
                   BusWrite (base + ECA_CHANNEL_MSI_SET_TARGET_OWR) address,
                   BusWrite (base + ECA_CHANNEL_MSI_SET_ENABLE_OWR) (if enable then 1 else 0)])"

text \<open>\<open>ReadRawCurrentTime\<close> repeats the cycle while the high word changes; \<open>None\<close>: still changing.\<close>

fun ReadRawCurrentTime :: "nat \<Rightarrow> hardware \<Rightarrow> eca \<Rightarrow> ((exn + u64) \<times> eca) option" where
  "ReadRawCurrentTime 0 hw w = None"
| "ReadRawCurrentTime (Suc fuel) hw w =
     (case cycle hw [BusRead (ec_base w + ECA_TIME_HI_GET), BusRead (ec_base w + ECA_TIME_LO_GET),
                     BusRead (ec_base w + ECA_TIME_HI_GET)] w of
        (Inl e, w') \<Rightarrow> Some (Inl e, w')
      | (Inr rs, w') \<Rightarrow>
          if rs ! 0 \<noteq> rs ! 2 then ReadRawCurrentTime fuel hw w'
          else Some (Inr (join32 (rs ! 0) (rs ! 1)), w'))"

section \<open>Action sinks\<close>

definition fresh_counter :: "int \<Rightarrow> counter" where
  "fresh_counter now = \<lparr>ct_count = 0, ct_update = now, ct_pending = null_handle\<rparr>"

definition new_action_sink ::
  "hardware \<Rightarrow> sink_kind \<Rightarrow> string \<Rightarrow> string \<Rightarrow> u32 \<Rightarrow> u32 \<Rightarrow> action_sink eca_op" where
  "new_action_sink hw kind path name channel num =
     bnd (gets ec_base) (\<lambda>base.
     bnd (gets ec_time) (\<lambda>now.
     bnd (cycle hw
       [BusWrite (base + ECA_CHANNEL_SELECT_RW) channel,
        BusWrite (base + ECA_CHANNEL_NUM_SELECT_RW) num,
        BusRead (base + ECA_LATENCY_GET),
        BusRead (base + ECA_OFFSET_BITS_GET),
        BusRead (base + ECA_CHANNEL_CAPACITY_GET),
        BusRead (base + ECA_CHANNEL_OVERFLOW_COUNT_GET),
        BusRead (base + ECA_CHANNEL_VALID_COUNT_GET),
        BusWrite (base + ECA_CHANNEL_CODE_SELECT_RW) (ucast ECA_LATE),
        BusRead (base + ECA_CHANNEL_FAILED_COUNT_GET),
        BusWrite (base + ECA_CHANNEL_CODE_SELECT_RW) (ucast ECA_EARLY),
        BusRead (base + ECA_CHANNEL_FAILED_COUNT_GET),
        BusWrite (base + ECA_CHANNEL_CODE_SELECT_RW) (ucast ECA_CONFLICT),
        BusRead (base + ECA_CHANNEL_FAILED_COUNT_GET),
        BusWrite (base + ECA_CHANNEL_CODE_SELECT_RW) (ucast ECA_DELAYED),
        BusRead (base + ECA_CHANNEL_FAILED_COUNT_GET)]) (\<lambda>rs.
     ret \<lparr>as_kind = kind, as_path = path, as_name = name, as_channel = channel, as_num = num,
          as_minOffset = - 1000000000, as_maxOffset = 1000000000, as_signalRate = 100000000,
          as_counter = (\<lambda>_. fresh_counter now),
          as_latency = ucast (rs ! 0), as_earlyThreshold = push_bit (unat (rs ! 1)) 1,
          as_capacity = ucast (rs ! 2), as_conditions = [], as_service = None\<rparr>)))"

definition loop_remove_eca :: "source_handle \<Rightarrow> eca \<Rightarrow> eca" where
  "loop_remove_eca h w = w\<lparr>ec_loop := loop_remove h (ec_loop w)\<rparr>"

definition remove_pending :: "action_sink \<Rightarrow> eca \<Rightarrow> eca" where
  "remove_pending s w =
     fold (\<lambda>k. loop_remove_eca (ct_pending (as_counter s k))) [Overflow, Action, Late, Early, Conflict, Delayed] w"

text \<open>
  The destructor. With a container it asks the container to remove the first condition as long as
  there are conditions; removing a service object does not change the conditions of the sink. An
  exception that leaves a destructor ends the program. Two rounds are always enough.
\<close>

fun remove_conditions_loop :: "nat \<Rightarrow> string \<Rightarrow> unit eca_op" where
  "remove_conditions_loop 0 path = raise (Undefined ''loop continues'')"
| "remove_conditions_loop (Suc fuel) path =
     (\<lambda>w. case remove_object path w of
            (Inl e, w') \<Rightarrow>
              (Inl (if catchable e then Terminate ''exception in ~ActionSink'' else e), w')
          | (Inr _, w') \<Rightarrow> remove_conditions_loop fuel path w')"

definition destroy_action_sink :: "action_sink \<Rightarrow> unit eca_op" where
  "destroy_action_sink s =
     thn (modify (remove_pending s))
    (bnd (gets ec_container) (\<lambda>container.
     if container \<and> as_conditions s \<noteq> []
     then remove_conditions_loop 2 (c_objectPath (snd (hd (as_conditions s))))
     else ret ()))"

definition getAllConditions :: "action_sink \<Rightarrow> string list" where
  "getAllConditions s = map (\<lambda>(n, c). c_objectPath c) (as_conditions s)"

definition getActiveConditions :: "action_sink \<Rightarrow> string list" where
  "getActiveConditions s = map (\<lambda>(n, c). c_objectPath c) (filter (\<lambda>(n, c). c_active c) (as_conditions s))"

definition getInactiveConditions :: "action_sink \<Rightarrow> string list" where
  "getInactiveConditions s = map (\<lambda>(n, c). c_objectPath c) (filter (\<lambda>(n, c). \<not> c_active c) (as_conditions s))"

definition flip_all :: "action_sink \<Rightarrow> action_sink" where
  "flip_all s = s\<lparr>as_conditions := map (\<lambda>(n, c). (n, c\<lparr>c_active := \<not> c_active c\<rparr>)) (as_conditions s)\<rparr>"

definition sink_ToggleActive :: "hardware \<Rightarrow> place \<Rightarrow> unit eca_op" where
  "sink_ToggleActive hw p =
     thn (sink_ownerOnly p)
    (thn (modify_sink p flip_all)
         (try_catch (compile hw) (\<lambda>e. thn (modify_sink p flip_all) (raise e))))"

definition ReadFill :: "hardware \<Rightarrow> place \<Rightarrow> u16 eca_op" where
  "ReadFill hw p = bnd (deref_sink p) (\<lambda>s. updateMostFull hw (as_channel s))"

definition setMinOffset :: "place \<Rightarrow> u64 \<Rightarrow> unit eca_op" where
  "setMinOffset p val = thn (sink_ownerOnly p) (modify_sink p (\<lambda>s. s\<lparr>as_minOffset := val\<rparr>))"

definition setMaxOffset :: "place \<Rightarrow> u64 \<Rightarrow> unit eca_op" where
  "setMaxOffset p val = thn (sink_ownerOnly p) (modify_sink p (\<lambda>s. s\<lparr>as_maxOffset := val\<rparr>))"

definition setMostFull :: "hardware \<Rightarrow> place \<Rightarrow> u16 \<Rightarrow> unit eca_op" where
  "setMostFull hw p val =
     thn (sink_ownerOnly p)
    (thn (throw_if (val \<noteq> 0) (invalid_args ''can only set MostFull to 0''))
    (bnd (deref_sink p) (\<lambda>s. resetMostFull hw (as_channel s))))"

definition setSignalRate :: "place \<Rightarrow> u64 \<Rightarrow> unit eca_op" where
  "setSignalRate p val = thn (sink_ownerOnly p) (modify_sink p (\<lambda>s. s\<lparr>as_signalRate := sint val\<rparr>))"

definition counter_name :: "counter_kind \<Rightarrow> string" where
  "counter_name k =
     (case k of Overflow \<Rightarrow> ''Overflow'' | Action \<Rightarrow> ''Action'' | Late \<Rightarrow> ''Late'' | Early \<Rightarrow> ''Early''
      | Conflict \<Rightarrow> ''Conflict'' | Delayed \<Rightarrow> ''Delayed'')"

definition setCount :: "counter_kind \<Rightarrow> place \<Rightarrow> u64 \<Rightarrow> unit eca_op" where
  "setCount k p val =
     thn (sink_ownerOnly p)
    (thn (throw_if (val \<noteq> 0) (invalid_args (''can only set '' @ counter_name k @ ''Count to 0'')))
         (modify_sink p (\<lambda>s. s\<lparr>as_counter := (as_counter s)(k := (as_counter s k)\<lparr>ct_count := 0\<rparr>)\<rparr>)))"

section \<open>Counters\<close>

text \<open>Reading a count register clears it and rearms the MSI.\<close>

definition count_cycle :: "u64 \<Rightarrow> action_sink \<Rightarrow> u64 \<Rightarrow> bus_op list" where
  "count_cycle base s reg =
     [BusWrite (base + ECA_CHANNEL_SELECT_RW) (as_channel s),
      BusWrite (base + ECA_CHANNEL_NUM_SELECT_RW) (as_num s),
      BusRead (base + reg)]"

record error_record =
  er_event :: u64
  er_param :: u64
  er_deadline :: u64
  er_executed :: u64
  er_count :: u64

definition fetchError :: "hardware \<Rightarrow> action_sink \<Rightarrow> u8 \<Rightarrow> error_record eca_op" where
  "fetchError hw s code =
     bnd (gets ec_base) (\<lambda>base.
     bnd (cycle hw
       [BusWrite (base + ECA_CHANNEL_SELECT_RW) (as_channel s),
        BusWrite (base + ECA_CHANNEL_NUM_SELECT_RW) (as_num s),
        BusWrite (base + ECA_CHANNEL_CODE_SELECT_RW) (ucast code),
        BusRead (base + ECA_CHANNEL_EVENT_ID_HI_GET), BusRead (base + ECA_CHANNEL_EVENT_ID_LO_GET),
        BusRead (base + ECA_CHANNEL_PARAM_HI_GET), BusRead (base + ECA_CHANNEL_PARAM_LO_GET),
        BusRead (base + ECA_CHANNEL_TAG_GET), BusRead (base + ECA_CHANNEL_TEF_GET),
        BusRead (base + ECA_CHANNEL_DEADLINE_HI_GET), BusRead (base + ECA_CHANNEL_DEADLINE_LO_GET),
        BusRead (base + ECA_CHANNEL_EXECUTED_HI_GET), BusRead (base + ECA_CHANNEL_EXECUTED_LO_GET),
        BusRead (base + ECA_CHANNEL_FAILED_COUNT_GET)]) (\<lambda>rs.
     ret \<lparr>er_event = join32 (rs ! 0) (rs ! 1), er_param = join32 (rs ! 2) (rs ! 3),
          er_deadline = join32 (rs ! 6) (rs ! 7), er_executed = join32 (rs ! 8) (rs ! 9),
          er_count = ucast (rs ! 10)\<rparr>))"

text \<open>How many events happened since the counter was read last.\<close>

definition fetch_count :: "hardware \<Rightarrow> action_sink \<Rightarrow> counter_kind \<Rightarrow> u64 eca_op" where
  "fetch_count hw s k =
     (let plain = (\<lambda>reg. bnd (gets ec_base) (\<lambda>base.
            bnd (cycle hw (count_cycle base s reg)) (\<lambda>rs. ret (ucast (rs ! 0)))));
          failed = (\<lambda>code. bnd (fetchError hw s code) (\<lambda>r. ret (er_count r)))
      in case k of
           Overflow \<Rightarrow> plain ECA_CHANNEL_OVERFLOW_COUNT_GET
         | Action \<Rightarrow> plain ECA_CHANNEL_VALID_COUNT_GET
         | Late \<Rightarrow> failed ECA_LATE
         | Early \<Rightarrow> failed ECA_EARLY
         | Conflict \<Rightarrow> failed ECA_CONFLICT
         | Delayed \<Rightarrow> failed ECA_DELAYED)"

definition add_count :: "counter_kind \<Rightarrow> u64 \<Rightarrow> int \<Rightarrow> action_sink \<Rightarrow> action_sink" where
  "add_count k n now s =
     s\<lparr>as_counter := (as_counter s)(k := (as_counter s k)\<lparr>ct_count := ct_count (as_counter s k) + n,
                                                         ct_update := now\<rparr>)\<rparr>"

text \<open>\<open>updateOverflow\<close> and its five siblings; as slots of a timeout source they return false.\<close>

definition updateCount :: "hardware \<Rightarrow> counter_kind \<Rightarrow> place \<Rightarrow> bool eca_op" where
  "updateCount hw k p =
     bnd (deref_sink p) (\<lambda>s.
     bnd (fetch_count hw s k) (\<lambda>n.
     bnd (gets ec_time) (\<lambda>now.
     thn (modify_sink p (add_count k n now))
    (thn (eca_emit (CounterSignal p k (ct_count (as_counter s k) + n)))
         (ret False)))))"

definition getCount :: "hardware \<Rightarrow> counter_kind \<Rightarrow> place \<Rightarrow> u64 eca_op" where
  "getCount hw k p =
     bnd (updateCount hw k p) (\<lambda>_. bnd (deref_sink p) (\<lambda>s. ret (ct_count (as_counter s k))))"

section \<open>Message signalled interrupts\<close>

fun take_rand :: "u32 eca_op" where
  "take_rand w =
     (case ec_rand w of
        [] \<Rightarrow> (Inl (Undefined ''no further values of rand()''), w)
      | r # rs \<Rightarrow> (Inr r, w\<lparr>ec_rand := rs\<rparr>))"

definition connect_timeout :: "callback \<Rightarrow> int \<Rightarrow> source_handle eca_op" where
  "connect_timeout cb interval =
     bnd take_rand (\<lambda>r w.
     case new_source_id (ucast r) (ec_loop w) of (i, l1) \<Rightarrow>
     case loop_connect (new_timeout_source i cb interval interval (ec_time w)) l1 of (h, l2) \<Rightarrow>
       (Inr h, w\<lparr>ec_loop := l2\<rparr>))"

definition counter_of_code :: "u8 \<Rightarrow> counter_kind option" where
  "counter_of_code code =
     (if code = ECA_OVERFLOW then Some Overflow
      else if code = ECA_VALID then Some Action
      else if code = ECA_LATE then Some Late
      else if code = ECA_EARLY then Some Early
      else if code = ECA_CONFLICT then Some Conflict
      else if code = ECA_DELAYED then Some Delayed
      else None)"

definition set_pending :: "counter_kind \<Rightarrow> source_handle \<Rightarrow> action_sink \<Rightarrow> action_sink" where
  "set_pending k h s =
     s\<lparr>as_counter := (as_counter s)(k := (as_counter s k)\<lparr>ct_pending := h\<rparr>)\<rparr>"

definition sink_receiveMSI :: "place \<Rightarrow> u8 \<Rightarrow> unit eca_op" where
  "sink_receiveMSI p code =
     (case counter_of_code code of
        None \<Rightarrow> ret ()
      | Some k \<Rightarrow>
          bnd (deref_sink p) (\<lambda>s.
          bnd (gets ec_time) (\<lambda>time.
          thn (modify (loop_remove_eca (ct_pending (as_counter s k))))
         (let exec = ct_update (as_counter s k) + as_signalRate s;
              interval = (if exec > time then to_ms (exec - time) else 0)
          in bnd (connect_timeout (UpdateCounter p k) interval) (\<lambda>h. modify_sink p (set_pending k h))))))"

text \<open>
  \<open>SoftwareActionSink::receiveMSI\<close>: the record in front of the queue is read and popped; its tag
  is the number of the condition that matched.
\<close>

definition queue_cycle :: "u64 \<Rightarrow> bus_op list" where
  "queue_cycle queue =
     map (\<lambda>r. BusRead (queue + r))
       [ECA_QUEUE_FLAGS_GET, ECA_QUEUE_NUM_GET, ECA_QUEUE_EVENT_ID_HI_GET, ECA_QUEUE_EVENT_ID_LO_GET,
        ECA_QUEUE_PARAM_HI_GET, ECA_QUEUE_PARAM_LO_GET, ECA_QUEUE_TAG_GET, ECA_QUEUE_TEF_GET,
        ECA_QUEUE_DEADLINE_HI_GET, ECA_QUEUE_DEADLINE_LO_GET, ECA_QUEUE_EXECUTED_HI_GET,
        ECA_QUEUE_EXECUTED_LO_GET]
     @ [BusWrite (queue + ECA_QUEUE_POP_OWR) 1]"

definition software_receiveMSI :: "hardware \<Rightarrow> u64 \<Rightarrow> place \<Rightarrow> u8 \<Rightarrow> unit eca_op" where
  "software_receiveMSI hw queue p code =
     (if code = ECA_VALID then
        bnd (updateCount hw Action p) (\<lambda>_.
        bnd (cycle hw (queue_cycle queue)) (\<lambda>rs.
        bnd (deref_sink p) (\<lambda>s.
        let flags = rs ! 0; rawNum = rs ! 1;
            i = join32 (rs ! 2) (rs ! 3); param = join32 (rs ! 4) (rs ! 5); tag = rs ! 6;
            deadline = join32 (rs ! 8) (rs ! 9); executed = join32 (rs ! 10) (rs ! 11)
        in if flags AND push_bit (unat ECA_VALID) 1 = 0 then ret ()
           else if rawNum \<noteq> as_num s then ret ()
           else case map_of (as_conditions s) tag of
                  None \<Rightarrow> ret ()
                | Some c \<Rightarrow> eca_emit (SigAction p tag i param deadline executed (ucast (flags AND 0xF))))))
      else sink_receiveMSI p code)"

definition receiveMSI :: "hardware \<Rightarrow> place \<Rightarrow> u8 \<Rightarrow> unit eca_op" where
  "receiveMSI hw p code =
     bnd (deref_sink p) (\<lambda>s.
     case as_kind s of
       SoftwareActionSink queue \<Rightarrow> software_receiveMSI hw queue p code
     | _ \<Rightarrow> sink_receiveMSI p code)"

definition msiHandler :: "hardware \<Rightarrow> u32 \<Rightarrow> u32 \<Rightarrow> unit eca_op" where
  "msiHandler hw msi channel =
     (let code = drop_bit 16 msi; num = msi AND 0xFFFF
      in if code = ucast ECA_MAX_FULL then bnd (updateMostFull hw channel) (\<lambda>_. ret ())
         else bnd (gets ec_sinks) (\<lambda>chans.
           if \<not> unat channel < length chans then raise (Undefined ''ECAchannels[channel]'')
           else if unat num \<ge> length (chans ! unat channel) then ret ()
           else case chans ! unat channel ! unat num of
                  Some _ \<Rightarrow> receiveMSI hw (unat channel, unat num) (ucast code)
                | None \<Rightarrow> if code = ucast ECA_VALID then popMissingQueue hw channel num else ret ()))"

section \<open>Conditions\<close>

definition guarded_change ::
  "hardware \<Rightarrow> place \<Rightarrow> u32 \<Rightarrow> (condition \<Rightarrow> condition) \<Rightarrow> (condition \<Rightarrow> condition) \<Rightarrow> unit eca_op" where
  "guarded_change hw p n change restore =
     thn (modify_condition p n change)
         (try_catch (bnd (deref_condition p n) (\<lambda>c. if c_active c then compile hw else ret ()))
                    (\<lambda>e. thn (modify_condition p n restore) (raise e)))"

definition setID :: "hardware \<Rightarrow> place \<Rightarrow> u32 \<Rightarrow> u64 \<Rightarrow> unit eca_op" where
  "setID hw p n val =
     bnd (deref_condition p n) (\<lambda>c.
     if val = c_id c then ret ()
     else guarded_change hw p n (\<lambda>c. c\<lparr>c_id := val\<rparr>) (\<lambda>c'. c'\<lparr>c_id := c_id c\<rparr>))"

definition setMask :: "hardware \<Rightarrow> place \<Rightarrow> u32 \<Rightarrow> u64 \<Rightarrow> unit eca_op" where
  "setMask hw p n val =
     bnd (deref_condition p n) (\<lambda>c.
     if val = c_mask c then ret ()
     else guarded_change hw p n (\<lambda>c. c\<lparr>c_mask := val\<rparr>) (\<lambda>c'. c'\<lparr>c_mask := c_mask c\<rparr>))"

definition setOffset :: "hardware \<Rightarrow> place \<Rightarrow> u32 \<Rightarrow> u64 \<Rightarrow> unit eca_op" where
  "setOffset hw p n val =
     bnd (deref_condition p n) (\<lambda>c.
     if val = c_offset c then ret ()
     else guarded_change hw p n (\<lambda>c. c\<lparr>c_offset := val\<rparr>) (\<lambda>c'. c'\<lparr>c_offset := c_offset c\<rparr>))"

definition setAcceptLate :: "hardware \<Rightarrow> place \<Rightarrow> u32 \<Rightarrow> bool \<Rightarrow> unit eca_op" where
  "setAcceptLate hw p n val =
     bnd (deref_condition p n) (\<lambda>c.
     if val = c_acceptLate c then ret ()
     else guarded_change hw p n (\<lambda>c. c\<lparr>c_acceptLate := val\<rparr>) (\<lambda>c. c\<lparr>c_acceptLate := \<not> val\<rparr>))"

definition setAcceptEarly :: "hardware \<Rightarrow> place \<Rightarrow> u32 \<Rightarrow> bool \<Rightarrow> unit eca_op" where
  "setAcceptEarly hw p n val =
     bnd (deref_condition p n) (\<lambda>c.
     if val = c_acceptEarly c then ret ()
     else guarded_change hw p n (\<lambda>c. c\<lparr>c_acceptEarly := val\<rparr>) (\<lambda>c. c\<lparr>c_acceptEarly := \<not> val\<rparr>))"

definition setAcceptConflict :: "hardware \<Rightarrow> place \<Rightarrow> u32 \<Rightarrow> bool \<Rightarrow> unit eca_op" where
  "setAcceptConflict hw p n val =
     bnd (deref_condition p n) (\<lambda>c.
     if val = c_acceptConflict c then ret ()
     else guarded_change hw p n (\<lambda>c. c\<lparr>c_acceptConflict := val\<rparr>) (\<lambda>c. c\<lparr>c_acceptConflict := \<not> val\<rparr>))"

definition setAcceptDelayed :: "hardware \<Rightarrow> place \<Rightarrow> u32 \<Rightarrow> bool \<Rightarrow> unit eca_op" where
  "setAcceptDelayed hw p n val =
     bnd (deref_condition p n) (\<lambda>c.
     if val = c_acceptDelayed c then ret ()
     else guarded_change hw p n (\<lambda>c. c\<lparr>c_acceptDelayed := val\<rparr>) (\<lambda>c. c\<lparr>c_acceptDelayed := \<not> val\<rparr>))"

definition setActive :: "hardware \<Rightarrow> place \<Rightarrow> u32 \<Rightarrow> bool \<Rightarrow> unit eca_op" where
  "setActive hw p n val =
     bnd (deref_condition p n) (\<lambda>c.
     if val = c_active c then ret ()
     else thn (modify_condition p n (\<lambda>c. c\<lparr>c_active := val\<rparr>))
              (try_catch (compile hw)
                 (\<lambda>e. thn (modify_condition p n (\<lambda>c. c\<lparr>c_active := \<not> val\<rparr>)) (raise e))))"

text \<open>\<open>createConditionNumber\<close>: the next value of \<open>rand()\<close> that is not in use.\<close>

fun fresh_number :: "u32 list \<Rightarrow> (u32 \<times> condition) list \<Rightarrow> (u32 \<times> u32 list) option" where
  "fresh_number [] cs = None"
| "fresh_number (r # rs) cs = (if map_of cs r = None then Some (r, rs) else fresh_number rs cs)"

definition createConditionNumber :: "place \<Rightarrow> u32 eca_op" where
  "createConditionNumber p =
     bnd (deref_sink p) (\<lambda>s w.
     case fresh_number (ec_rand w) (as_conditions s) of
       None \<Rightarrow> (Inl (Undefined ''no further values of rand()''), w)
     | Some (n, rs) \<Rightarrow> (Inr n, w\<lparr>ec_rand := rs\<rparr>))"

text \<open>
  \<open>NewConditionHelper\<close>: \<open>tag\<close> is the tag as a function of the number (a \<open>SoftwareCondition\<close> takes
  its number), \<open>ifs\<close> the interface names of the generated service class.
\<close>

definition NewConditionHelper ::
  "hardware \<Rightarrow> string list \<Rightarrow> place \<Rightarrow> bool \<Rightarrow> u64 \<Rightarrow> u64 \<Rightarrow> u64 \<Rightarrow> (u32 \<Rightarrow> u32) \<Rightarrow> string eca_op" where
  "NewConditionHelper hw ifs p active i m offset tag =
     bnd (createConditionNumber p) (\<lambda>n.
     bnd (deref_sink p) (\<lambda>s.
     case new_condition (as_path s) (as_minOffset s) (as_maxOffset s) n active i m offset (tag n) of
       Inl e \<Rightarrow> raise e
     | Inr c \<Rightarrow>
         let path = c_objectPath c in
         bnd (gets ec_container) (\<lambda>container.
         bnd (if container
              then bnd (gets bs_calling) (\<lambda>caller.
                   bnd (create_object path (set_owner caller (new_service ifs (Some (RemoveCondition p n)) True)))
                       (\<lambda>sid. ret (c\<lparr>c_service := Some sid\<rparr>)))
              else ret c) (\<lambda>c.
         thn (modify_sink p (\<lambda>s. s\<lparr>as_conditions := omap_insert n c (as_conditions s)\<rparr>))
        (thn (if active then compile hw else ret ())
             (ret path))))))"

definition software_NewCondition ::
  "hardware \<Rightarrow> string list \<Rightarrow> place \<Rightarrow> bool \<Rightarrow> u64 \<Rightarrow> u64 \<Rightarrow> u64 \<Rightarrow> string eca_op" where
  "software_NewCondition hw ifs p active i m offset =
     thn (sink_ownerOnly p) (NewConditionHelper hw ifs p active i m offset (\<lambda>n. n))"

text \<open>\<open>removeCondition\<close>, the destruction callback of a condition. A failing compile is swallowed.\<close>

definition removeCondition :: "hardware \<Rightarrow> place \<Rightarrow> u32 \<Rightarrow> unit eca_op" where
  "removeCondition hw p n =
     bnd (deref_condition p n) (\<lambda>c.
     thn (eca_emit (DestroyedSignal (c_objectPath c)))
    (thn (modify_condition p n (\<lambda>c. c\<lparr>c_service := None\<rparr>))
    (thn (modify_sink p (\<lambda>s. s\<lparr>as_conditions := omap_erase n (as_conditions s)\<rparr>))
         (try_catch (if c_active c then compile hw else ret ()) (\<lambda>e. ret ())))))"

section \<open>Groups of conditions\<close>

text \<open>\<open>caller\<close> is empty without a container and the calling client's id as a string with one.\<close>

definition caller_name :: "eca \<Rightarrow> string" where
  "caller_name w = (if ec_container w then show_int (bs_calling w) else [])"

definition of_caller :: "string \<Rightarrow> place \<Rightarrow> u32 \<Rightarrow> bool eca_op" where
  "of_caller caller p n =
     (if caller = [] then ret True
      else bnd (deref_condition p n) (\<lambda>c.
           bnd (gets (\<lambda>w. condition_owned w c)) (\<lambda>o'.
           bnd (getOwner o') (\<lambda>owner. ret (owner = caller)))))"

definition toggle_conditions :: "string \<Rightarrow> unit eca_op" where
  "toggle_conditions caller =
     bnd (gets all_conditions) (\<lambda>cs.
     for_each (\<lambda>(p, n). bnd (of_caller caller p n) (\<lambda>mine.
       if mine then modify_condition p n (\<lambda>c. c\<lparr>c_active := \<not> c_active c\<rparr>) else ret ())) cs)"

definition eca_ToggleActive :: "hardware \<Rightarrow> unit eca_op" where
  "eca_ToggleActive hw =
     bnd (gets caller_name) (\<lambda>caller.
     thn (toggle_conditions caller)
         (try_catch (compile hw) (\<lambda>e. toggle_conditions caller)))"

text \<open>Deactivates the conditions of the caller; the result are those that were active.\<close>

fun deactivate_conditions :: "string \<Rightarrow> (place \<times> u32) list \<Rightarrow> (place \<times> u32) list eca_op" where
  "deactivate_conditions caller [] = ret []"
| "deactivate_conditions caller ((p, n) # cs) =
     bnd (of_caller caller p n) (\<lambda>mine.
     if mine
     then bnd (deref_condition p n) (\<lambda>c.
          thn (modify_condition p n (\<lambda>c. c\<lparr>c_active := False\<rparr>))
         (bnd (deactivate_conditions caller cs) (\<lambda>ds.
          ret (if c_active c then (p, n) # ds else ds))))
     else deactivate_conditions caller cs)"

definition InactivateAll :: "hardware \<Rightarrow> unit eca_op" where
  "InactivateAll hw =
     bnd (gets caller_name) (\<lambda>caller.
     bnd (gets all_conditions) (\<lambda>cs.
     bnd (deactivate_conditions caller cs) (\<lambda>deactivated.
     try_catch (compile hw) (\<lambda>e.
       for_each (\<lambda>(p, n). modify_condition p n (\<lambda>c. c\<lparr>c_active := True\<rparr>)) deactivated))))"

section \<open>Software action sinks\<close>

definition linux_sinks :: "eca \<Rightarrow> action_sink option list" where
  "linux_sinks w = (case ec_linux w of None \<Rightarrow> [] | Some ci \<Rightarrow> ec_sinks w ! ci)"

definition getSoftwareActionSinks :: "eca \<Rightarrow> (string \<times> string) list" where
  "getSoftwareActionSinks w =
     fold (\<lambda>so m. case so of None \<Rightarrow> m | Some s \<Rightarrow> omap_put (as_name s) (as_path s) m) (linux_sinks w) []"

fun first_free :: "action_sink option list \<Rightarrow> nat" where
  "first_free [] = 0"
| "first_free (s # ss) = (if s = None then 0 else Suc (first_free ss))"

definition is_alnum :: "char \<Rightarrow> bool" where
  "is_alnum ch \<longleftrightarrow> ch \<in> set ''abcdefghijklmnopqrstuvwxyzABCDEFGHIJKLMNOPQRSTUVWXYZ0123456789_''"

text \<open>The name of a new sink: given by the client, or a sequence number after an underscore.\<close>

definition sink_name :: "string \<Rightarrow> string eca_op" where
  "sink_name name =
     (if name = [] then
        thn (modify (\<lambda>w. w\<lparr>ec_sas_count := ec_sas_count w + 1\<rparr>))
            (gets (\<lambda>w. ''_'' @ show_nat (unat (ec_sas_count w))))
      else thn (throw_if (hd name = CHR ''_'') (invalid_args ''Invalid name; leading _ is reserved''))
          (thn (throw_if (\<not> list_all is_alnum name) (invalid_args ''Invalid name; [a-zA-Z0-9_] only''))
          (bnd (gets getSoftwareActionSinks) (\<lambda>sinks.
           thn (throw_if (map_of sinks name \<noteq> None) (invalid_args ''Name already in use''))
               (ret name)))))"

definition NewSoftwareActionSink :: "hardware \<Rightarrow> string list \<Rightarrow> string \<Rightarrow> string eca_op" where
  "NewSoftwareActionSink hw ifs nm =
     bnd (gets ec_linux) (\<lambda>linux.
     case linux of
       None \<Rightarrow> raise (invalid_args ''ECA has no available linux-facing queues'')
     | Some ci \<Rightarrow>
         bnd (gets (\<lambda>w. first_free (linux_sinks w))) (\<lambda>num.
         bnd (gets ec_linux_subchannels) (\<lambda>subchannels.
         thn (throw_if (num \<ge> unat subchannels)
               (invalid_args ''All available Linux facing ECA subchannels are already in use''))
        (bnd (sink_name nm) (\<lambda>name.
         bnd (gets ec_queue_addresses) (\<lambda>qs.
         if \<not> ci < length qs then raise (Undefined ''queue_addresses[channel]'')
         else bnd (gets (\<lambda>w. ec_path w @ ''/software/'' @ name)) (\<lambda>path.
              bnd (new_action_sink hw (SoftwareActionSink (qs ! ci)) path name (of_nat ci) (of_nat num)) (\<lambda>s.
              bnd (gets ec_container) (\<lambda>container.
              bnd (if container
                   then bnd (gets bs_calling) (\<lambda>caller.
                        bnd (create_object path
                               (set_owner caller (new_service ifs (Some (RemoveSoftwareActionSink num)) True)))
                            (\<lambda>sid. ret (s\<lparr>as_service := Some sid\<rparr>)))
                   else ret s) (\<lambda>s.
              thn (modify (put_sink (ci, num) (Some s)))
                  (ret path)))))))))))"

text \<open>\<open>removeSowftwareActionSink\<close>, the destruction callback of a software action sink.\<close>

definition removeSowftwareActionSink :: "hardware \<Rightarrow> nat \<Rightarrow> unit eca_op" where
  "removeSowftwareActionSink hw slot =
     bnd (gets ec_linux) (\<lambda>linux.
     case linux of
       None \<Rightarrow> raise (Undefined ''ECA_LINUX_channel'')
     | Some ci \<Rightarrow>
         bnd (deref_sink (ci, slot)) (\<lambda>s.
         thn (eca_emit (DestroyedSignal (as_path s)))
        (thn (modify_sink (ci, slot) (\<lambda>s. s\<lparr>as_service := None\<rparr>))
        (thn (destroy_action_sink s)
        (thn (modify (put_sink (ci, unat (as_num s)) None))
             (compile hw))))))"

definition getSoftwareActionSink :: "string \<Rightarrow> place eca_op" where
  "getSoftwareActionSink path =
     (\<lambda>w. case ec_linux w of
            None \<Rightarrow> (Inl (Undefined ''ECA_LINUX_channel''), w)
          | Some ci \<Rightarrow>
              (case filter (\<lambda>si. case linux_sinks w ! si of None \<Rightarrow> False | Some s \<Rightarrow> as_path s = path)
                      [0..<length (linux_sinks w)] of
                 [] \<Rightarrow> (Inl (invalid_args ''no such SoftwareActionSink''), w)
               | si # _ \<Rightarrow> (Inr (ci, si), w)))"

definition addActionSink :: "int \<Rightarrow> action_sink \<Rightarrow> bool eca_op" where
  "addActionSink channel s =
     bnd (gets (\<lambda>w. length (ec_sinks w))) (\<lambda>n.
     thn (assert_that (channel \<ge> 0 \<and> channel < int n) ''channel >= 0 && channel < ECAchannels.size()'')
    (thn (modify (\<lambda>w. w\<lparr>ec_sinks := (ec_sinks w)[nat channel := ec_sinks w ! nat channel @ [Some s]]\<rparr>))
         (ret True)))"

text \<open>What the destruction callbacks of the unit do.\<close>

fun run_callback :: "hardware \<Rightarrow> callback \<Rightarrow> unit eca_op" where
  "run_callback hw (RemoveCondition p n) = removeCondition hw p n"
| "run_callback hw (RemoveSoftwareActionSink slot) = removeSowftwareActionSink hw slot"
| "run_callback hw (UpdateCounter p k) = ret ()"
| "run_callback hw PollReceiver = ret ()"

end
