(* ===== verification/ECA_Hardware.thy ===== *)
theory ECA_Hardware
  imports ECA
begin

text \<open>
  The register interface of the unit as src/eca_regs.h documents it, and that \<open>ECA::compile\<close>
  programs it correctly: after a successful compile the active tables of the hardware select, for
  every event, exactly the actions of the active conditions.
\<close>

section \<open>The documented behaviour of the registers\<close>

text \<open>
  Scratch registers, the inactive and the active pair of tables. A write to another register does
  not concern the tables.
\<close>

record eca_unit =
  hu_search_select :: u16
  hu_first :: u16
  hu_event_hi :: u32
  hu_event_lo :: u32
  hu_walker_select :: u16
  hu_next :: u16
  hu_offset_hi :: u32
  hu_offset_lo :: u32
  hu_tag :: u32
  hu_flags :: u8
  hu_channel :: u32
  hu_num :: u32
  hu_search :: "u16 \<Rightarrow> search_entry"
  hu_walker :: "u16 \<Rightarrow> walk_entry"
  hu_active_search :: "u16 \<Rightarrow> search_entry"
  hu_active_walker :: "u16 \<Rightarrow> walk_entry"

definition register_write :: "u64 \<Rightarrow> u32 \<Rightarrow> eca_unit \<Rightarrow> eca_unit" where
  "register_write r d u =
     (if r = ECA_SEARCH_SELECT_RW then u\<lparr>hu_search_select := ucast d\<rparr>
      else if r = ECA_SEARCH_RW_FIRST_RW then u\<lparr>hu_first := ucast d\<rparr>
      else if r = ECA_SEARCH_RW_EVENT_HI_RW then u\<lparr>hu_event_hi := d\<rparr>
      else if r = ECA_SEARCH_RW_EVENT_LO_RW then u\<lparr>hu_event_lo := d\<rparr>
      else if r = ECA_SEARCH_WRITE_OWR then
        u\<lparr>hu_search := (hu_search u)(hu_search_select u :=
             \<lparr>se_event = join32 (hu_event_hi u) (hu_event_lo u), se_index = hu_first u\<rparr>)\<rparr>
      else if r = ECA_WALKER_SELECT_RW then u\<lparr>hu_walker_select := ucast d\<rparr>
      else if r = ECA_WALKER_RW_NEXT_RW then u\<lparr>hu_next := ucast d\<rparr>
      else if r = ECA_WALKER_RW_OFFSET_HI_RW then u\<lparr>hu_offset_hi := d\<rparr>
      else if r = ECA_WALKER_RW_OFFSET_LO_RW then u\<lparr>hu_offset_lo := d\<rparr>
      else if r = ECA_WALKER_RW_TAG_RW then u\<lparr>hu_tag := d\<rparr>
      else if r = ECA_WALKER_RW_FLAGS_RW then u\<lparr>hu_flags := ucast d\<rparr>
      else if r = ECA_WALKER_RW_CHANNEL_RW then u\<lparr>hu_channel := d\<rparr>
      else if r = ECA_WALKER_RW_NUM_RW then u\<lparr>hu_num := d\<rparr>
      else if r = ECA_WALKER_WRITE_OWR then
        u\<lparr>hu_walker := (hu_walker u)(hu_walker_select u :=
             \<lparr>we_next = hu_next u, we_offset = join32 (hu_offset_hi u) (hu_offset_lo u), we_tag = hu_tag u,
              we_flags = hu_flags u, we_channel = hu_channel u, we_num = hu_num u\<rparr>)\<rparr>
      else if r = ECA_FLIP_ACTIVE_OWR then
        u\<lparr>hu_search := hu_active_search u, hu_walker := hu_active_walker u,
          hu_active_search := hu_search u, hu_active_walker := hu_walker u\<rparr>
      else u)"

fun replay :: "u64 \<Rightarrow> bus_op list \<Rightarrow> eca_unit \<Rightarrow> eca_unit" where
  "replay base [] u = u"
| "replay base (BusWrite a d # ops) u = replay base ops (register_write (a - base) d u)"
| "replay base (BusRead a # ops) u = replay base ops u"

lemmas register_offsets =
  ECA_SEARCH_SELECT_RW_def ECA_SEARCH_RW_FIRST_RW_def ECA_SEARCH_RW_EVENT_HI_RW_def
  ECA_SEARCH_RW_EVENT_LO_RW_def ECA_SEARCH_WRITE_OWR_def ECA_WALKER_SELECT_RW_def
  ECA_WALKER_RW_NEXT_RW_def ECA_WALKER_RW_OFFSET_HI_RW_def ECA_WALKER_RW_OFFSET_LO_RW_def
  ECA_WALKER_RW_TAG_RW_def ECA_WALKER_RW_FLAGS_RW_def ECA_WALKER_RW_CHANNEL_RW_def
  ECA_WALKER_RW_NUM_RW_def ECA_WALKER_WRITE_OWR_def ECA_FLIP_ACTIVE_OWR_def

text \<open>The tables the hardware works with, up to their sizes.\<close>

definition table_of :: "(u16 \<Rightarrow> 'a) \<Rightarrow> nat \<Rightarrow> 'a list" where
  "table_of f n = map (\<lambda>i. f (of_nat i)) [0..<n]"

definition hw_match :: "eca_unit \<Rightarrow> nat \<Rightarrow> nat \<Rightarrow> u64 \<Rightarrow> walk_entry list option" where
  "hw_match u n m e = eca_match (table_of (hu_active_search u) n) (table_of (hu_active_walker u) m) e"

section \<open>The writes of a compile\<close>

lemma run_cycle_Inr:
  "run_cycle hw ops w = (Inr x, w') \<Longrightarrow> w' = w\<lparr>ec_log := ec_log w @ ops\<rparr>"
  by (auto simp: run_cycle_def cycle_def op_simps close_cycle_def split: option.splits)

lemma for_each_run_cycle:
  "for_each (\<lambda>i. run_cycle hw (f i)) xs w = (Inr x, w') \<Longrightarrow>
   w' = w\<lparr>ec_log := ec_log w @ concat (map f xs)\<rparr>"
proof (induction xs arbitrary: w)
  case (Cons i xs)
  then obtain w1 where "run_cycle hw (f i) w = (Inr (), w1)"
    and "for_each (\<lambda>i. run_cycle hw (f i)) xs w1 = (Inr x, w')"
    by (auto simp: thn_def bnd_eq_Inr)
  with Cons.IH [of w1] run_cycle_Inr [of hw "f i" w "()" w1] show ?case by simp
qed (simp add: op_simps)

definition compile_ops :: "u64 \<Rightarrow> nat \<Rightarrow> search_entry list \<Rightarrow> walk_entry list \<Rightarrow> bus_op list" where
  "compile_ops base n search walk =
     concat (map (\<lambda>i. search_cycle base (of_nat i) (search_row search i)) [0..<n])
     @ concat (map (\<lambda>i. walker_cycle base (of_nat i) (walk ! i)) [0..<length walk])
     @ [BusWrite (base + ECA_FLIP_ACTIVE_OWR) 1]"

lemma compile_Inr:
  assumes "compile hw w = (Inr (), w')"
  obtains search walk where
    "compile_tables (unat (ec_max_conditions w)) (id_space (active_placed w)) = Inr (search, walk)"
    "w' = w\<lparr>ec_log := ec_log w @ compile_ops (ec_base w) (unat (ec_search_size w)) search walk,
            ec_used_conditions := of_nat (length (id_space (active_placed w)) div 2)\<rparr>"
proof (cases "compile_tables (unat (ec_max_conditions w)) (id_space (active_placed w))")
  case (Inl e)
  with assms show ?thesis by (simp add: compile_def op_simps)
next
  case (Inr r)
  obtain search walk where r: "r = (search, walk)" by fastforce
  let ?base = "ec_base w" and ?n = "unat (ec_search_size w)"
  obtain w1 w2 w3 where 1: "write_search hw ?base search ?n w = (Inr (), w1)"
    and 2: "write_walker hw ?base walk w1 = (Inr (), w2)"
    and 3: "device_write hw (?base + ECA_FLIP_ACTIVE_OWR) 1 w2 = (Inr (), w3)"
    and 4: "w' = w3\<lparr>ec_used_conditions := of_nat (length (id_space (active_placed w)) div 2)\<rparr>"
    using assms Inr r
    by (auto simp: compile_def bnd_eq_Inr thn_def gets_def modify_def)
  have "device_write hw (?base + ECA_FLIP_ACTIVE_OWR) 1 = run_cycle hw [BusWrite (?base + ECA_FLIP_ACTIVE_OWR) 1]"
    by (simp add: device_write_def run_cycle_def)
  with 3 have 3: "w3 = w2\<lparr>ec_log := ec_log w2 @ [BusWrite (?base + ECA_FLIP_ACTIVE_OWR) 1]\<rparr>"
    using run_cycle_Inr by metis
  have "w2 = w1\<lparr>ec_log := ec_log w1 @ concat (map (\<lambda>i. walker_cycle ?base (of_nat i) (walk ! i)) [0..<length walk])\<rparr>"
    using 2 unfolding write_walker_def by (rule for_each_run_cycle)
  moreover have "w1 = w\<lparr>ec_log := ec_log w @
      concat (map (\<lambda>i. search_cycle ?base (of_nat i) (search_row search i)) [0..<?n])\<rparr>"
    using 1 unfolding write_search_def by (rule for_each_run_cycle)
  ultimately show ?thesis using that [of search walk] Inr r 3 4 by (simp add: compile_ops_def)
qed

section \<open>What the writes leave in the hardware\<close>

lemma replay_append: "replay base (xs @ ys) u = replay base ys (replay base xs u)"
  by (induction base xs u rule: replay.induct) simp_all

lemma ucast_u16 [simp]: "(ucast (ucast (x::u16) :: u32) :: u16) = x"
  by (rule bit_word_eqI) (simp add: bit_ucast_iff)

lemma ucast_u8 [simp]: "(ucast (ucast (x::u8) :: u32) :: u8) = x"
  by (rule bit_word_eqI) (simp add: bit_ucast_iff)

lemma search_entry_eta [simp]: "\<lparr>se_event = se_event s, se_index = se_index s\<rparr> = s"
  by (cases s) simp

lemma walk_entry_eta [simp]:
  "\<lparr>we_next = we_next s, we_offset = we_offset s, we_tag = we_tag s, we_flags = we_flags s,
     we_channel = we_channel s, we_num = we_num s\<rparr> = s"
  by (cases s) simp

lemma replay_search_cycle:
  "hu_search (replay base (search_cycle base i se) u) = (hu_search u)(ucast i := se)"
  "hu_walker (replay base (search_cycle base i se) u) = hu_walker u"
  by (simp_all add: search_cycle_def register_write_def register_offsets)

lemma replay_walker_cycle:
  "hu_walker (replay base (walker_cycle base i we) u) = (hu_walker u)(ucast i := we)"
  "hu_search (replay base (walker_cycle base i we) u) = hu_search u"
  by (simp_all add: walker_cycle_def register_write_def register_offsets)

lemma of_nat_inverse_u16: "i < 65536 \<Longrightarrow> unat (of_nat i :: u16) = i"
  by (simp add: unsigned_of_nat take_bit_nat_eq_self)

lemma of_nat_u16_eq: "i < 65536 \<Longrightarrow> j < 65536 \<Longrightarrow> (of_nat i :: u16) = of_nat j \<longleftrightarrow> i = j"
  by (metis of_nat_inverse_u16)

lemma ucast_of_nat_u16: "(ucast (of_nat i :: u32) :: u16) = of_nat i"
  by (simp add: unsigned_of_nat word_of_nat_eq_iff)

lemma replay_searches:
  assumes "n \<le> 65536"
  shows "(\<forall>i<n. hu_search (replay base (concat (map (\<lambda>i. search_cycle base (of_nat i) (f i)) [0..<n])) u) (of_nat i) = f i)
    \<and> hu_walker (replay base (concat (map (\<lambda>i. search_cycle base (of_nat i) (f i)) [0..<n])) u) = hu_walker u"
  using assms
proof (induction n)
  case (Suc n)
  then show ?case
    by (auto simp: replay_append replay_search_cycle ucast_of_nat_u16 of_nat_u16_eq less_Suc_eq)
qed simp

lemma replay_walkers:
  assumes "n \<le> 65536"
  shows "(\<forall>i<n. hu_walker (replay base (concat (map (\<lambda>i. walker_cycle base (of_nat i) (f i)) [0..<n])) u) (of_nat i) = f i)
    \<and> hu_search (replay base (concat (map (\<lambda>i. walker_cycle base (of_nat i) (f i)) [0..<n])) u) = hu_search u"
  using assms
proof (induction n)
  case (Suc n)
  then show ?case
    by (auto simp: replay_append replay_walker_cycle ucast_of_nat_u16 of_nat_u16_eq less_Suc_eq)
qed simp

lemma compile_ops_tables:
  assumes n: "n \<le> 65536" and m: "length walk \<le> 65536"
  shows "table_of (hu_active_search (replay base (compile_ops base n search walk) u)) n =
      map (search_row search) [0..<n]"
    "table_of (hu_active_walker (replay base (compile_ops base n search walk) u)) (length walk) = walk"
proof -
  let ?u1 = "replay base (concat (map (\<lambda>i. search_cycle base (of_nat i) (search_row search i)) [0..<n])) u"
  let ?u2 = "replay base (concat (map (\<lambda>i. walker_cycle base (of_nat i) (walk ! i)) [0..<length walk])) ?u1"
  let ?u = "replay base (compile_ops base n search walk) u"
  have "?u = register_write ECA_FLIP_ACTIVE_OWR 1 ?u2"
    by (simp add: compile_ops_def replay_append)
  then have flip: "hu_active_search ?u = hu_search ?u2" "hu_active_walker ?u = hu_walker ?u2"
    by (simp_all add: register_write_def register_offsets)
  have s: "\<forall>i<n. hu_search ?u1 (of_nat i) = search_row search i" using replay_searches [OF n] by blast
  have w: "\<forall>i<length walk. hu_walker ?u2 (of_nat i) = walk ! i" "hu_search ?u2 = hu_search ?u1"
    using replay_walkers [OF m] by blast+
  show "table_of (hu_active_search ?u) n = map (search_row search) [0..<n]"
    using s by (simp add: table_of_def flip w(2))
  have "table_of (hu_walker ?u2) (length walk) = map ((!) walk) [0..<length walk]"
    using w(1) by (simp add: table_of_def)
  then show "table_of (hu_active_walker ?u) (length walk) = walk" by (simp add: flip map_nth)
qed

text \<open>Repeating the last entry does not change the search.\<close>

lemma search_rows_pad:
  assumes "length search \<le> n" "search \<noteq> []"
  shows "map (search_row search) [0..<n] = search @ replicate (n - length search) (last search)"
proof (rule nth_equalityI)
  fix i assume "i < length (map (search_row search) [0..<n])"
  then show "map (search_row search) [0..<n] ! i = (search @ replicate (n - length search) (last search)) ! i"
    by (auto simp: search_row_def nth_append)
qed (use assms in simp)

lemma search_index_pad:
  assumes s: "search \<noteq> []" "sorted_wrt (<) (map se_event search)"
  shows "search_index (search @ replicate k (last search)) e = search_index search e"
proof (cases "se_event (last search) \<le> e")
  case True
  then have "filter (\<lambda>s. se_event s \<le> e) (search @ replicate k (last search)) =
      filter (\<lambda>s. se_event s \<le> e) search @ replicate k (last search)" by (simp add: filter_replicate)
  moreover have "last (filter (\<lambda>s. se_event s \<le> e) search) = last search"
    using True s(1) by (cases search rule: rev_cases) auto
  moreover have "filter (\<lambda>s. se_event s \<le> e) search \<noteq> []"
    using True s(1) by (cases search rule: rev_cases) auto
  ultimately show ?thesis by (cases k) (auto simp: search_index_def Let_def last_append)
next
  case False
  then show ?thesis by (simp add: search_index_def filter_replicate)
qed

section \<open>The hardware after a compile\<close>

text \<open>The configuration \<open>probeConfiguration\<close> leaves: the limit on the conditions.\<close>

definition config_ok :: "eca \<Rightarrow> bool" where
  "config_ok w \<longleftrightarrow>
     ec_max_conditions w = min (ec_search_size w div 2) (ec_walker_size w) \<and> unat (ec_search_size w) \<le> 65536"

lemma length_id_space: "length ps \<le> length (id_space ps)" "length (id_space ps) \<le> 2 * length ps"
  by (induction ps) (auto simp: id_space_def oc_records_def)

lemma compile_search_fits:
  assumes cfg: "config_ok w" and few: "length ids div 2 < unat (ec_max_conditions w)"
  shows "Suc (length ids) \<le> unat (ec_search_size w)"
proof -
  have "unat (ec_max_conditions w) \<le> unat (ec_search_size w) div 2"
    using cfg by (simp add: config_ok_def min_def unat_div word_le_nat_alt split: if_splits)
  with few show ?thesis by linarith
qed

lemma compile_tables_Inr:
  assumes c: "compile_tables mx (id_space ps) = Inr (search, walk)" and few: "length ps \<le> 32768"
  shows "length (id_space ps) div 2 < mx \<and> length walk = length ps \<and>
    length search \<le> Suc (length (id_space ps)) \<and> search \<noteq> [] \<and> sorted_wrt (<) (map se_event search) \<and>
    se_event (hd search) = 0 \<and>
    ((\<forall>p \<in> set ps. valid_condition (snd (snd p))) \<longrightarrow>
     (\<forall>e. \<exists>ws. eca_match search walk e = Some ws \<and>
       mset (map we_action ws) = mset (map placed_action (filter (placed_matches e) ps))))"
proof -
  from c have mx: "length (id_space ps) div 2 < mx" and b: "build_tables (oc_sort (id_space ps)) = Inr (search, walk)"
    by (auto simp: compile_tables_def split: if_splits)
  have len: "length (oc_sort (id_space ps)) = length (id_space ps)"
    by (metis mset_oc_sort size_mset)
  show ?thesis
  proof (rule sorted_tables_match [OF mset_oc_sort sorted_oc_sort few])
    fix s' w'
    assume "build_tables (oc_sort (id_space ps)) = Inr (s', w')"
      "length w' = length ps" "length s' \<le> Suc (length (oc_sort (id_space ps)))" "s' \<noteq> []"
      "sorted_wrt (<) (map se_event s')" "se_event (hd s') = 0"
      "(\<forall>p \<in> set ps. valid_condition (snd (snd p))) \<Longrightarrow>
       \<forall>e. \<exists>ws. eca_match s' w' e = Some ws \<and>
         mset (map we_action ws) = mset (map placed_action (filter (placed_matches e) ps))"
    with b mx len show ?thesis by auto
  qed
qed

lemma compile_hardware:
  assumes cfg: "config_ok w" and few: "length (active_placed w) \<le> 32768"
    and valid: "\<forall>p \<in> set (active_placed w). valid_condition (snd (snd p))"
    and r: "compile hw w = (Inr (), w')"
  shows "\<exists>acts. hw_match (replay (ec_base w) (drop (length (ec_log w)) (ec_log w')) u)
      (unat (ec_search_size w)) (length (active_placed w)) e = Some acts \<and>
    mset (map we_action acts) = mset (map placed_action (filter (placed_matches e) (active_placed w)))"
proof -
  let ?ps = "active_placed w" and ?n = "unat (ec_search_size w)"
  obtain search walk where c: "compile_tables (unat (ec_max_conditions w)) (id_space ?ps) = Inr (search, walk)"
    and w': "w' = w\<lparr>ec_log := ec_log w @ compile_ops (ec_base w) ?n search walk,
            ec_used_conditions := of_nat (length (id_space ?ps) div 2)\<rparr>"
    using compile_Inr [OF r] .
  note t = compile_tables_Inr [OF c few]
  have fits: "length search \<le> ?n" using compile_search_fits [OF cfg] t by (meson le_trans)
  have "?n \<le> 65536" "length walk \<le> 65536" using cfg t few by (auto simp: config_ok_def)
  note tables = compile_ops_tables [OF this, of "ec_base w" search u]
  have "eca_match (map (search_row search) [0..<?n]) walk e = eca_match search walk e"
    using search_rows_pad [OF fits] search_index_pad [of search "?n - length search" e] t
    by (simp add: eca_match_def)
  moreover have "drop (length (ec_log w)) (ec_log w') = compile_ops (ec_base w) ?n search walk"
    by (simp add: w')
  ultimately have "hw_match (replay (ec_base w) (drop (length (ec_log w)) (ec_log w')) u) ?n (length ?ps) e =
      eca_match search walk e"
    using tables t by (simp add: hw_match_def)
  with t valid show ?thesis by auto
qed

end
