(* ===== verification/ECA_Setup.thy ===== *)
theory ECA_Setup
  imports ECA_Hardware
begin

text \<open>
  Construction and destruction of the unit (src/ECA.cpp): probing the configuration, finding the
  queues and the channels, hooking up the interrupts. What the bus directory (SDB) of the device
  lists and which addresses the interrupts get are parameters.
\<close>

record directory =
  di_queues :: "u64 list"
  di_wbm :: "u64 list"
  di_scubus :: "u64 list"
  di_irq :: "u32 \<Rightarrow> u32"
  di_interfaces :: "sink_kind \<Rightarrow> string list"

text \<open>\<open>vector::resize(n, x)\<close>.\<close>

definition resize :: "nat \<Rightarrow> 'a \<Rightarrow> 'a list \<Rightarrow> 'a list" where
  "resize n x xs = take n xs @ replicate (n - length xs) x"

definition probeConfiguration :: "hardware \<Rightarrow> unit eca_op" where
  "probeConfiguration hw =
     bnd (gets ec_base) (\<lambda>base.
     bnd (cycle hw [BusRead (base + ECA_CHANNELS_GET), BusRead (base + ECA_SEARCH_CAPACITY_GET),
                    BusRead (base + ECA_WALKER_CAPACITY_GET)]) (\<lambda>rs.
     modify (\<lambda>w. w\<lparr>ec_channels := rs ! 0, ec_search_size := rs ! 1, ec_walker_size := rs ! 2,
                   ec_max_conditions := min (rs ! 1 div 2) (rs ! 2),
                   ec_queue_addresses := resize (unat (rs ! 0)) 0 (ec_queue_addresses w),
                   ec_most_full := resize (unat (rs ! 0)) 0 (ec_most_full w)\<rparr>)))"

text \<open>Queue number 0 is channel 1; the comparison is done after the increment of a 64-bit value.\<close>

definition find_queue :: "hardware \<Rightarrow> u64 \<Rightarrow> unit eca_op" where
  "find_queue hw address =
     bnd (device_read hw (address + ECA_QUEUE_QUEUE_ID_GET)) (\<lambda>raw.
     let i = ucast raw + 1 :: u64
     in bnd (gets (\<lambda>w. ucast (ec_channels w) :: u64)) (\<lambda>channels.
        if i \<ge> channels then ret ()
        else modify (\<lambda>w. w\<lparr>ec_queue_addresses := (ec_queue_addresses w)[unat i := address]\<rparr>)))"

definition queue_address :: "u32 \<Rightarrow> u64 eca_op" where
  "queue_address channel =
     bnd (gets ec_queue_addresses) (\<lambda>qs.
     if unat channel < length qs then ret (qs ! unat channel) else raise (Undefined ''queue_addresses[channel]''))"

definition push_sink :: "u32 \<Rightarrow> action_sink option \<Rightarrow> eca \<Rightarrow> eca" where
  "push_sink channel s w =
     w\<lparr>ec_sinks := (ec_sinks w)[unat channel := ec_sinks w ! unat channel @ [s]]\<rparr>"

text \<open>A sink of the hardware: the object, its service without a destruction callback, the entry.\<close>

definition create_sink :: "hardware \<Rightarrow> directory \<Rightarrow> sink_kind \<Rightarrow> string \<Rightarrow> u32 \<Rightarrow> string eca_op" where
  "create_sink hw di kind name channel =
     bnd (gets (\<lambda>w. ec_path w @ ''/'' @ name)) (\<lambda>path.
     bnd (new_action_sink hw kind path name channel 0) (\<lambda>s.
     bnd (gets ec_container) (\<lambda>container.
     bnd (if container
          then bnd (create_object path (new_service (di_interfaces di kind) None True))
                   (\<lambda>sid. ret (s\<lparr>as_service := Some sid\<rparr>))
          else ret s) (\<lambda>s.
     thn (modify (push_sink channel (Some s))) (ret path)))))"

definition embedded_cpu_queue :: "hardware \<Rightarrow> directory \<Rightarrow> u32 \<Rightarrow> u32 \<Rightarrow> unit eca_op" where
  "embedded_cpu_queue hw di channel queue_id =
     bnd (queue_address queue_id) (\<lambda>a.
     bnd (device_read hw (a + ECA_QUEUE_QUEUE_ID_GET)) (\<lambda>get_id.
     if get_id = ECA_EMBEDDED_CPU
     then bnd (create_sink hw di EmbeddedCPUActionSink ''embedded_cpu'' channel) (\<lambda>path.
          modify (\<lambda>w. w\<lparr>ec_ecpu_sinks := omap_put ''embedded_cpu'' path (ec_ecpu_sinks w)\<rparr>))
     else ret ()))"

definition prepare_linux :: "hardware \<Rightarrow> u32 \<Rightarrow> u32 \<Rightarrow> u32 \<Rightarrow> unit eca_op" where
  "prepare_linux hw channel raw_max_num raw_capacity =
     thn (for_each (\<lambda>i. bnd (queue_address channel) (\<lambda>a. device_write hw (a + ECA_QUEUE_POP_OWR) 1))
            [0..<unat raw_capacity])
    (thn (for_each (\<lambda>num. popMissingQueue hw channel (of_nat num)) [0..<unat raw_max_num])
         (modify (\<lambda>w. if ec_linux w = None
            then w\<lparr>ec_linux := Some (unat channel), ec_linux_subchannels := raw_max_num,
                   ec_sinks := (ec_sinks w)[unat channel :=
                     resize (unat raw_max_num) None (ec_sinks w ! unat channel)]\<rparr>
            else w)))"

definition prepare_channel :: "hardware \<Rightarrow> directory \<Rightarrow> u32 \<Rightarrow> unit eca_op" where
  "prepare_channel hw di channel =
     bnd (gets ec_base) (\<lambda>base.
     bnd (cycle hw [BusWrite (base + ECA_CHANNEL_SELECT_RW) channel,
                    BusRead (base + ECA_CHANNEL_TYPE_GET), BusRead (base + ECA_CHANNEL_MAX_NUM_GET),
                    BusRead (base + ECA_CHANNEL_CAPACITY_GET)]) (\<lambda>rs.
     if rs ! 0 = ECA_LINUX then prepare_linux hw channel (rs ! 1) (rs ! 2)
     else if rs ! 0 = ECA_WBM then
       (if length (di_wbm di) = 1
        then bnd (create_sink hw di WbmActionSink ''acwbm'' channel) (\<lambda>path.
             modify (\<lambda>w. w\<lparr>ec_wbm_sinks := omap_put ''acwbm'' path (ec_wbm_sinks w)\<rparr>))
        else ret ())
     else if rs ! 0 = ECA_SCUBUS then
       (if length (di_scubus di) = 1
        then bnd (create_sink hw di SCUbusActionSink ''scubus'' channel) (\<lambda>path.
             modify (\<lambda>w. w\<lparr>ec_scubus_sinks := omap_put ''scubus'' path (ec_scubus_sinks w)\<rparr>))
        else ret ())
     else if rs ! 0 = ECA_EMBEDDED_CPU then
       bnd (gets (\<lambda>w. unat (ec_channels w))) (\<lambda>n.
       for_each (\<lambda>q. embedded_cpu_queue hw di channel (of_nat q)) [1..<n])
     else ret ()))"

definition prepareChannels :: "hardware \<Rightarrow> directory \<Rightarrow> unit eca_op" where
  "prepareChannels hw di =
     thn (for_each (find_queue hw) (di_queues di))
    (thn (modify (\<lambda>w. w\<lparr>ec_sinks := resize (unat (ec_channels w)) [] (ec_sinks w), ec_linux := None\<rparr>))
    (bnd (gets (\<lambda>w. unat (ec_channels w))) (\<lambda>n.
     for_each (\<lambda>c. prepare_channel hw di (of_nat c)) [1..<n])))"

text \<open>The members before the constructor body.\<close>

definition blank_eca :: "callback bus \<Rightarrow> bool \<Rightarrow> string \<Rightarrow> u64 \<Rightarrow> bus_op list \<Rightarrow> callback loop \<Rightarrow> int \<Rightarrow> u32 list \<Rightarrow> eca" where
  "blank_eca b container path base log lp now rand =
     \<lparr>bs_objects = bs_objects b, bs_lookup = bs_lookup b, bs_removed = bs_removed b,
      bs_next_id = bs_next_id b, bs_plugins = bs_plugins b, bs_info = bs_info b,
      bs_calling = bs_calling b, bs_clients = bs_clients b,
      ec_log = log, ec_loop = lp, ec_emitted = [], ec_time = now, ec_rand = rand,
      ec_container = container, ec_path = path, ec_base = base, ec_channels = 0, ec_search_size = 0,
      ec_walker_size = 0, ec_max_conditions = 0, ec_used_conditions = 0, ec_queue_addresses = [],
      ec_most_full = [], ec_sinks = [], ec_linux = None, ec_linux_subchannels = 0, ec_sas_count = 0,
      ec_wbm_sinks = [], ec_scubus_sinks = [], ec_ecpu_sinks = []\<rparr>"

definition eca_constructor :: "hardware \<Rightarrow> directory \<Rightarrow> unit eca_op" where
  "eca_constructor hw di =
     thn (probeConfiguration hw)
    (thn (compile hw)
    (thn (prepareChannels hw di)
    (bnd (gets (\<lambda>w. unat (ec_channels w))) (\<lambda>n.
     for_each (\<lambda>c. setHandler hw (of_nat c) True (di_irq di (of_nat c))) [0..<n]))))"

text \<open>The destructor removes the service objects of the sinks; a refused removal is ignored.\<close>

fun is_saftbus_error :: "exn \<Rightarrow> bool" where
  "is_saftbus_error (SaftbusError _ _) = True"
| "is_saftbus_error _ = False"

definition eca_destructor :: "unit eca_op" where
  "eca_destructor =
     bnd (gets ec_container) (\<lambda>container.
     if \<not> container then ret ()
     else bnd (gets (\<lambda>w. filter (\<lambda>p. sink_at p w \<noteq> None) (sink_places w))) (\<lambda>ps.
          for_each (\<lambda>p.
            bnd (deref_sink p) (\<lambda>s.
            thn (eca_emit (DestroyedSignal (as_path s)))
           (thn (modify_sink p (\<lambda>s. s\<lparr>as_service := None\<rparr>))
                (try_catch (thn (remove_object (as_path s)) (ret ()))
                           (\<lambda>e. if is_saftbus_error e then ret () else raise e))))) ps))"

section \<open>The configuration after the construction\<close>

definition sizes_ok :: "eca \<Rightarrow> bool" where
  "sizes_ok w \<longleftrightarrow> ec_max_conditions w = min (ec_search_size w div 2) (ec_walker_size w)"

lemma probeConfiguration_sizes:
  "probeConfiguration hw w = (Inr x, w') \<Longrightarrow> sizes_ok w' \<and> length (ec_most_full w') = unat (ec_channels w') \<and>
   length (ec_queue_addresses w') = unat (ec_channels w')"
  by (auto simp: probeConfiguration_def op_simps cycle_def close_cycle_def sizes_ok_def resize_def
      split: option.splits)

text \<open>Nothing after the probing changes the sizes.\<close>

lemma keeps_cycle [intro]: "(\<And>w log. P w \<Longrightarrow> P (w\<lparr>ec_log := log\<rparr>)) \<Longrightarrow> keeps P (cycle hw ops)"
  by (auto simp: keeps_def cycle_def split: prod.splits)

lemma keeps_device:
  assumes "\<And>w log. P w \<Longrightarrow> P (w\<lparr>ec_log := log\<rparr>)"
  shows "keeps P (device_write hw a d)" "keeps P (device_read hw a)" "keeps P (run_cycle hw ops)"
  using assms by (auto simp: device_write_def device_read_def run_cycle_def intro!: keeps_bnd keeps_cycle)

lemma keeps_compile:
  assumes "\<And>w log. P w \<Longrightarrow> P (w\<lparr>ec_log := log\<rparr>)" "\<And>w x. P w \<Longrightarrow> P (w\<lparr>ec_used_conditions := x\<rparr>)"
  shows "keeps P (compile hw)"
  unfolding compile_def write_search_def write_walker_def
  by (intro keeps_bnd [OF keeps_gets])
    (auto intro!: keeps_thn keeps_for_each keeps_device keeps_modify keeps_bnd [OF keeps_gets] assms
      split: sum.splits)

end
