(* ===== verification/ECA_Changes.thy ===== *)
theory ECA_Changes
  imports ECA_Setup
begin

text \<open>
  Changing conditions while the tables must stay compiled: every setter first changes the
  condition and undoes the change when the compilation fails. The common part of the setters is an
  interface; each field of a condition is an instance of it.
\<close>

section \<open>Compiling does not change the conditions\<close>

text \<open>Everything but the bus history and the count of used conditions.\<close>

definition same_setup :: "eca \<Rightarrow> eca \<Rightarrow> bool" where
  "same_setup w w' \<longleftrightarrow>
     w'\<lparr>ec_log := [], ec_used_conditions := 0\<rparr> = w\<lparr>ec_log := [], ec_used_conditions := 0\<rparr>"

lemma same_setup_refl [simp]: "same_setup w w"
  by (simp add: same_setup_def)

lemma same_setup_sinks: "same_setup w w' \<Longrightarrow> ec_sinks w' = ec_sinks w"
  unfolding same_setup_def by (drule arg_cong [where f = ec_sinks]) simp

lemma compile_same_setup: "same_setup w (snd (compile hw w))"
  by (rule keepsD [OF keeps_compile]) (simp_all add: same_setup_def)

text \<open>Without a change of the tables a failed compile leaves no trace of a bus access when it fails early.\<close>

lemma compile_too_many:
  "unat (ec_max_conditions w) \<le> length (id_space (active_placed w)) div 2 \<Longrightarrow>
   compile hw w = (Inl (invalid_args ''Too many active conditions for hardware''), w)"
  by (simp add: compile_def op_simps compile_tables_def)

text \<open>The compile step itself raises nothing but that error and the failures of the bus.\<close>

lemma compile_tables_error:
  assumes "compile_tables mx (id_space ps) = Inl e" "length ps \<le> 32768"
  shows "e = invalid_args ''Too many active conditions for hardware''"
proof (cases "mx \<le> length (id_space ps) div 2")
  case True
  with assms show ?thesis by (simp add: compile_tables_def)
next
  case False
  show ?thesis
    by (rule sorted_tables_match [OF mset_oc_sort sorted_oc_sort assms(2)])
      (use assms False in \<open>auto simp: compile_tables_def\<close>)
qed

lemma cycle_Inl_catchable:
  "proper_failures hw \<Longrightarrow> cycle hw ops w = (Inl e, w') \<Longrightarrow> catchable e"
  by (fastforce simp: cycle_def close_cycle_def proper_failures_def split: option.splits)

lemma for_each_Inl:
  assumes "for_each f xs w = (Inl e, w')" "\<And>x w w'. f x w = (Inl e, w') \<Longrightarrow> P"
  shows P
  using assms(1)
proof (induction xs arbitrary: w)
  case (Cons x xs)
  then show ?case using assms(2) [of x w]
    by (cases "f x w") (auto simp: thn_def bnd_def split: sum.splits)
qed (simp add: op_simps)

lemma compile_Inl_catchable:
  assumes hw: "proper_failures hw" and few: "length (active_placed w) \<le> 32768"
    and r: "compile hw w = (Inl e, w')"
  shows "catchable e"
proof (cases "compile_tables (unat (ec_max_conditions w)) (id_space (active_placed w))")
  case (Inl x)
  with compile_tables_error [OF Inl few] r show ?thesis by (auto simp: compile_def op_simps)
next
  case (Inr t)
  have rc: "run_cycle hw ops v = (Inl e, v') \<Longrightarrow> catchable e" for ops v v'
    using cycle_Inl_catchable [OF hw] by (auto simp: run_cycle_def op_simps split: prod.splits sum.splits)
  have dw: "device_write hw a d v = (Inl e, v') \<Longrightarrow> catchable e" for a d v v'
    using cycle_Inl_catchable [OF hw] by (auto simp: device_write_def op_simps split: prod.splits sum.splits)
  obtain search walk where t: "t = (search, walk)" by fastforce
  from r Inr t show ?thesis
    by (auto simp: compile_def gets_def bnd_def thn_def modify_def write_search_def write_walker_def
        split: prod.splits sum.splits dest: dw elim: for_each_Inl rc)
qed

section \<open>One condition\<close>

definition condition_at :: "place \<Rightarrow> u32 \<Rightarrow> eca \<Rightarrow> condition option" where
  "condition_at p n w = Option.bind (sink_at p w) (\<lambda>s. map_of (as_conditions s) n)"

lemma deref_condition_eq:
  "condition_at p n w = Some c \<Longrightarrow> deref_condition p n w = (Inr c, w)"
  by (auto simp: condition_at_def deref_condition_def deref_sink_def op_simps split: option.splits bind_splits)

lemma sink_at_cong: "ec_sinks w' = ec_sinks w \<Longrightarrow> sink_at p w' = sink_at p w"
  by (cases p) (simp add: sink_at_def)

lemma sink_at_put:
  "sink_at p w = Some s \<Longrightarrow> sink_at p (put_sink p x w) = x"
  by (auto simp: sink_at_def put_sink_def split: prod.splits if_splits)

lemma put_sink_put [simp]: "put_sink p y (put_sink p x w) = put_sink p y w"
  by (cases p, cases "fst p < length (ec_sinks w)") (simp_all add: put_sink_def not_less list_update_beyond)

lemma put_sink_same: "sink_at p w = Some s \<Longrightarrow> put_sink p (Some s) w = w"
proof -
  assume "sink_at p w = Some s"
  then obtain ci si where p: "p = (ci, si)" and s: "ec_sinks w ! ci ! si = Some s"
    by (auto simp: sink_at_def split: prod.splits if_splits)
  then have "(ec_sinks w ! ci)[si := Some s] = ec_sinks w ! ci" by (metis list_update_id)
  then show ?thesis by (simp add: p put_sink_def)
qed

lemma set_condition_set [simp]: "set_condition n g (set_condition n f s) = set_condition n (\<lambda>c. g (f c)) s"
  by (simp add: set_condition_def comp_def split_def)

lemma map_of_change:
  "map_of (map (\<lambda>(k, c). (k, if k = n then f c else c)) cs) n = map_option f (map_of cs n)"
  by (induction cs) auto

lemma map_of_set_condition:
  "map_of (as_conditions (set_condition n f s)) n = map_option f (map_of (as_conditions s) n)"
  by (simp add: set_condition_def map_of_change)

lemma set_condition_id:
  assumes "map_of (as_conditions s) n = Some c" "distinct (map fst (as_conditions s))" "f c = c"
  shows "set_condition n f s = s"
proof -
  have "map (\<lambda>(k, c). (k, if k = n then f c else c)) (as_conditions s) = as_conditions s"
  proof (rule map_idI)
    fix x assume x: "x \<in> set (as_conditions s)"
    obtain k d where kd: "x = (k, d)" by fastforce
    then have "k = n \<Longrightarrow> d = c" using x assms(1,2) by (metis map_of_is_SomeI option.inject)
    then show "(case x of (k, c) \<Rightarrow> (k, if k = n then f c else c)) = x" using assms(3) by (auto simp: kd)
  qed
  then show ?thesis by (simp add: set_condition_def)
qed

text \<open>The conditions of a sink have different numbers.\<close>

definition numbers_ok :: "eca \<Rightarrow> bool" where
  "numbers_ok w \<longleftrightarrow> (\<forall>p s. sink_at p w = Some s \<longrightarrow> omap_ok (as_conditions s))"

lemma modify_condition_eq:
  "sink_at p w = Some s \<Longrightarrow>
   modify_condition p n f w = (Inr (), put_sink p (Some (set_condition n f s)) w)"
  by (simp add: modify_condition_def modify_sink_def deref_sink_def op_simps)

lemma sink_at_same_setup: "same_setup w w' \<Longrightarrow> sink_at p w' = sink_at p w"
  by (cases p) (simp add: sink_at_def same_setup_sinks)

text \<open>
  The state after a change that was undone. The second alternative keeps apart what a \<open>catch\<close>
  block does not see.
\<close>

lemma guarded_change_failed:
  assumes r: "guarded_change hw p n change restore w = (Inl e, w')"
    and c: "condition_at p n w = Some c" and ok: "numbers_ok w"
    and inv: "restore (change c) = c" and e: "catchable e"
  shows "ec_sinks w' = ec_sinks w"
proof -
  obtain s where s: "sink_at p w = Some s" and m: "map_of (as_conditions s) n = Some c"
    using c by (auto simp: condition_at_def bind_eq_Some_conv)
  have d: "distinct (map fst (as_conditions s))" 
  proof (rule omap_ok_distinct)
    show "omap_ok (as_conditions s)" using ok s unfolding numbers_ok_def by blast
  qed
  let ?w1 = "put_sink p (Some (set_condition n change s)) w"
  have s1: "sink_at p ?w1 = Some (set_condition n change s)" by (rule sink_at_put [OF s])
  then have c1: "condition_at p n ?w1 = Some (change c)"
    by (simp add: condition_at_def map_of_set_condition m)
  let ?attempt = "bnd (deref_condition p n) (\<lambda>c. if c_active c then compile hw else ret ())"
  obtain x w2 where t: "?attempt ?w1 = (x, w2)" by fastforce
  have same: "same_setup ?w1 w2"
  proof (cases "c_active (change c)")
    case True
    with t deref_condition_eq [OF c1] have "compile hw ?w1 = (x, w2)" by (simp add: bnd_def)
    then show ?thesis using compile_same_setup [of ?w1 hw] by simp
  next
    case False
    with t deref_condition_eq [OF c1] show ?thesis by (simp add: op_simps)
  qed
  have "guarded_change hw p n change restore w =
      try_catch ?attempt (\<lambda>e. thn (modify_condition p n restore) (raise e)) ?w1"
    using modify_condition_eq [OF s] by (simp add: guarded_change_def thn_def bnd_def)
  with r t e obtain y where x: "x = Inl y" "catchable y"
    and r': "thn (modify_condition p n restore) (raise y :: unit eca_op) w2 = (Inl e, w')"
    by (auto simp: try_catch_def split: sum.splits if_splits)
  have s2: "sink_at p w2 = Some (set_condition n change s)"
    using s1 sink_at_same_setup [OF same] by simp
  have "w' = put_sink p (Some (set_condition n restore (set_condition n change s))) w2"
    using r' modify_condition_eq [OF s2] by (simp add: op_simps)
  moreover have "set_condition n restore (set_condition n change s) = s"
    using set_condition_id [OF m d] inv by simp
  ultimately have "ec_sinks w' = ec_sinks (put_sink p (Some s) w2)" by simp
  also have "\<dots> = ec_sinks (put_sink p (Some s) ?w1)"
    using same_setup_sinks [OF same] by (cases p) (simp add: put_sink_def)
  also have "\<dots> = ec_sinks w" using put_sink_same [OF s] by simp
  finally show ?thesis .
qed

section \<open>The setters as instances of one interface\<close>

text \<open>
  A field of a condition with its selector and update, and a setter that skips the work when the
  value does not change, changes the field and puts the old value back when the guarded
  compilation fails.
\<close>

locale condition_field =
  fixes get :: "condition \<Rightarrow> 'v"
    and upd :: "'v \<Rightarrow> condition \<Rightarrow> condition"
    and setter :: "hardware \<Rightarrow> place \<Rightarrow> u32 \<Rightarrow> 'v \<Rightarrow> unit eca_op"
  assumes upd_get: "upd (get c) (upd v c) = c"
    and get_upd: "get (upd v c) = v"
    and setter_eq: "condition_at p n w = Some c \<Longrightarrow>
      setter hw p n v w = (if v = get c then (Inr (), w)
        else guarded_change hw p n (upd v) (upd (get c)) w)"
begin

lemma rolls_back:
  assumes "condition_at p n w = Some c" "numbers_ok w" "setter hw p n v w = (Inl e, w')" "catchable e"
  shows "ec_sinks w' = ec_sinks w"
proof -
  have "guarded_change hw p n (upd v) (upd (get c)) w = (Inl e, w')"
    using assms(3) setter_eq [OF assms(1)] by (simp split: if_splits)
  then show ?thesis using guarded_change_failed assms(1,2,4) upd_get by blast
qed

lemma sets:
  assumes c: "condition_at p n w = Some c" and r: "setter hw p n v w = (Inr (), w')"
  shows "\<exists>c'. condition_at p n w' = Some c' \<and> get c' = v \<and> c' = upd v c \<or>
    condition_at p n w' = Some c \<and> v = get c"
proof (cases "v = get c")
  case True
  with r setter_eq [OF c] have "w' = w" by simp
  with c True show ?thesis by blast
next
  case False
  obtain s where s: "sink_at p w = Some s" and m: "map_of (as_conditions s) n = Some c"
    using c by (auto simp: condition_at_def bind_eq_Some_conv)
  let ?w1 = "put_sink p (Some (set_condition n (upd v) s)) w"
  let ?attempt = "bnd (deref_condition p n) (\<lambda>c. if c_active c then compile hw else ret ())"
  have s1: "sink_at p ?w1 = Some (set_condition n (upd v) s)" by (rule sink_at_put [OF s])
  then have c1: "condition_at p n ?w1 = Some (upd v c)"
    by (simp add: condition_at_def map_of_set_condition m)
  obtain x w2 where t: "?attempt ?w1 = (x, w2)" by fastforce
  have same: "same_setup ?w1 w2"
  proof (cases "c_active (upd v c)")
    case True
    with t deref_condition_eq [OF c1] have "compile hw ?w1 = (x, w2)" by (simp add: bnd_def)
    then show ?thesis using compile_same_setup [of ?w1 hw] by simp
  next
    case False
    with t deref_condition_eq [OF c1] show ?thesis by (simp add: op_simps)
  qed
  have "try_catch ?attempt (\<lambda>e. thn (modify_condition p n (upd (get c))) (raise e)) ?w1 = (Inr (), w')"
    using r setter_eq [OF c] False modify_condition_eq [OF s]
    by (simp add: guarded_change_def thn_def bnd_def)
  with t have "w' = w2"
    by (auto simp: try_catch_def thn_def bnd_def raise_def split: sum.splits if_splits prod.splits)
  with c1 same have "condition_at p n w' = Some (upd v c)"
    by (simp add: condition_at_def sink_at_same_setup)
  then show ?thesis using get_upd by blast
qed

end

interpretation id_field: condition_field c_id "\<lambda>v. c_id_update (\<lambda>_. v)" setID
  by unfold_locales (simp_all add: setID_def bnd_def deref_condition_eq ret_def)

interpretation mask_field: condition_field c_mask "\<lambda>v. c_mask_update (\<lambda>_. v)" setMask
  by unfold_locales (simp_all add: setMask_def bnd_def deref_condition_eq ret_def)

interpretation offset_field: condition_field c_offset "\<lambda>v. c_offset_update (\<lambda>_. v)" setOffset
  by unfold_locales (simp_all add: setOffset_def bnd_def deref_condition_eq ret_def)

interpretation late_field: condition_field c_acceptLate "\<lambda>v. c_acceptLate_update (\<lambda>_. v)" setAcceptLate
  by unfold_locales (simp_all add: setAcceptLate_def bnd_def deref_condition_eq ret_def)

interpretation early_field: condition_field c_acceptEarly "\<lambda>v. c_acceptEarly_update (\<lambda>_. v)" setAcceptEarly
  by unfold_locales (simp_all add: setAcceptEarly_def bnd_def deref_condition_eq ret_def)

interpretation conflict_field: condition_field c_acceptConflict "\<lambda>v. c_acceptConflict_update (\<lambda>_. v)" setAcceptConflict
  by unfold_locales (simp_all add: setAcceptConflict_def bnd_def deref_condition_eq ret_def)

interpretation delayed_field: condition_field c_acceptDelayed "\<lambda>v. c_acceptDelayed_update (\<lambda>_. v)" setAcceptDelayed
  by unfold_locales (simp_all add: setAcceptDelayed_def bnd_def deref_condition_eq ret_def)

section \<open>A whole sink\<close>

lemma flip_flip [simp]: "flip_all (flip_all s) = s"
  by (simp add: flip_all_def comp_def split_def)

lemma sink_ToggleActive_failed:
  assumes r: "sink_ToggleActive hw p w = (Inl e, w')" and s: "sink_at p w = Some s" and e: "catchable e"
  shows "ec_sinks w' = ec_sinks w"
proof -
  obtain x w1 where o: "sink_ownerOnly p w = (x, w1)" by fastforce
  have w1: "w1 = w"
    using o s by (auto simp: sink_ownerOnly_def deref_sink_def op_simps ownerOnly_def with_service_def
        deref_service_def owner_check_def split: option.splits bool.splits if_splits)
  show ?thesis
  proof (cases x)
    case (Inl y)
    with r o w1 show ?thesis by (simp add: sink_ToggleActive_def op_simps)
  next
    case (Inr u)
    let ?w1 = "put_sink p (Some (flip_all s)) w"
    obtain y w2 where t: "compile hw ?w1 = (y, w2)" by fastforce
    have same: "same_setup ?w1 w2" using compile_same_setup [of ?w1 hw] t by simp
    have s2: "sink_at p w2 = Some (flip_all s)"
      using sink_at_put [OF s] sink_at_same_setup [OF same] by simp
    have "ec_sinks w' = ec_sinks (put_sink p (Some s) w2)"
      using r o w1 Inr s t e s2
      by (auto simp: sink_ToggleActive_def op_simps modify_sink_def deref_sink_def split: sum.splits if_splits)
    also have "\<dots> = ec_sinks (put_sink p (Some s) ?w1)"
      using same_setup_sinks [OF same] by (cases p) (simp add: put_sink_def)
    also have "\<dots> = ec_sinks w" using put_sink_same [OF s] by simp
    finally show ?thesis .
  qed
qed

text \<open>
  The destructor of a sink that belongs to a container and still has conditions ends the program:
  removing the service object of the first condition succeeds at most once, and the exception of
  the second attempt leaves the destructor.
\<close>

lemma remove_object_twice:
  assumes ok: "bus_ok w" and r: "remove_object path w = (Inr b, w')"
  shows "\<exists>msg. remove_object path w' = (Inl (invalid_args msg), w')"
proof -
  obtain i where i: "removable path i w" "w' = erase_object path i w" using r remove_object_Inr by blast
  then have "bus_ok w'" using ok by (auto simp: removable_def intro: erase_object_ok)
  moreover have "\<not> removable path j w'" for j by (simp add: i(2) removable_def erase_object_def)
  ultimately show ?thesis by (rule remove_object_refused)
qed

lemma remove_object_refused_or_done:
  assumes ok: "bus_ok w"
  shows "(\<exists>b w'. remove_object path w = (Inr b, w')) \<or> (\<exists>msg. remove_object path w = (Inl (invalid_args msg), w))"
proof (cases "\<exists>i. removable path i w")
  case True
  then show ?thesis using remove_object_Inr by blast
next
  case False
  with remove_object_refused [OF ok] show ?thesis by blast
qed

lemma bus_ok_remove_pending: "bus_ok (remove_pending s w) = bus_ok w"
  "ec_container (remove_pending s w) = ec_container w"
  by (simp_all add: remove_pending_def loop_remove_eca_def bus_ok_def)

lemma destroy_action_sink_terminates:
  assumes ok: "bus_ok w" and c: "ec_container w" and ne: "as_conditions s \<noteq> []"
  shows "\<exists>w'. destroy_action_sink s w = (Inl (Terminate ''exception in ~ActionSink''), w')"
proof -
  let ?w = "remove_pending s w" and ?path = "c_objectPath (snd (hd (as_conditions s)))"
  have ok1: "bus_ok ?w" using ok by (simp add: bus_ok_remove_pending)
  have "\<exists>w'. remove_conditions_loop 2 ?path ?w = (Inl (Terminate ''exception in ~ActionSink''), w')"
    using remove_object_refused_or_done [OF ok1, of ?path]
  proof
    assume "\<exists>b w'. remove_object ?path ?w = (Inr b, w')"
    then obtain b w' where r: "remove_object ?path ?w = (Inr b, w')" by blast
    with remove_object_twice [OF ok1 r] show ?thesis by (auto simp: numeral_2_eq_2)
  qed (auto simp: numeral_2_eq_2)
  then show ?thesis
    using c ne by (simp add: destroy_action_sink_def op_simps bus_ok_remove_pending)
qed

text \<open>Without a container the conditions go with the sink.\<close>

lemma destroy_action_sink_alone:
  "\<not> ec_container w \<or> as_conditions s = [] \<Longrightarrow> destroy_action_sink s w = (Inr (), remove_pending s w)"
  by (auto simp: destroy_action_sink_def op_simps bus_ok_remove_pending)

section \<open>A condition that does not fit\<close>

abbreviation too_many :: exn where
  "too_many \<equiv> invalid_args ''Too many active conditions for hardware''"

lemma compile_too_many_iff:
  assumes hw: "proper_failures hw" and r: "compile hw w = (Inl too_many, w')" and few: "length (active_placed w) \<le> 32768"
  shows "unat (ec_max_conditions w) \<le> length (id_space (active_placed w)) div 2 \<and> w' = w"
proof (cases "compile_tables (unat (ec_max_conditions w)) (id_space (active_placed w))")
  case (Inl x)
  have "unat (ec_max_conditions w) \<le> length (id_space (active_placed w)) div 2"
  proof (rule ccontr)
    assume "\<not> ?thesis"
    then have "compile_tables (unat (ec_max_conditions w)) (id_space (active_placed w)) =
        build_tables (oc_sort (id_space (active_placed w)))" by (simp add: compile_tables_def)
    with Inl have "build_tables (oc_sort (id_space (active_placed w))) = Inl x" by simp
    then show False
      by (rule_tac sorted_tables_match [OF mset_oc_sort sorted_oc_sort few]) simp
  qed
  moreover have "w' = w" using Inl r by (simp add: compile_def op_simps)
  ultimately show ?thesis by blast
next
  case (Inr t)
  have cyc: "cycle hw ops v = (Inl y, v') \<Longrightarrow> y \<noteq> too_many" for ops v v' y
    using hw by (fastforce simp: cycle_def close_cycle_def proper_failures_def split: option.splits)
  have rc: "run_cycle hw ops v = (Inl too_many, v') \<Longrightarrow> False" for ops v v'
    using cyc by (auto simp: run_cycle_def op_simps split: prod.splits sum.splits)
  have dw: "device_write hw a d v = (Inl too_many, v') \<Longrightarrow> False" for a d v v'
    using cyc by (auto simp: device_write_def op_simps split: prod.splits sum.splits)
  obtain search walk where t: "t = (search, walk)" by fastforce
  from r Inr t have False
    by (auto simp: compile_def gets_def bnd_def thn_def modify_def write_search_def write_walker_def
        split: prod.splits sum.splits dest: dw elim: for_each_Inl rc)
  then show ?thesis ..
qed

lemma create_object_eca:
  fixes w :: eca
  assumes "create_object path sv w = (Inr i, w')"
  shows "ec_sinks w' = ec_sinks w \<and> ec_container w' = ec_container w"
  using assms
  by (auto simp: create_object_cases split: if_splits option.splits simp del: next_free_id.simps add_2_eq_Suc')

text \<open>Up to the compilation: the new condition is in the sink.\<close>

definition attach_service ::
  "string list \<Rightarrow> place \<Rightarrow> u32 \<Rightarrow> condition \<Rightarrow> condition eca_op" where
  "attach_service ifs p n c =
     bnd (gets ec_container) (\<lambda>container.
     if container
     then bnd (gets bs_calling) (\<lambda>caller.
          bnd (create_object (c_objectPath c) (set_owner caller (new_service ifs (Some (RemoveCondition p n)) True)))
              (\<lambda>sid. ret (c\<lparr>c_service := Some sid\<rparr>)))
     else ret c)"

lemma attach_service_Inr:
  assumes "attach_service ifs p n c w = (Inr c', w')"
  shows "ec_sinks w' = ec_sinks w \<and> c_active c' = c_active c"
proof (cases "ec_container w")
  case False
  with assms show ?thesis by (simp add: attach_service_def op_simps)
next
  case True
  let ?m = "create_object (c_objectPath c) (set_owner (bs_calling w) (new_service ifs (Some (RemoveCondition p n)) True))"
  obtain x w1 where m: "?m w = (x, w1)" by fastforce
  with assms True obtain sid where "x = Inr sid" "w' = w1" "c' = c\<lparr>c_service := Some sid\<rparr>"
    by (cases x) (auto simp: attach_service_def op_simps)
  with m create_object_eca show ?thesis by simp
qed

lemma attach_service_Inl: "attach_service ifs p n c w = (Inl e, w') \<Longrightarrow> e = Undefined ''endless loop: no free object id''"
  by (auto simp: attach_service_def op_simps create_object_cases split: if_splits option.splits
      simp del: next_free_id.simps add_2_eq_Suc')

lemma NewConditionHelper_eq:
  assumes s: "sink_at p w = Some s" and n: "fresh_number (ec_rand w) (as_conditions s) = Some (n, rs)"
    and c: "new_condition (as_path s) (as_minOffset s) (as_maxOffset s) n active i m off (tag n) = Inr c"
  shows "NewConditionHelper hw ifs p active i m off tag w =
    bnd (attach_service ifs p n c) (\<lambda>c'.
      thn (modify_sink p (\<lambda>s. s\<lparr>as_conditions := omap_insert n c' (as_conditions s)\<rparr>))
     (thn (if active then compile hw else ret ()) (ret (c_objectPath c)))) (w\<lparr>ec_rand := rs\<rparr>)"
proof -
  have s': "sink_at p (w\<lparr>ec_rand := rs\<rparr>) = Some s" 
    using s sink_at_cong [of "w\<lparr>ec_rand := rs\<rparr>" w p] by simp
  have 1: "createConditionNumber p w = (Inr n, w\<lparr>ec_rand := rs\<rparr>)"
    using s n by (simp add: createConditionNumber_def bnd_def deref_sink_def)
  have 2: "deref_sink p (w\<lparr>ec_rand := rs\<rparr>) = (Inr s, w\<lparr>ec_rand := rs\<rparr>)"
    using s' by (simp add: deref_sink_def)
  have b1: "bnd (createConditionNumber p) f w = f n (w\<lparr>ec_rand := rs\<rparr>)" for f :: "u32 \<Rightarrow> 'b eca_op"
    using 1 by (rule bnd_Inr)
  have b2: "bnd (deref_sink p) f (w\<lparr>ec_rand := rs\<rparr>) = f s (w\<lparr>ec_rand := rs\<rparr>)" for f :: "action_sink \<Rightarrow> 'b eca_op"
    using 2 by (rule bnd_Inr)
  show ?thesis
    unfolding NewConditionHelper_def b1 b2 c attach_service_def Let_def
    by (simp add: bnd_def gets_def ret_def split: prod.splits sum.splits)
qed

lemma fresh_number_unused: "fresh_number rs cs = Some (n, rs') \<Longrightarrow> map_of cs n = None"
  by (induction rs cs rule: fresh_number.induct) (auto split: if_splits)

lemma new_condition_inserted:
  assumes s: "sink_at p w = Some s" and n: "fresh_number (ec_rand w) (as_conditions s) = Some (n, rs)"
    and c: "new_condition (as_path s) (as_minOffset s) (as_maxOffset s) n active i m off (tag n) = Inr c"
    and ok: "numbers_ok w"
    and r: "NewConditionHelper hw ifs p active i m off tag w = (x, w')"
    and x: "x \<noteq> Inl (Undefined ''endless loop: no free object id'')"
  shows "\<exists>w2 c'. condition_at p n w2 = Some c' \<and> c_active c' = c_active c \<and>
    (if active then compile hw w2 = (map_sum id (\<lambda>_. ()) x, w') else w' = w2 \<and> x = Inr (c_objectPath c))"
proof -
  let ?w0 = "w\<lparr>ec_rand := rs\<rparr>"
  have okc: "omap_ok (as_conditions s)" using ok s unfolding numbers_ok_def by blast
  obtain y w1 where a: "attach_service ifs p n c ?w0 = (y, w1)" by fastforce
  show ?thesis
  proof (cases y)
    case (Inl e)
    with a r x NewConditionHelper_eq [where hw = hw and ifs = ifs and tag = tag, OF s n c]
    show ?thesis using attach_service_Inl by (auto simp: bnd_def)
  next
    case (Inr c')
    with a attach_service_Inr have sinks: "ec_sinks w1 = ec_sinks ?w0" and act: "c_active c' = c_active c" by blast+
    have s1: "sink_at p w1 = Some s" using s sink_at_cong [of w1 w p] sinks by simp
    let ?s = "s\<lparr>as_conditions := omap_insert n c' (as_conditions s)\<rparr>"
    let ?w2 = "put_sink p (Some ?s) w1"
    have "map_of (as_conditions ?s) n = Some c'"
      using fresh_number_unused [OF n] okc by (simp add: map_of_omap_insert)
    then have c2: "condition_at p n ?w2 = Some c'"
      by (simp add: condition_at_def sink_at_put [OF s1])
    have "(x, w') = thn (if active then compile hw else ret ()) (ret (c_objectPath c)) ?w2"
      using r Inr a s1 NewConditionHelper_eq [where hw = hw and ifs = ifs and tag = tag, OF s n c]
      by (simp add: bnd_def thn_def modify_sink_def deref_sink_def modify_def)
    then have "if active then compile hw ?w2 = (map_sum id (\<lambda>_. ()) x, w') else w' = ?w2 \<and> x = Inr (c_objectPath c)"
      by (auto simp: thn_def bnd_def ret_def split: prod.splits sum.splits if_splits)
    with c2 act show ?thesis by blast
  qed
qed

lemma condition_at_same_setup: "same_setup w w' \<Longrightarrow> condition_at p n w' = condition_at p n w"
  by (simp add: condition_at_def sink_at_same_setup)

text \<open>
  A new active condition that makes the tables too large is refused with an exception, but it stays
  in the sink, so every later compilation is refused as well.
\<close>

lemma new_condition_left_behind:
  assumes hw: "proper_failures hw" and s: "sink_at p w = Some s"
    and n: "fresh_number (ec_rand w) (as_conditions s) = Some (n, rs)"
    and c: "new_condition (as_path s) (as_minOffset s) (as_maxOffset s) n True i m off (tag n) = Inr c"
    and ok: "numbers_ok w"
    and r: "NewConditionHelper hw ifs p True i m off tag w = (Inl too_many, w')"
    and few: "length (active_placed w') \<le> 32768"
  shows "\<exists>c'. condition_at p n w' = Some c' \<and> c_active c' \<and> compile hw w' = (Inl too_many, w')"
proof -
  have act: "c_active c" using c by (auto simp: new_condition_def split: if_splits)
  obtain w2 c' where c': "condition_at p n w2 = Some c'" "c_active c' = c_active c"
    and cc: "compile hw w2 = (Inl too_many, w')"
    using new_condition_inserted [OF s n c ok r] by auto
  have same: "same_setup w2 w'" using compile_same_setup [of w2 hw] cc by simp
  then have "active_placed w' = active_placed w2" by (simp add: active_placed_def same_setup_sinks)
  with few have "length (active_placed w2) \<le> 32768" by simp
  from compile_too_many_iff [OF hw cc this] have "w' = w2" by blast
  with cc c' act show ?thesis by auto
qed

end
