(* ===== verification/ECA_Properties.thy ===== *)
theory ECA_Properties
  imports ECA_Changes
begin

text \<open>
  What the event condition action unit driver promises: the tables it writes make the hardware do
  what the conditions say, failed changes are undone, and where the code does not keep that.
\<close>

section \<open>An example\<close>

text \<open>A unit with one channel, one sink in it with the given conditions, and a working bus.\<close>

definition example_condition :: "bool \<Rightarrow> u64 \<Rightarrow> u64 \<Rightarrow> u32 \<Rightarrow> condition" where
  "example_condition active i m tag =
     \<lparr>c_objectPath = ''/s/_1'', c_number = tag, c_id = i, c_mask = m, c_offset = 0, c_tag = tag,
      c_acceptLate = False, c_acceptEarly = False, c_acceptConflict = False, c_acceptDelayed = True,
      c_active = active, c_service = None\<rparr>"

definition example_sink :: "(u32 \<times> condition) list \<Rightarrow> action_sink" where
  "example_sink cs =
     \<lparr>as_kind = SCUbusActionSink, as_path = ''/s'', as_name = ''s'', as_channel = 2, as_num = 0,
      as_minOffset = - 1000, as_maxOffset = 1000, as_signalRate = 100000000,
      as_counter = (\<lambda>_. fresh_counter 0), as_latency = 0, as_earlyThreshold = 0, as_capacity = 8,
      as_conditions = cs, as_service = None\<rparr>"

definition example_eca :: "u32 \<Rightarrow> u32 \<Rightarrow> (u32 \<times> condition) list \<Rightarrow> eca" where
  "example_eca search_size walker_size cs =
     blank_eca \<lparr>bs_objects = [], bs_lookup = [], bs_removed = [], bs_next_id = 1, bs_plugins = [],
       bs_info = [], bs_calling = - 1, bs_clients = []\<rparr> False ''/eca'' 0x400 [] (new_loop 1 1 1) 0 [1, 2, 3]
     \<lparr>ec_search_size := search_size, ec_walker_size := walker_size,
      ec_max_conditions := min (search_size div 2) walker_size, ec_sinks := [[Some (example_sink cs)]]\<rparr>"

lemma example_eca_simps [simp]:
  "ec_sinks (example_eca n m cs) = [[Some (example_sink cs)]]"
  "ec_search_size (example_eca n m cs) = n"
  "ec_walker_size (example_eca n m cs) = m"
  "ec_max_conditions (example_eca n m cs) = min (n div 2) m"
  "ec_log (example_eca n m cs) = []"
  "ec_base (example_eca n m cs) = 0x400"
  "ec_container (example_eca n m cs) = False"
  "sink_at (0, 0) (example_eca n m cs) = Some (example_sink cs)"
  by (simp_all add: example_eca_def blank_eca_def sink_at_def)

lemma example_sink_conditions [simp]: "as_conditions (example_sink cs) = cs"
  by (simp add: example_sink_def)

lemma active_placed_example [simp]:
  "active_placed (example_eca n m cs) = map (\<lambda>(n, c). (2, 0, c)) (filter (\<lambda>(n, c). c_active c) cs)"
  by (simp add: active_placed_def sink_active_def example_sink_def)

lemma config_ok_example: "unat n \<le> 65536 \<Longrightarrow> config_ok (example_eca n m cs)"
  by (simp add: config_ok_def)

section \<open>Compiling\<close>

lemma run_cycle_ok:
  "hw_failure hw = (\<lambda>_ _. None) \<Longrightarrow> run_cycle hw ops w = (Inr (), w\<lparr>ec_log := ec_log w @ ops\<rparr>)"
  by (simp add: run_cycle_def cycle_def close_cycle_def op_simps)

lemma for_each_run_cycle_ok:
  "hw_failure hw = (\<lambda>_ _. None) \<Longrightarrow>
   for_each (\<lambda>i. run_cycle hw (f i)) xs w = (Inr (), w\<lparr>ec_log := ec_log w @ concat (map f xs)\<rparr>)"
  by (induction xs arbitrary: w) (simp_all add: op_simps run_cycle_ok)

lemma compile_ok:
  assumes hw: "hw_failure hw = (\<lambda>_ _. None)"
    and t: "compile_tables (unat (ec_max_conditions w)) (id_space (active_placed w)) = Inr (search, walk)"
  shows "compile hw w = (Inr (), w\<lparr>ec_log := ec_log w @ compile_ops (ec_base w) (unat (ec_search_size w)) search walk,
    ec_used_conditions := of_nat (length (id_space (active_placed w)) div 2)\<rparr>)"
  using hw t
  by (simp add: for_each_run_cycle_ok [OF hw] compile_def compile_ops_def write_search_def write_walker_def device_write_def cycle_def
      close_cycle_def bnd_def thn_def gets_def modify_def ret_def raise_def)

lemma compile_tables_ok:
  assumes few: "length ps \<le> 32768" and mx: "length (id_space ps) div 2 < mx"
  shows "\<exists>search walk. compile_tables mx (id_space ps) = Inr (search, walk)"
proof -
  obtain search walk where "build_tables (oc_sort (id_space ps)) = Inr (search, walk)"
    by (rule sorted_tables_match [OF mset_oc_sort sorted_oc_sort few])
  with mx show ?thesis by (simp add: compile_tables_def)
qed






lemma compile_tables_refuses:
  assumes few: "length ps \<le> 32768"
  shows "(\<exists>search walk. compile_tables mx (id_space ps) = Inr (search, walk)) \<longleftrightarrow> length (id_space ps) div 2 < mx"
  using compile_tables_ok [OF few] by (auto simp: compile_tables_def)

text \<open>
  C28. With a bus that does not fail, \<open>compile\<close> succeeds exactly while half the number of records,
  one or two for every active condition, stays below the limit; otherwise it throws the
  INVALID_ARGS error before the first bus access. It never meets one of its own \<open>Impossible\<close>
  situations, and in no case it changes the conditions.
\<close>

theorem compile_succeeds_iff:
  assumes hw: "hw_failure hw = (\<lambda>_ _. None)" and few: "length (active_placed w) \<le> 32768"
  shows "(if length (id_space (active_placed w)) div 2 < unat (ec_max_conditions w)
     then \<exists>w'. compile hw w = (Inr (), w') \<and> ec_sinks w' = ec_sinks w \<and>
       getFree w' = ec_max_conditions w - of_nat (length (id_space (active_placed w)) div 2)
     else compile hw w = (Inl (invalid_args ''Too many active conditions for hardware''), w))"
proof (cases "length (id_space (active_placed w)) div 2 < unat (ec_max_conditions w)")
  case True
  obtain search walk where
    t: "compile_tables (unat (ec_max_conditions w)) (id_space (active_placed w)) = Inr (search, walk)"
    using compile_tables_ok [OF few True] by blast
  from True compile_ok [OF hw t] show ?thesis by (simp add: getFree_def)
next
  case False
  then show ?thesis using compile_too_many by simp
qed

theorem compile_succeeds_iff_witness:
  "(\<exists>w'. compile silent_hardware (example_eca 16 8 []) = (Inr (), w')) \<and>
   compile silent_hardware (example_eca 16 0 []) =
     (Inl (invalid_args ''Too many active conditions for hardware''), example_eca 16 0 [])"
proof -
  have hw: "hw_failure silent_hardware = (\<lambda>_ _. None)" by (simp add: fun_eq_iff)
  from compile_succeeds_iff [OF hw, of "example_eca 16 8 []"] compile_succeeds_iff [OF hw, of "example_eca 16 0 []"]
  show ?thesis by (auto simp: id_space_def)
qed

text \<open>
  C2. The tables do not depend on how \<open>std::sort\<close> orders records that compare equal: for every
  sorted order the sweep finds the matching open record for each close record, the search entries
  are strictly increasing from event 0 on, every walker chain ends, and for valid conditions the
  selected actions are exactly those of the matching conditions.
\<close>

theorem tables_for_any_sort_order:
  assumes perm: "mset ids = mset (id_space ps)" and srt: "sorted_wrt oc_le ids"
    and few: "length ps \<le> 32768" and valid: "\<forall>p \<in> set ps. valid_condition (snd (snd p))"
  shows "\<exists>search walk. build_tables ids = Inr (search, walk) \<and> length walk = length ps \<and>
    length search \<le> Suc (length ids) \<and> sorted_wrt (<) (map se_event search) \<and> se_event (hd search) = 0 \<and>
    (\<forall>e. \<exists>ws. eca_match search walk e = Some ws \<and>
       mset (map we_action ws) = mset (map placed_action (filter (placed_matches e) ps)))"
  by (rule sorted_tables_match [OF perm srt few]) (use valid in blast)

theorem tables_for_any_sort_order_witness:
  "\<exists>search walk. build_tables (oc_sort (id_space [(2, 0, example_condition True 0x10 (- 16) 7)])) = Inr (search, walk) \<and>
    length walk = 1 \<and> (\<exists>ws. eca_match search walk 0x12 = Some ws \<and> size ws = 1)"
proof -
  let ?ps = "[(2, 0, example_condition True 0x10 (- 16) 7)] :: placed list"
  have v: "\<forall>p \<in> set ?ps. valid_condition (snd (snd p))"
    by (simp add: example_condition_def valid_condition_def prefix_mask_def)
  obtain search walk where b: "build_tables (oc_sort (id_space ?ps)) = Inr (search, walk)" "length walk = length ?ps"
    and m: "\<forall>e. \<exists>ws. eca_match search walk e = Some ws \<and>
       mset (map we_action ws) = mset (map placed_action (filter (placed_matches e) ?ps))"
    using tables_for_any_sort_order [OF mset_oc_sort sorted_oc_sort _ v] by fastforce
  obtain ws where ws: "eca_match search walk 0x12 = Some ws"
    "mset (map we_action ws) = mset (map placed_action (filter (placed_matches 0x12) ?ps))" using m by blast
  have "size (mset (map we_action ws)) = 1"
    unfolding ws(2) by (simp add: placed_matches_def matches_def example_condition_def)
  with b ws(1) show ?thesis by simp
qed

section \<open>The size of the tables\<close>

lemma length_id_space_bounded:
  assumes "\<forall>p \<in> set ps. c_id (snd (snd p)) OR NOT (c_mask (snd (snd p))) \<noteq> - 1"
  shows "length (id_space ps) = 2 * length ps"
proof -
  have "length (oc_records (placed_open p)) = 2" if "p \<in> set ps" for p
    using assms that by (auto simp: oc_records_def placed_open_def open_record_def split: prod.split)
  then show ?thesis by (induction ps) (auto simp: id_space_def)
qed

lemma length_id_space_single:
  "\<forall>p \<in> set ps. length (oc_records (placed_open p)) = 1 \<Longrightarrow> length (id_space ps) = length ps"
  by (induction ps) (auto simp: id_space_def)

text \<open>
  C33. The search entries always fit into the search table, and the walker entries fit into the
  walker table when no active condition extends up to the greatest event identifier.
\<close>

theorem tables_fit:
  assumes cfg: "config_ok w" and few: "length (active_placed w) \<le> 32768"
    and t: "compile_tables (unat (ec_max_conditions w)) (id_space (active_placed w)) = Inr (search, walk)"
  shows "length search \<le> unat (ec_search_size w) \<and>
    ((\<forall>p \<in> set (active_placed w). c_id (snd (snd p)) OR NOT (c_mask (snd (snd p))) \<noteq> - 1) \<longrightarrow>
     length walk < unat (ec_walker_size w))"
proof -
  note r = compile_tables_Inr [OF t few]
  have "unat (ec_max_conditions w) \<le> unat (ec_walker_size w)"
    unfolding word_le_nat_alt [symmetric] using cfg by (simp add: config_ok_def)
  with r compile_search_fits [OF cfg] length_id_space_bounded [of "active_placed w"] show ?thesis by fastforce
qed

theorem tables_fit_witness:
  "\<exists>search walk. compile_tables 8 (id_space [(2, 0, example_condition True 0x10 (- 16) 7)]) = Inr (search, walk) \<and>
    length search \<le> 16 \<and> length walk < 8"
proof -
  let ?w = "example_eca 16 8 [(7, example_condition True 0x10 (- 16) 7)]"
  have ps: "active_placed ?w = [(2, 0, example_condition True 0x10 (- 16) 7)]" by (simp add: example_condition_def)
  have few: "length (active_placed ?w) \<le> 32768" by (simp only: ps) simp
  have "length (id_space (active_placed ?w)) div 2 < unat (ec_max_conditions ?w)" by (simp only: ps) code_simp
  then obtain search walk where
    t: "compile_tables (unat (ec_max_conditions ?w)) (id_space (active_placed ?w)) = Inr (search, walk)"
    using compile_tables_ok [OF few] by blast
  have "\<forall>p \<in> set (active_placed ?w). c_id (snd (snd p)) OR NOT (c_mask (snd (snd p))) \<noteq> - 1"
    by (simp only: ps) (simp add: example_condition_def)
  with tables_fit [OF config_ok_example few t] have "length search \<le> 16 \<and> length walk < 8" by simp
  with t show ?thesis by (simp only: ps) auto
qed


text \<open>
  The limit counts pairs of records, but a condition that extends up to the greatest event has
  no close record: with conditions for all events only, \<open>compile\<close> succeeds and selects a walker row
  outside of the walker table as soon as there are more of them than the table has rows.
\<close>

theorem walker_table_overflows:
  assumes hw: "hw_failure hw = (\<lambda>_ _. None)" and few: "length (active_placed w) \<le> 32768"
    and all: "\<forall>p \<in> set (active_placed w). c_id (snd (snd p)) = 0 \<and> c_mask (snd (snd p)) = 0"
    and over: "unat (ec_walker_size w) < length (active_placed w)"
    and half: "length (active_placed w) div 2 < unat (ec_max_conditions w)"
  shows "\<exists>w'. compile hw w = (Inr (), w') \<and>
    BusWrite (ec_base w + ECA_WALKER_SELECT_RW) (ec_walker_size w) \<in> set (drop (length (ec_log w)) (ec_log w'))"
proof -
  have one: "length (oc_records (placed_open p)) = 1" if "p \<in> set (active_placed w)" for p
    using all that by (auto simp: oc_records_def placed_open_def open_record_def split: prod.split)
  have len: "length (id_space (active_placed w)) = length (active_placed w)"
    by (rule length_id_space_single) (use one in blast)
  obtain search walk where
    t: "compile_tables (unat (ec_max_conditions w)) (id_space (active_placed w)) = Inr (search, walk)"
    using compile_tables_ok [OF few half [folded len]] by blast
  have "unat (ec_walker_size w) < length walk" using compile_tables_Inr [OF t few] over by simp
  then have i: "unat (ec_walker_size w) \<in> set [0..<length walk]" by simp
  have "BusWrite (ec_base w + ECA_WALKER_SELECT_RW) (ec_walker_size w) \<in>
      set (walker_cycle (ec_base w) (of_nat (unat (ec_walker_size w))) (walk ! unat (ec_walker_size w)))"
    by (simp add: walker_cycle_def)
  with i have "BusWrite (ec_base w + ECA_WALKER_SELECT_RW) (ec_walker_size w) \<in>
      set (compile_ops (ec_base w) (unat (ec_search_size w)) search walk)"
    unfolding compile_ops_def set_append set_concat set_map by blast
  with compile_ok [OF hw t] show ?thesis by simp
qed

definition match_all :: "u32 \<Rightarrow> u32 \<times> condition" where
  "match_all n = (n, example_condition True 0 0 n)"

theorem walker_table_overflows_witness:
  "\<exists>w'. compile silent_hardware (example_eca 8 2 [match_all 1, match_all 2, match_all 3]) = (Inr (), w') \<and>
    BusWrite (0x400 + ECA_WALKER_SELECT_RW) 2 \<in> set (ec_log w')"
proof -
  let ?w = "example_eca 8 2 [match_all 1, match_all 2, match_all 3]"
  have ps: "active_placed ?w = [(2, 0, snd (match_all 1)), (2, 0, snd (match_all 2)), (2, 0, snd (match_all 3))]"
    by (simp add: match_all_def example_condition_def)
  have hw: "hw_failure silent_hardware = (\<lambda>_ _. None)" by (simp add: fun_eq_iff)
  have 1: "length (active_placed ?w) \<le> 32768" "unat (ec_walker_size ?w) < length (active_placed ?w)"
    "length (active_placed ?w) div 2 < unat (ec_max_conditions ?w)"
    by (simp_all only: ps) simp_all
  have 2: "\<forall>p \<in> set (active_placed ?w). c_id (snd (snd p)) = 0 \<and> c_mask (snd (snd p)) = 0"
    by (simp only: ps) (simp add: match_all_def example_condition_def)
  from walker_table_overflows [OF hw 1(1) 2 1(2,3)] show ?thesis by simp
qed

section \<open>Conditions\<close>

text \<open>
  The constructor of a condition accepts exactly the prefix masks, the ids without a bit
  outside of the mask and the offsets within the limits of the sink. The accepted mask and id then
  select an interval of event identifiers, which is what the tables represent.
\<close>

theorem new_condition_accepts:
  "case new_condition path mn mx n active i m off tag of
     Inl e \<Rightarrow> e \<in> range invalid_args \<and> \<not> (sint mn \<le> sint off \<and> sint off \<le> sint mx \<and> prefix_mask m \<and> i AND m = i)
   | Inr c \<Rightarrow> sint mn \<le> sint off \<and> sint off \<le> sint mx \<and> prefix_mask m \<and> i AND m = i \<and>
       c_id c = i \<and> c_mask c = m \<and> c_offset c = off \<and> c_active c = active \<and>
       (\<forall>e. matches c e \<longleftrightarrow> i \<le> e \<and> e \<le> i OR NOT m)"
proof (cases "new_condition path mn mx n active i m off tag")
  case (Inl e)
  then show ?thesis by (auto simp: new_condition_def prefix_mask_def not_less split: if_splits)
next
  case (Inr c)
  then have f: "c_id c = i" "c_mask c = m" "c_offset c = off" "c_active c = active" "i AND m = i"
    "sint mn \<le> sint off" "sint off \<le> sint mx" "prefix_mask m"
    by (auto simp: new_condition_def prefix_mask_def not_less split: if_splits)
  with Inr valid_matches_iff [OF new_condition_valid [OF Inr]] show ?thesis by simp
qed

lemma setActive_states:
  assumes c: "condition_at p n w = Some c" and v: "v \<noteq> c_active c"
  obtains s where "sink_at p w = Some s" "map_of (as_conditions s) n = Some c"
    "setActive hw p n v w = try_catch (compile hw)
       (\<lambda>e. thn (modify_condition p n (\<lambda>c. c\<lparr>c_active := \<not> v\<rparr>)) (raise e))
       (put_sink p (Some (set_condition n (\<lambda>c. c\<lparr>c_active := v\<rparr>) s)) w)"
proof -
  obtain s where s: "sink_at p w = Some s" "map_of (as_conditions s) n = Some c"
    using c by (auto simp: condition_at_def bind_eq_Some_conv)
  moreover have "setActive hw p n v w = try_catch (compile hw)
       (\<lambda>e. thn (modify_condition p n (\<lambda>c. c\<lparr>c_active := \<not> v\<rparr>)) (raise e))
       (put_sink p (Some (set_condition n (\<lambda>c. c\<lparr>c_active := v\<rparr>) s)) w)"
    using v by (simp add: setActive_def bnd_def thn_def deref_condition_eq [OF c] modify_condition_eq [OF s(1)])
  ultimately show thesis using that by blast
qed

lemma setActive_failed:
  assumes c: "condition_at p n w = Some c" and ok: "numbers_ok w"
    and r: "setActive hw p n v w = (Inl e, w')" and e: "catchable e"
  shows "ec_sinks w' = ec_sinks w"
proof (cases "v = c_active c")
  case True
  with r show ?thesis by (simp add: setActive_def bnd_def deref_condition_eq [OF c] ret_def)
next
  case False
  obtain s where s: "sink_at p w = Some s" "map_of (as_conditions s) n = Some c"
    and eq: "setActive hw p n v w = try_catch (compile hw)
       (\<lambda>e. thn (modify_condition p n (\<lambda>c. c\<lparr>c_active := \<not> v\<rparr>)) (raise e))
       (put_sink p (Some (set_condition n (\<lambda>c. c\<lparr>c_active := v\<rparr>) s)) w)"
    using setActive_states [OF c False] .
  let ?f = "\<lambda>c. c\<lparr>c_active := v\<rparr>" and ?g = "\<lambda>c. c\<lparr>c_active := \<not> v\<rparr>"
  let ?w1 = "put_sink p (Some (set_condition n ?f s)) w"
  obtain y w2 where t: "compile hw ?w1 = (y, w2)" by fastforce
  have same: "same_setup ?w1 w2" using compile_same_setup [of ?w1 hw] t by simp
  have s2: "sink_at p w2 = Some (set_condition n ?f s)"
    using sink_at_put [OF s(1)] sink_at_same_setup [OF same] by simp
  have d: "distinct (map fst (as_conditions s))"
    by (rule omap_ok_distinct) (use ok s in \<open>unfold numbers_ok_def, blast\<close>)
  have "set_condition n ?g (set_condition n ?f s) = s"
    using set_condition_id [OF s(2) d, of "\<lambda>c. ?g (?f c)"] False by simp
  then have "w' = put_sink p (Some s) w2"
    using r t e modify_condition_eq [OF s2]
    by (auto simp: eq try_catch_def thn_def bnd_def raise_def split: sum.splits if_splits)
  then have "ec_sinks w' = ec_sinks (put_sink p (Some s) ?w1)"
    using same_setup_sinks [OF same] by (cases p) (simp add: put_sink_def)
  also have "\<dots> = ec_sinks w" using put_sink_same [OF s(1)] by simp
  finally show ?thesis .
qed

text \<open>
  C6. Every setter of a condition that fails with an exception, because the tables became too
  large or the bus failed, leaves all conditions of all sinks as they were.
\<close>

theorem failed_setters_undone:
  assumes c: "condition_at p n w = Some c" and ok: "numbers_ok w" and e: "catchable e"
  shows "(setID hw p n v w = (Inl e, w') \<longrightarrow> ec_sinks w' = ec_sinks w) \<and>
    (setMask hw p n v w = (Inl e, w') \<longrightarrow> ec_sinks w' = ec_sinks w) \<and>
    (setOffset hw p n v w = (Inl e, w') \<longrightarrow> ec_sinks w' = ec_sinks w) \<and>
    (setAcceptLate hw p n b w = (Inl e, w') \<longrightarrow> ec_sinks w' = ec_sinks w) \<and>
    (setAcceptEarly hw p n b w = (Inl e, w') \<longrightarrow> ec_sinks w' = ec_sinks w) \<and>
    (setAcceptConflict hw p n b w = (Inl e, w') \<longrightarrow> ec_sinks w' = ec_sinks w) \<and>
    (setAcceptDelayed hw p n b w = (Inl e, w') \<longrightarrow> ec_sinks w' = ec_sinks w) \<and>
    (setActive hw p n b w = (Inl e, w') \<longrightarrow> ec_sinks w' = ec_sinks w)"
  by (intro conjI impI;
      erule id_field.rolls_back [OF c ok _ e] mask_field.rolls_back [OF c ok _ e]
        offset_field.rolls_back [OF c ok _ e] late_field.rolls_back [OF c ok _ e]
        early_field.rolls_back [OF c ok _ e] conflict_field.rolls_back [OF c ok _ e]
        delayed_field.rolls_back [OF c ok _ e] setActive_failed [OF c ok _ e])

lemma numbers_ok_example: "omap_ok cs \<Longrightarrow> numbers_ok (example_eca n m cs)"
  by (auto simp: numbers_ok_def sink_at_def split: if_splits prod.splits)

text \<open>The witness: the one condition does not fit into a unit without walker entries.\<close>

theorem failed_setters_undone_witness:
  "\<exists>e w'. setActive silent_hardware (0, 0) 7 True (example_eca 16 0 [(7, example_condition False 0x10 (- 16) 7)]) =
      (Inl e, w') \<and> ec_sinks w' = [[Some (example_sink [(7, example_condition False 0x10 (- 16) 7)])]]"
proof -
  let ?c = "example_condition False 0x10 (- 16) 7"
  let ?w = "example_eca 16 0 [(7, ?c)]"
  have c: "condition_at (0, 0) 7 ?w = Some ?c" by (simp add: condition_at_def)
  have a: "\<not> c_active ?c" by (simp add: example_condition_def)
  obtain s where s: "sink_at (0, 0) ?w = Some s"
    and eq: "setActive silent_hardware (0, 0) 7 True ?w = try_catch (compile silent_hardware)
       (\<lambda>e. thn (modify_condition (0, 0) 7 (\<lambda>c. c\<lparr>c_active := \<not> True\<rparr>)) (raise e))
       (put_sink (0, 0) (Some (set_condition 7 (\<lambda>c. c\<lparr>c_active := True\<rparr>) s)) ?w)"
    by (rule setActive_states [OF c, of True]) (use a in auto)
  let ?w1 = "put_sink (0, 0) (Some (set_condition 7 (\<lambda>c. c\<lparr>c_active := True\<rparr>) s)) ?w"
  have "ec_max_conditions ?w1 = 0" by (simp add: put_sink_def)
  then have t: "compile silent_hardware ?w1 = (Inl too_many, ?w1)" using compile_too_many [of ?w1] by simp
  have s1: "sink_at (0, 0) ?w1 = Some (set_condition 7 (\<lambda>c. c\<lparr>c_active := True\<rparr>) s)" by (rule sink_at_put [OF s])
  obtain w' where "setActive silent_hardware (0, 0) 7 True ?w = (Inl too_many, w')"
    using t modify_condition_eq [OF s1] by (simp add: eq try_catch_def thn_def bnd_def raise_def)
  moreover have "numbers_ok ?w" by (rule numbers_ok_example) simp
  moreover have "catchable too_many" by simp
  ultimately have "ec_sinks w' = ec_sinks ?w" using failed_setters_undone [OF c] by blast
  with \<open>setActive silent_hardware (0, 0) 7 True ?w = (Inl too_many, w')\<close> show ?thesis by auto
qed






text \<open>
  The setters of mask and id do not repeat the checks of the constructor: an inactive condition
  takes any mask and any id, so the interval the tables are built from is no longer what the mask
  selects.
\<close>

theorem setMask_setID_unchecked:
  assumes c: "condition_at p n w = Some c" and a: "\<not> c_active c"
  shows "\<exists>w1 w2. setMask hw p n m w = (Inr (), w1) \<and> setID hw p n i w1 = (Inr (), w2) \<and>
    condition_at p n w2 = Some (c\<lparr>c_mask := m, c_id := i\<rparr>)"
proof -
  have upd: "\<exists>w'. setter w' \<and> condition_at p n w' = Some (f d)"
    if 1: "\<And>w'. setter w' \<longleftrightarrow> guarded_change hw p n f g w = (Inr (), w')" and 2: "condition_at p n w = Some d"
      and 3: "\<not> c_active (f d)" for f g d w setter
  proof -
    obtain s where s: "sink_at p w = Some s" "map_of (as_conditions s) n = Some d"
      using 2 by (auto simp: condition_at_def bind_eq_Some_conv)
    let ?w1 = "put_sink p (Some (set_condition n f s)) w"
    have c1: "condition_at p n ?w1 = Some (f d)"
      using sink_at_put [OF s(1)] by (simp add: condition_at_def map_of_set_condition s(2))
    have "guarded_change hw p n f g w = (Inr (), ?w1)"
      using 3 by (simp add: guarded_change_def thn_def bnd_def modify_condition_eq [OF s(1)] try_catch_def
          deref_condition_eq [OF c1] ret_def)
    with 1 c1 show ?thesis by blast
  qed
  have "\<exists>w1. setMask hw p n m w = (Inr (), w1) \<and> condition_at p n w1 = Some (c\<lparr>c_mask := m\<rparr>)"
  proof (cases "m = c_mask c")
    case True
    then show ?thesis using c by (simp add: setMask_def bnd_def deref_condition_eq [OF c] ret_def)
  next
    case False
    show ?thesis
      by (rule upd [where f = "\<lambda>c. c\<lparr>c_mask := m\<rparr>", OF _ c])
        (use False a in \<open>auto simp: setMask_def bnd_def deref_condition_eq [OF c]\<close>)
  qed
  then obtain w1 where w1: "setMask hw p n m w = (Inr (), w1)" "condition_at p n w1 = Some (c\<lparr>c_mask := m\<rparr>)"
    by blast
  have "\<exists>w2. setID hw p n i w1 = (Inr (), w2) \<and> condition_at p n w2 = Some (c\<lparr>c_mask := m, c_id := i\<rparr>)"
  proof (cases "i = c_id c")
    case True
    then show ?thesis using w1(2) by (simp add: setID_def bnd_def deref_condition_eq [OF w1(2)] ret_def)
  next
    case False
    have "\<exists>w2. setID hw p n i w1 = (Inr (), w2) \<and> condition_at p n w2 = Some ((\<lambda>c. c\<lparr>c_id := i\<rparr>) (c\<lparr>c_mask := m\<rparr>))"
      by (rule upd [where f = "\<lambda>c. c\<lparr>c_id := i\<rparr>", OF _ w1(2)])
        (use False a in \<open>auto simp: setID_def bnd_def deref_condition_eq [OF w1(2)]\<close>)
    then show ?thesis by simp
  qed
  with w1(1) show ?thesis by blast
qed

theorem setMask_setID_unchecked_witness:
  "\<exists>w1 w2 c. setMask silent_hardware (0, 0) 7 1 (example_eca 16 8 [(7, example_condition False 0x10 (- 16) 7)]) =
      (Inr (), w1) \<and> setID silent_hardware (0, 0) 7 2 w1 = (Inr (), w2) \<and>
    condition_at (0, 0) 7 w2 = Some c \<and> \<not> valid_condition c"
proof -
  let ?c = "example_condition False 0x10 (- 16) 7"
  let ?w = "example_eca 16 8 [(7, ?c)]"
  have c: "condition_at (0, 0) 7 ?w = Some ?c" by (simp add: condition_at_def)
  have a: "\<not> c_active ?c" by (simp add: example_condition_def)
  have "\<not> valid_condition (?c\<lparr>c_mask := 1, c_id := 2\<rparr>)" by (simp add: valid_condition_def)
  with setMask_setID_unchecked [OF c a, of silent_hardware 1 2] show ?thesis by blast
qed

section \<open>Sinks\<close>






text \<open>
  C38. The destructor of an action sink that lives in a container and still has conditions ends the
  whole process: it asks the container to remove the first condition again and again, but that does
  not take the condition out of the sink, so the second attempt at the latest throws out of a
  destructor. A client triggers this by removing a software action sink with a condition.
\<close>

theorem destroying_used_sink_terminates:
  assumes "bus_ok w" "ec_container w" "as_conditions s \<noteq> []"
  shows "\<exists>w'. destroy_action_sink s w = (Inl (Terminate ''exception in ~ActionSink''), w')"
  by (rule destroy_action_sink_terminates [OF assms])

theorem destroying_used_sink_terminates_witness:
  "\<exists>w'. destroy_action_sink (example_sink [match_all 1]) (example_eca 16 8 []\<lparr>ec_container := True\<rparr>) =
    (Inl (Terminate ''exception in ~ActionSink''), w')"
  by (rule destroying_used_sink_terminates)
    (simp_all add: bus_ok_def example_eca_def blank_eca_def)

section \<open>Counters\<close>



end
