(* ===== verification/Chunk_Allocator.thy ===== *)
theory Chunk_Allocator
  imports Prelude
begin

text \<open>
  The allocator behind operator new (saftbus/configurable_chunck_allocator_rt.cpp, and the template
  version in saftbus/chunck_allocator_rt.hpp): pools of equal chunks with constant-time malloc and
  free. The first part states what a pool promises, as an interface.
\<close>

section \<open>What a pool promises\<close>

locale chunk_pool =
  fixes good :: "'p \<Rightarrow> bool"
    and live :: "'p \<Rightarrow> nat set"
    and acquire :: "nat \<Rightarrow> 'p \<Rightarrow> exn + nat \<times> 'p"
    and release :: "nat \<Rightarrow> 'p \<Rightarrow> exn + 'p"
  assumes acquire_fresh: "good p \<Longrightarrow> acquire n p = Inr (a, p') \<Longrightarrow>
      good p' \<and> a \<notin> live p \<and> live p' = insert a (live p)"
    and release_live: "good p \<Longrightarrow> a \<in> live p \<Longrightarrow>
      \<exists>p'. release a p = Inr p' \<and> good p' \<and> live p' = live p - {a}"
begin

text \<open>A client acquires (\<open>Inl n\<close>) blocks and releases (\<open>Inr a\<close>) the ones it holds.\<close>

fun play :: "(nat + nat) list \<Rightarrow> nat set \<times> 'p \<Rightarrow> (nat set \<times> 'p) option" where
  "play [] (held, p) = Some (held, p)"
| "play (Inl n # es) (held, p) =
     (case acquire n p of Inl _ \<Rightarrow> play es (held, p) | Inr (a, p') \<Rightarrow> play es (insert a held, p'))"
| "play (Inr a # es) (held, p) =
     (if a \<notin> held then None
      else case release a p of Inl _ \<Rightarrow> None | Inr p' \<Rightarrow> play es (held - {a}, p'))"

lemma play_ok:
  "good p \<Longrightarrow> held = live p \<Longrightarrow> play es (held, p) = Some (held', p') \<Longrightarrow> good p' \<and> held' = live p'"
proof (induction es "(held, p)" arbitrary: held p rule: play.induct)
  case (2 n es held p)
  show ?case
  proof (cases "acquire n p")
    case (Inr r)
    then obtain a q where r: "acquire n p = Inr (a, q)" by (cases r) simp
    with 2 acquire_fresh [OF 2(3) r] show ?thesis by simp
  qed (use 2 in simp)
next
  case (3 a es held p)
  then have "a \<in> live p" by (simp split: if_splits)
  from release_live [OF 3(2) this] obtain q
    where q: "release a p = Inr q" "good q" "live q = live p - {a}" by blast
  with 3 \<open>a \<in> live p\<close> show ?case by auto
qed simp

text \<open>Releasing what was just acquired gives back the set of blocks.\<close>

lemma acquire_release:
  assumes "good p" "acquire n p = Inr (a, p')"
  shows "\<exists>p''. release a p' = Inr p'' \<and> good p'' \<and> live p'' = live p"
  using acquire_fresh [OF assms] release_live [of p' a] by auto

end

section \<open>The pool\<close>

text \<open>\<open>ChunckAllocatorRT\<close>. Addresses are natural numbers; \<open>ca_base\<close> is \<open>&chuncks[0]\<close>.\<close>

record chunk_allocator =
  ca_max :: nat
  ca_size :: nat
  ca_base :: nat
  ca_back :: "nat list"
  ca_idx :: "nat list"
  ca_used :: nat

definition chunk_new :: "nat \<Rightarrow> nat \<Rightarrow> nat \<Rightarrow> chunk_allocator" where
  "chunk_new max_chuncks chuncksize base =
     \<lparr>ca_max = max_chuncks, ca_size = chuncksize, ca_base = base,
      ca_back = [0..<max_chuncks], ca_idx = [0..<max_chuncks], ca_used = 0\<rparr>"

definition chunk_malloc :: "nat \<Rightarrow> chunk_allocator \<Rightarrow> exn + nat \<times> chunk_allocator" where
  "chunk_malloc n a =
     (if \<not> n \<le> ca_size a then Inl (AssertFailed ''size <= CHUNCKSIZE'')
      else if \<not> ca_used a < ca_max a then Inl (AssertFailed ''allocated_chuncks < MAX_CHUNCKS'')
      else Inr (ca_base a + (ca_idx a ! ca_used a) * ca_size a, a\<lparr>ca_used := ca_used a + 1\<rparr>))"

definition chunk_contains :: "nat \<Rightarrow> chunk_allocator \<Rightarrow> bool" where
  "chunk_contains ptr a \<longleftrightarrow> ca_base a \<le> ptr \<and> ptr < ca_base a + ca_max a * ca_size a"

definition swap_at :: "nat \<Rightarrow> nat \<Rightarrow> 'a list \<Rightarrow> 'a list" where
  "swap_at i j xs = xs[i := xs ! j, j := xs ! i]"

definition chunk_free :: "nat \<Rightarrow> chunk_allocator \<Rightarrow> exn + chunk_allocator" where
  "chunk_free ptr a =
     (if \<not> ca_used a > 0 then Inl (AssertFailed ''allocated_chuncks > 0'')
      else if \<not> chunk_contains ptr a then Inl (AssertFailed ''contains(ptr)'')
      else
        let index = (ptr - ca_base a) div ca_size a;
            pos_a = ca_back a ! index;
            pos_b = ca_used a - 1;
            a_idx = ca_idx a ! pos_a;
            b_idx = ca_idx a ! pos_b
        in Inr (a\<lparr>ca_idx := swap_at pos_a pos_b (ca_idx a),
                 ca_back := swap_at a_idx b_idx (ca_back a),
                 ca_used := ca_used a - 1\<rparr>))"

definition chunk_full :: "chunk_allocator \<Rightarrow> bool" where
  "chunk_full a \<longleftrightarrow> ca_used a = ca_max a"

definition chunk_fits :: "nat \<Rightarrow> chunk_allocator \<Rightarrow> bool" where
  "chunk_fits n a \<longleftrightarrow> n \<le> ca_size a"

text \<open>
  The template version keeps the back index inside the chunk, so its stride is the size of the
  struct; its \<open>contains\<close> accepts one address more.
\<close>

definition template_contains :: "nat \<Rightarrow> chunk_allocator \<Rightarrow> bool" where
  "template_contains ptr a \<longleftrightarrow> ca_base a \<le> ptr \<and> ptr \<le> ca_base a + ca_max a * ca_size a"

definition template_free :: "nat \<Rightarrow> chunk_allocator \<Rightarrow> exn + chunk_allocator" where
  "template_free ptr a =
     (if \<not> ca_used a > 0 then Inl (AssertFailed ''allocated_chuncks > 0'')
      else if \<not> template_contains ptr a then Inl (AssertFailed ''contains(ptr)'')
      else
        let index = (ptr - ca_base a) div ca_size a
        in if index \<ge> ca_max a then Inl (Undefined ''chuncks[index] out of bounds'')
           else
             let pos_a = ca_back a ! index;
                 pos_b = ca_used a - 1;
                 a_idx = ca_idx a ! pos_a;
                 b_idx = ca_idx a ! pos_b
             in Inr (a\<lparr>ca_idx := swap_at pos_a pos_b (ca_idx a),
                      ca_back := swap_at a_idx b_idx (ca_back a),
                      ca_used := ca_used a - 1\<rparr>))"

section \<open>Invariant\<close>

text \<open>The two index arrays are inverse permutations of the chunk numbers.\<close>

definition chunk_ok :: "chunk_allocator \<Rightarrow> bool" where
  "chunk_ok a \<longleftrightarrow> ca_size a > 0 \<and> ca_used a \<le> ca_max a \<and>
     length (ca_idx a) = ca_max a \<and> length (ca_back a) = ca_max a \<and>
     (\<forall>i<ca_max a. ca_idx a ! i < ca_max a \<and> ca_back a ! (ca_idx a ! i) = i) \<and>
     (\<forall>c<ca_max a. ca_back a ! c < ca_max a \<and> ca_idx a ! (ca_back a ! c) = c)"

definition chunk_addr :: "chunk_allocator \<Rightarrow> nat \<Rightarrow> nat" where
  "chunk_addr a c = ca_base a + c * ca_size a"

definition live_chunks :: "chunk_allocator \<Rightarrow> nat set" where
  "live_chunks a = {c. c < ca_max a \<and> ca_back a ! c < ca_used a}"

definition live_blocks :: "chunk_allocator \<Rightarrow> nat set" where
  "live_blocks a = chunk_addr a ` live_chunks a"

lemma chunk_new_ok: "sz > 0 \<Longrightarrow> chunk_ok (chunk_new n sz base) \<and> live_blocks (chunk_new n sz base) = {}"
  by (simp add: chunk_ok_def chunk_new_def live_blocks_def live_chunks_def)

lemma chunk_addr_inj: "ca_size a > 0 \<Longrightarrow> chunk_addr a c = chunk_addr a d \<longleftrightarrow> c = d"
  by (simp add: chunk_addr_def)

lemma chunk_malloc_ok:
  assumes ok: "chunk_ok a" and m: "chunk_malloc n a = Inr (p, a')"
  shows "chunk_ok a' \<and> p \<notin> live_blocks a \<and> live_blocks a' = insert p (live_blocks a)"
proof -
  let ?c = "ca_idx a ! ca_used a"
  from m have used: "ca_used a < ca_max a" and p: "p = chunk_addr a ?c"
    and a': "a' = a\<lparr>ca_used := ca_used a + 1\<rparr>"
    by (auto simp: chunk_malloc_def chunk_addr_def split: if_splits)
  have c: "?c < ca_max a" "ca_back a ! ?c = ca_used a" using ok used by (auto simp: chunk_ok_def)
  have "live_chunks a' = insert ?c (live_chunks a)"
  proof (intro set_eqI iffI)
    fix d assume "d \<in> live_chunks a'"
    then have d: "d < ca_max a" "ca_back a ! d \<le> ca_used a" by (auto simp: live_chunks_def a')
    show "d \<in> insert ?c (live_chunks a)"
    proof (cases "ca_back a ! d = ca_used a")
      case True
      with ok d(1) have "d = ?c" unfolding chunk_ok_def by metis
      then show ?thesis by simp
    qed (use d in \<open>auto simp: live_chunks_def\<close>)
  qed (use c in \<open>auto simp: live_chunks_def a'\<close>)
  moreover have "?c \<notin> live_chunks a" using c by (simp add: live_chunks_def)
  moreover have "ca_size a > 0" "chunk_ok a'" using ok used by (auto simp: chunk_ok_def a')
  ultimately show ?thesis
    by (auto simp: live_blocks_def p chunk_addr_inj a' chunk_addr_def)
qed

lemma nth_swap_at:
  "i < length xs \<Longrightarrow> j < length xs \<Longrightarrow> k < length xs \<Longrightarrow>
   swap_at i j xs ! k = (if k = i then xs ! j else if k = j then xs ! i else xs ! k)"
  by (auto simp: swap_at_def nth_list_update)

lemma length_swap_at [simp]: "length (swap_at i j xs) = length xs"
  by (simp add: swap_at_def)

lemma chunk_of_addr:
  assumes "ca_size a > 0" "c < ca_max a" "ptr = chunk_addr a c + off" "off < ca_size a"
  shows "chunk_contains ptr a" "(ptr - ca_base a) div ca_size a = c"
proof -
  have "c * ca_size a + off < Suc c * ca_size a" using assms by simp
  also have "\<dots> \<le> ca_max a * ca_size a" using assms by (intro mult_le_mono1) simp
  finally show "chunk_contains ptr a" using assms by (simp add: chunk_contains_def chunk_addr_def)
  show "(ptr - ca_base a) div ca_size a = c" using assms by (simp add: chunk_addr_def)
qed

lemma chunk_free_ok:
  assumes ok: "chunk_ok a" and c: "c \<in> live_chunks a" and off: "off < ca_size a"
  shows "\<exists>a'. chunk_free (chunk_addr a c + off) a = Inr a' \<and> chunk_ok a' \<and>
    live_chunks a' = live_chunks a - {c} \<and> ca_base a' = ca_base a \<and> ca_size a' = ca_size a \<and>
    ca_max a' = ca_max a"
proof -
  let ?n = "ca_max a" and ?pa = "ca_back a ! c" and ?pb = "ca_used a - 1"
  have size: "ca_size a > 0" and lens: "length (ca_idx a) = ?n" "length (ca_back a) = ?n"
    and inv1: "\<And>i. i < ?n \<Longrightarrow> ca_idx a ! i < ?n \<and> ca_back a ! (ca_idx a ! i) = i"
    and inv2: "\<And>d. d < ?n \<Longrightarrow> ca_back a ! d < ?n \<and> ca_idx a ! (ca_back a ! d) = d"
    and used_le: "ca_used a \<le> ?n"
    using ok by (auto simp: chunk_ok_def)
  have cn: "c < ?n" and pa: "?pa < ca_used a" using c by (auto simp: live_chunks_def)
  then have used: "ca_used a > 0" and pb: "?pb < ?n" using used_le by auto
  have pan: "?pa < ?n" using pa used_le by simp
  note at = chunk_of_addr [OF size cn refl off]
  let ?ib = "ca_idx a ! ?pb"
  let ?a = "a\<lparr>ca_idx := swap_at ?pa ?pb (ca_idx a), ca_back := swap_at c ?ib (ca_back a),
             ca_used := ?pb\<rparr>"
  have free: "chunk_free (chunk_addr a c + off) a = Inr ?a"
    using used at inv2 [OF cn] by (simp add: chunk_free_def Let_def)
  have ib: "?ib < ?n" "ca_back a ! ?ib = ?pb" using inv1 [OF pb] by auto
  have idx: "swap_at ?pa ?pb (ca_idx a) ! i =
      (if i = ?pa then ?ib else if i = ?pb then c else ca_idx a ! i)" if "i < ?n" for i
    using that pan pb lens inv2 [OF cn] by (simp add: nth_swap_at)
  have bck: "swap_at c ?ib (ca_back a) ! d =
      (if d = c then ?pb else if d = ?ib then ?pa else ca_back a ! d)" if "d < ?n" for d
    using that cn ib lens by (simp add: nth_swap_at)
  have "chunk_ok ?a"
    unfolding chunk_ok_def
  proof (intro conjI allI impI)
    fix i assume "i < ca_max ?a"
    then have i: "i < ?n" by simp
    show "ca_idx ?a ! i < ca_max ?a" using i idx inv1 ib cn by simp
    show "ca_back ?a ! (ca_idx ?a ! i) = i"
      using i idx bck inv1 [OF i] inv2 [OF cn] ib cn by auto
  next
    fix d assume "d < ca_max ?a"
    then have d: "d < ?n" by simp
    show "ca_back ?a ! d < ca_max ?a" using d bck inv2 pan pb by simp
    show "ca_idx ?a ! (ca_back ?a ! d) = d"
      using d idx bck inv2 [OF d] inv2 [OF cn] ib pan pb by auto
  qed (use size used_le lens in simp_all)
  moreover have "live_chunks ?a = live_chunks a - {c}"
  proof (intro set_eqI)
    fix d
    show "d \<in> live_chunks ?a \<longleftrightarrow> d \<in> live_chunks a - {c}"
    proof (cases "d < ?n")
      case True
      have "ca_back a ! d = ?pb \<longleftrightarrow> d = ?ib" using True ib inv2 by metis
      moreover have "?ib = c \<or> ?pa \<noteq> ?pb" using inv2 [OF cn] by auto
      ultimately show ?thesis using True bck [OF True] pa ib used by (auto simp: live_chunks_def)
    qed (simp add: live_chunks_def)
  qed
  ultimately show ?thesis using free by auto
qed

lemma chunk_free_live:
  assumes ok: "chunk_ok a" and p: "p \<in> live_blocks a"
  shows "\<exists>a'. chunk_free p a = Inr a' \<and> chunk_ok a' \<and> live_blocks a' = live_blocks a - {p}"
proof -
  from p obtain c where c: "c \<in> live_chunks a" "p = chunk_addr a c" by (auto simp: live_blocks_def)
  have sz: "0 < ca_size a" using ok by (simp add: chunk_ok_def)
  obtain a' where a': "chunk_free (chunk_addr a c) a = Inr a'" "chunk_ok a'"
    "live_chunks a' = live_chunks a - {c}" "ca_base a' = ca_base a" "ca_size a' = ca_size a"
    using chunk_free_ok [OF ok c(1) sz] by auto
  have "chunk_addr a' = chunk_addr a" by (simp add: fun_eq_iff chunk_addr_def a')
  then have "live_blocks a' = live_blocks a - {p}"
    using sz c by (auto simp: live_blocks_def a'(3) chunk_addr_inj)
  with a' c show ?thesis by auto
qed

interpretation rt: chunk_pool chunk_ok live_blocks chunk_malloc chunk_free
  by unfold_locales (blast dest: chunk_malloc_ok chunk_free_live)+

text \<open>Acquiring fails exactly when the request is too large or the pool is full.\<close>

lemma chunk_malloc_total:
  "chunk_ok a \<Longrightarrow> chunk_fits n a \<Longrightarrow> \<not> chunk_full a \<Longrightarrow> \<exists>p a'. chunk_malloc n a = Inr (p, a')"
  by (auto simp: chunk_malloc_def chunk_fits_def chunk_full_def chunk_ok_def)

lemma chunk_used_card: "chunk_ok a \<Longrightarrow> card (live_chunks a) = ca_used a"
proof -
  assume ok: "chunk_ok a"
  have "bij_betw (\<lambda>c. ca_back a ! c) (live_chunks a) {..<ca_used a}"
  proof (rule bij_betw_byWitness [where f' = "\<lambda>i. ca_idx a ! i"])
    show "\<forall>c\<in>live_chunks a. ca_idx a ! (ca_back a ! c) = c" using ok by (auto simp: live_chunks_def chunk_ok_def)
    show "\<forall>i\<in>{..<ca_used a}. ca_back a ! (ca_idx a ! i) = i" using ok by (auto simp: chunk_ok_def)
    show "(\<lambda>c. ca_back a ! c) ` live_chunks a \<subseteq> {..<ca_used a}" by (auto simp: live_chunks_def)
    show "(\<lambda>i. ca_idx a ! i) ` {..<ca_used a} \<subseteq> live_chunks a" using ok by (auto simp: live_chunks_def chunk_ok_def)
  qed
  then show ?thesis by (simp add: bij_betw_same_card)
qed

text \<open>Blocks of one pool do not overlap.\<close>

lemma live_blocks_disjoint:
  assumes ok: "chunk_ok a" and p: "p \<in> live_blocks a" "q \<in> live_blocks a" "p \<noteq> q"
  shows "{p..<p + ca_size a} \<inter> {q..<q + ca_size a} = {}"
proof -
  obtain c d where cd: "p = chunk_addr a c" "q = chunk_addr a d" "c \<noteq> d"
    using p by (auto simp: live_blocks_def)
  then have "Suc c \<le> d \<or> Suc d \<le> c" by auto
  then have "p + ca_size a \<le> q \<or> q + ca_size a \<le> p"
    using mult_le_mono1 [of "Suc c" d "ca_size a"] mult_le_mono1 [of "Suc d" c "ca_size a"]
    by (auto simp: cd chunk_addr_def)
  then show ?thesis by auto
qed

section \<open>The allocator\<close>

text \<open>
  \<open>Allocator\<close>: the pools in the order of the configuration (what \<open>sscanf\<close> reads for each part of
  the configuration string) and the number of blocks taken from the heap. The address a heap
  allocation returns is the answer of the C library.
\<close>

record allocator =
  al_pools :: "chunk_allocator list"
  al_heap :: u64

fun allocator_pools :: "(nat \<times> nat) option \<Rightarrow> (nat \<times> nat \<times> nat) list \<Rightarrow> exn + chunk_allocator list" where
  "allocator_pools prev [] = Inr []"
| "allocator_pools prev ((n, sz, base) # parts) =
     (case prev of
        Some (n', sz') \<Rightarrow>
          if \<not> n' > n then Inl (AssertFailed ''later allocators must have fewer chuncks'')
          else if \<not> sz' < sz then Inl (AssertFailed ''later allocators must use larger chuncks'')
          else map_sum id (\<lambda>as. chunk_new n sz base # as) (allocator_pools (Some (n, sz)) parts)
      | None \<Rightarrow> map_sum id (\<lambda>as. chunk_new n sz base # as) (allocator_pools (Some (n, sz)) parts))"

definition allocator_new :: "(nat \<times> nat \<times> nat) list \<Rightarrow> exn + allocator" where
  "allocator_new parts = map_sum id (\<lambda>as. \<lparr>al_pools = as, al_heap = 0\<rparr>) (allocator_pools None parts)"

fun pools_malloc :: "nat \<Rightarrow> chunk_allocator list \<Rightarrow> (exn + nat \<times> chunk_allocator list) option" where
  "pools_malloc n [] = None"
| "pools_malloc n (a # as) =
     (if chunk_fits n a \<and> \<not> chunk_full a
      then Some (map_sum id (\<lambda>(p, a'). (p, a' # as)) (chunk_malloc n a))
      else map_option (map_sum id (\<lambda>(p, as'). (p, a # as'))) (pools_malloc n as))"

definition allocator_malloc :: "nat \<Rightarrow> nat \<Rightarrow> allocator \<Rightarrow> exn + nat \<times> allocator" where
  "allocator_malloc heap_answer n al =
     (case pools_malloc n (al_pools al) of
        Some r \<Rightarrow> map_sum id (\<lambda>(p, as). (p, al\<lparr>al_pools := as\<rparr>)) r
      | None \<Rightarrow> Inr (heap_answer, al\<lparr>al_heap := al_heap al + 1\<rparr>))"

fun pools_free :: "nat \<Rightarrow> chunk_allocator list \<Rightarrow> (exn + chunk_allocator list) option" where
  "pools_free ptr [] = None"
| "pools_free ptr (a # as) =
     (if chunk_contains ptr a then Some (map_sum id (\<lambda>a'. a' # as) (chunk_free ptr a))
      else map_option (map_sum id (\<lambda>as'. a # as')) (pools_free ptr as))"

definition allocator_free :: "nat \<Rightarrow> allocator \<Rightarrow> exn + allocator" where
  "allocator_free ptr al =
     (case pools_free ptr (al_pools al) of
        Some r \<Rightarrow> map_sum id (\<lambda>as. al\<lparr>al_pools := as\<rparr>) r
      | None \<Rightarrow> Inr (al\<lparr>al_heap := al_heap al - 1\<rparr>))"

text \<open>The pools occupy disjoint regions, as the blocks \<open>::malloc\<close> returned for them do.\<close>

definition region :: "chunk_allocator \<Rightarrow> nat set" where
  "region a = {ca_base a..<ca_base a + ca_max a * ca_size a}"

fun pools_ok :: "chunk_allocator list \<Rightarrow> bool" where
  "pools_ok [] = True"
| "pools_ok (a # as) \<longleftrightarrow> chunk_ok a \<and> (\<forall>b\<in>set as. region a \<inter> region b = {}) \<and> pools_ok as"

definition pools_live :: "chunk_allocator list \<Rightarrow> nat set" where
  "pools_live as = (\<Union>a\<in>set as. live_blocks a)"

lemma region_contains: "chunk_contains p a \<longleftrightarrow> p \<in> region a"
  by (simp add: chunk_contains_def region_def)

lemma live_region: "chunk_ok a \<Longrightarrow> live_blocks a \<subseteq> region a"
  using chunk_of_addr(1) [where off = 0] by (auto simp: live_blocks_def live_chunks_def chunk_ok_def
      region_contains [symmetric])

lemma chunk_malloc_region: "chunk_malloc n a = Inr (p, a') \<Longrightarrow> region a' = region a"
  by (auto simp: chunk_malloc_def region_def split: if_splits)

lemma chunk_free_region: "chunk_free p a = Inr a' \<Longrightarrow> region a' = region a"
  by (auto simp: chunk_free_def region_def Let_def split: if_splits)

lemma pools_malloc_ok:
  "pools_ok as \<Longrightarrow> pools_malloc n as = Some r \<Longrightarrow>
   \<exists>p as'. r = Inr (p, as') \<and> pools_ok as' \<and> map region as' = map region as \<and>
     p \<notin> pools_live as \<and> pools_live as' = insert p (pools_live as)"
proof (induction as arbitrary: r)
  case (Cons a as)
  then have ok: "chunk_ok a" "pools_ok as" and dj: "\<And>b. b \<in> set as \<Longrightarrow> region a \<inter> region b = {}" by auto
  have lr: "live_blocks b \<subseteq> region b" if "b \<in> set as" for b
    using ok(2) that live_region by (induction as) auto
  show ?case
  proof (cases "chunk_fits n a \<and> \<not> chunk_full a")
    case True
    then obtain p a' where m: "chunk_malloc n a = Inr (p, a')" using chunk_malloc_total ok by blast
    note mo = chunk_malloc_ok [OF ok(1) m] and reg = chunk_malloc_region [OF m]
    have "p \<in> region a" using mo live_region [of a'] reg by auto
    then have "p \<notin> pools_live as" using lr dj by (fastforce simp: pools_live_def)
    with Cons.prems True m mo reg ok show ?thesis by (auto simp: pools_live_def)
  next
    case False
    then obtain r' where r': "pools_malloc n as = Some r'" and r: "r = map_sum id (\<lambda>(p, as'). (p, a # as')) r'"
      using Cons.prems(2) by auto
    from Cons.IH [OF ok(2) r'] obtain p as' where ih: "r' = Inr (p, as')" "pools_ok as'"
      "map region as' = map region as" "p \<notin> pools_live as" "pools_live as' = insert p (pools_live as)"
      by blast
    have "region ` set as' = region ` set as" using ih(3) by (metis list.set_map)
    with dj have dj': "\<forall>b\<in>set as'. region a \<inter> region b = {}" by (metis image_iff)
    have lr': "live_blocks b \<subseteq> region b" if "b \<in> set as'" for b
      using ih(2) that live_region by (induction as') auto
    have "p \<in> pools_live as'" using ih(5) by simp
    then have "p \<notin> live_blocks a"
      using dj' lr' live_region [OF ok(1)] by (fastforce simp: pools_live_def)
    with r ih ok dj' show ?thesis by (auto simp: pools_live_def)
  qed
qed simp

lemma pools_free_ok:
  "pools_ok as \<Longrightarrow> p \<in> pools_live as \<Longrightarrow>
   \<exists>as'. pools_free p as = Some (Inr as') \<and> pools_ok as' \<and> map region as' = map region as \<and>
     pools_live as' = pools_live as - {p}"
proof (induction as)
  case (Cons a as)
  then have ok: "chunk_ok a" "pools_ok as" and dj: "\<And>b. b \<in> set as \<Longrightarrow> region a \<inter> region b = {}" by auto
  have lr: "live_blocks b \<subseteq> region b" if "b \<in> set as" for b
    using ok(2) that live_region by (induction as) auto
  show ?case
  proof (cases "chunk_contains p a")
    case True
    then have pr: "p \<in> region a" by (simp add: region_contains)
    then have no: "p \<notin> pools_live as" using lr dj by (fastforce simp: pools_live_def)
    with Cons.prems have "p \<in> live_blocks a" by (simp add: pools_live_def)
    from chunk_free_live [OF ok(1) this] obtain a' where a': "chunk_free p a = Inr a'" "chunk_ok a'"
      "live_blocks a' = live_blocks a - {p}" by blast
    with True no dj ok chunk_free_region [OF a'(1)] show ?thesis by (auto simp: pools_live_def)
  next
    case False
    then have "p \<notin> live_blocks a" using live_region [OF ok(1)] by (auto simp: region_contains)
    with Cons obtain as' where ih: "pools_free p as = Some (Inr as')" "pools_ok as'"
      "map region as' = map region as" "pools_live as' = pools_live as - {p}"
      by (auto simp: pools_live_def)
    have "region ` set as' = region ` set as" using ih(3) by (metis list.set_map)
    with dj have "\<forall>b\<in>set as'. region a \<inter> region b = {}" by (metis image_iff)
    with ih ok False \<open>p \<notin> live_blocks a\<close> show ?thesis by (auto simp: pools_live_def)
  qed
qed (simp add: pools_live_def)

end
