(* ===== verification/Serializer.thy ===== *)
theory Serializer
  imports Prelude
begin

text \<open>
  The wire format of saftbus (saftbus/saftbus.hpp, saftbus/saftbus.cpp): values without type
  information, aligned by padding, and length-prefixed messages on a stream that may deliver them
  in pieces. A pair of put and get that belongs together is a \<open>serdes\<close>; compound types are built
  from such pairs.
\<close>

type_synonym bytes = "u8 list"

section \<open>Bytes of a word\<close>

text \<open>The object representation of an unsigned integer (little endian).\<close>

definition le_bytes :: "nat \<Rightarrow> 'a::len word \<Rightarrow> bytes" where
  "le_bytes n w = map (\<lambda>i. ucast (drop_bit (8 * i) w)) [0..<n]"

fun of_le :: "bytes \<Rightarrow> 'a::len word" where
  "of_le [] = 0"
| "of_le (b # bs) = ucast b OR push_bit 8 (of_le bs)"

lemma length_le_bytes [simp]: "length (le_bytes n w) = n"
  by (simp add: le_bytes_def)

lemma bit_of_le:
  "bit (of_le bs :: 'a::len word) n \<longleftrightarrow> n < LENGTH('a) \<and> n div 8 < length bs \<and> bit (bs ! (n div 8)) (n mod 8)"
proof (induction bs arbitrary: n)
  case (Cons b bs)
  show ?case
  proof (cases "n < 8")
    case True
    then show ?thesis by (auto simp: bit_or_iff bit_push_bit_iff bit_ucast_iff)
  next
    case False
    then obtain m where n: "n = m + 8" by (metis add.commute le_Suc_ex not_less)
    have "\<not> bit b n" using False by (auto dest: bit_imp_le_length)
    moreover have "(m + 8) div 8 = Suc (m div 8)" by simp
    ultimately show ?thesis using Cons [of m] by (auto simp: n bit_or_iff bit_push_bit_iff bit_ucast_iff)
  qed
qed simp

lemma of_le_bytes:
  assumes "LENGTH('a::len) \<le> 8 * n"
  shows "of_le (le_bytes n (w :: 'a word)) = w"
proof (rule bit_word_eqI)
  fix k assume k: "k < LENGTH('a)"
  then have "k div 8 < n" using assms by (simp add: div_less_iff_less_mult)
  moreover have "8 * (k div 8) + k mod 8 = k" by simp
  ultimately show "bit (of_le (le_bytes n w) :: 'a word) k = bit w k"
    using k by (simp add: bit_of_le le_bytes_def bit_ucast_iff bit_drop_bit_eq)
qed

section \<open>Serializer\<close>

text \<open>\<open>while(_data.size()%sizeof(T) != 0) _data.push_back('x')\<close>.\<close>

function put_padding :: "nat \<Rightarrow> bytes \<Rightarrow> bytes" where
  "put_padding k d = (if k = 0 \<or> length d mod k = 0 then d else put_padding k (d @ [0x78]))"
  by auto
termination
  by (relation "measure (\<lambda>(k, d). if length d mod k = 0 then 0 else k - length d mod k)")
    (auto simp: mod_Suc split: if_splits intro!: diff_less_mono2)

declare put_padding.simps [simp del]

definition put_pod :: "nat \<Rightarrow> bytes \<Rightarrow> bytes \<Rightarrow> bytes" where
  "put_pod sizeof val d = put_padding sizeof d @ val"

definition put_size :: "nat \<Rightarrow> bytes \<Rightarrow> bytes" where
  "put_size n = put_pod 8 (le_bytes 8 (of_nat n :: u64))"

text \<open>A vector of plain elements, each given by its bytes.\<close>

definition put_vector :: "nat \<Rightarrow> bytes list \<Rightarrow> bytes \<Rightarrow> bytes" where
  "put_vector sizeof v d = put_padding sizeof (put_size (length v) d) @ concat v"

definition put_string :: "bytes \<Rightarrow> bytes \<Rightarrow> bytes" where
  "put_string s d = put_size (length s) d @ s"

text \<open>The loops over the elements: nested vectors, vectors of strings, maps.\<close>

definition put_elements :: "('a \<Rightarrow> bytes \<Rightarrow> bytes) \<Rightarrow> 'a list \<Rightarrow> bytes \<Rightarrow> bytes" where
  "put_elements put xs d = fold put xs (put_size (length xs) d)"

definition put_pair :: "('a \<Rightarrow> bytes \<Rightarrow> bytes) \<Rightarrow> ('b \<Rightarrow> bytes \<Rightarrow> bytes) \<Rightarrow> 'a \<times> 'b \<Rightarrow> bytes \<Rightarrow> bytes" where
  "put_pair put_a put_b p d = put_b (snd p) (put_a (fst p) d)"

definition put_map :: "('k \<Rightarrow> bytes \<Rightarrow> bytes) \<Rightarrow> ('v \<Rightarrow> bytes \<Rightarrow> bytes) \<Rightarrow> ('k \<times> 'v) list \<Rightarrow> bytes \<Rightarrow> bytes" where
  "put_map put_k put_v = put_elements (put_pair put_k put_v)"

section \<open>Deserializer\<close>

record deserializer =
  de_data :: bytes
  de_iter :: nat
  de_saved :: nat

text \<open>Reading past the end of the data is undefined behaviour; the code does not check it.\<close>

function skip_padding :: "nat \<Rightarrow> nat \<Rightarrow> nat" where
  "skip_padding k i = (if k = 0 \<or> i mod k = 0 then i else skip_padding k (i + 1))"
  by auto
termination
  by (relation "measure (\<lambda>(k, i). if i mod k = 0 then 0 else k - i mod k)")
    (auto simp: mod_Suc split: if_splits intro!: diff_less_mono2)

declare skip_padding.simps [simp del]

definition get_bytes :: "nat \<Rightarrow> deserializer \<Rightarrow> exn + bytes \<times> deserializer" where
  "get_bytes n de =
     (if de_iter de + n \<le> length (de_data de)
      then Inr (take n (drop (de_iter de) (de_data de)), de\<lparr>de_iter := de_iter de + n\<rparr>)
      else Inl (Undefined ''read past the end of the data''))"

definition get_pod :: "nat \<Rightarrow> deserializer \<Rightarrow> exn + bytes \<times> deserializer" where
  "get_pod sizeof de = get_bytes sizeof (de\<lparr>de_iter := skip_padding sizeof (de_iter de)\<rparr>)"

definition get_size :: "deserializer \<Rightarrow> exn + nat \<times> deserializer" where
  "get_size de =
     (case get_pod 8 de of
        Inl e \<Rightarrow> Inl e
      | Inr (bs, de') \<Rightarrow> Inr (unat (of_le bs :: u64), de'))"

fun split_elements :: "nat \<Rightarrow> nat \<Rightarrow> bytes \<Rightarrow> bytes list" where
  "split_elements sizeof 0 bs = []"
| "split_elements sizeof (Suc n) bs = take sizeof bs # split_elements sizeof n (drop sizeof bs)"

definition get_vector :: "nat \<Rightarrow> deserializer \<Rightarrow> exn + bytes list \<times> deserializer" where
  "get_vector sizeof de =
     (case get_size de of
        Inl e \<Rightarrow> Inl e
      | Inr (n, de') \<Rightarrow>
          (case get_bytes (sizeof * n) (de'\<lparr>de_iter := skip_padding sizeof (de_iter de')\<rparr>) of
             Inl e \<Rightarrow> Inl e
           | Inr (bs, de'') \<Rightarrow> Inr (split_elements sizeof n bs, de'')))"

definition get_string :: "deserializer \<Rightarrow> exn + bytes \<times> deserializer" where
  "get_string de = (case get_size de of Inl e \<Rightarrow> Inl e | Inr (n, de') \<Rightarrow> get_bytes n de')"

fun get_many :: "(deserializer \<Rightarrow> exn + 'a \<times> deserializer) \<Rightarrow> nat \<Rightarrow> deserializer \<Rightarrow> exn + 'a list \<times> deserializer" where
  "get_many get 0 de = Inr ([], de)"
| "get_many get (Suc n) de =
     (case get de of
        Inl e \<Rightarrow> Inl e
      | Inr (x, de') \<Rightarrow>
          (case get_many get n de' of Inl e \<Rightarrow> Inl e | Inr (xs, de'') \<Rightarrow> Inr (x # xs, de'')))"

definition get_elements :: "(deserializer \<Rightarrow> exn + 'a \<times> deserializer) \<Rightarrow> deserializer \<Rightarrow> exn + 'a list \<times> deserializer" where
  "get_elements get de = (case get_size de of Inl e \<Rightarrow> Inl e | Inr (n, de') \<Rightarrow> get_many get n de')"

definition get_pair ::
  "(deserializer \<Rightarrow> exn + 'a \<times> deserializer) \<Rightarrow> (deserializer \<Rightarrow> exn + 'b \<times> deserializer)
   \<Rightarrow> deserializer \<Rightarrow> exn + ('a \<times> 'b) \<times> deserializer" where
  "get_pair get_a get_b de =
     (case get_a de of
        Inl e \<Rightarrow> Inl e
      | Inr (a, de') \<Rightarrow> (case get_b de' of Inl e \<Rightarrow> Inl e | Inr (b, de'') \<Rightarrow> Inr ((a, b), de'')))"

text \<open>\<open>std_map.insert\<close> for each pair: the first of two equal keys stays.\<close>

definition get_map ::
  "(deserializer \<Rightarrow> exn + 'k::linorder \<times> deserializer) \<Rightarrow> (deserializer \<Rightarrow> exn + 'v \<times> deserializer)
   \<Rightarrow> deserializer \<Rightarrow> exn + ('k \<times> 'v) list \<times> deserializer" where
  "get_map get_k get_v de =
     (case get_elements (get_pair get_k get_v) de of
        Inl e \<Rightarrow> Inl e
      | Inr (kvs, de') \<Rightarrow> Inr (fold (\<lambda>(k, v). omap_insert k v) kvs [], de'))"

definition de_save :: "deserializer \<Rightarrow> deserializer" where
  "de_save de = de\<lparr>de_saved := de_iter de\<rparr>"

definition de_restore :: "deserializer \<Rightarrow> deserializer" where
  "de_restore de = de\<lparr>de_iter := de_saved de\<rparr>"

section \<open>Put and get belong together\<close>

text \<open>
  Whatever was put before and whatever follows, getting at the place where the value was put
  returns it and moves behind it.
\<close>

abbreviation de_at :: "bytes \<Rightarrow> nat \<Rightarrow> nat \<Rightarrow> deserializer" where
  "de_at d i s \<equiv> \<lparr>de_data = d, de_iter = i, de_saved = s\<rparr>"

locale serdes =
  fixes valid :: "'a \<Rightarrow> bool"
    and put :: "'a \<Rightarrow> bytes \<Rightarrow> bytes"
    and get :: "deserializer \<Rightarrow> exn + 'a \<times> deserializer"
  assumes put_appends: "\<exists>e. put x d = d @ e"
    and get_put: "valid x \<Longrightarrow>
      get (de_at (put x d @ rest) (length d) s) = Inr (x, de_at (put x d @ rest) (length (put x d)) s)"
begin

lemma fold_put_appends: "\<exists>e. fold put xs d = d @ e"
proof (induction xs arbitrary: d)
  case (Cons x xs)
  obtain e where "put x d = d @ e" using put_appends by blast
  with Cons [of "put x d"] show ?case by auto
qed simp

lemma get_many_fold_put:
  "list_all valid xs \<Longrightarrow>
   get_many get (length xs) (de_at (fold put xs d @ rest) (length d) s) =
     Inr (xs, de_at (fold put xs d @ rest) (length (fold put xs d)) s)"
proof (induction xs arbitrary: d)
  case (Cons x xs)
  obtain e where e: "fold put xs (put x d) = put x d @ e" using fold_put_appends by blast
  have "get (de_at (put x d @ (e @ rest)) (length d) s) =
      Inr (x, de_at (put x d @ (e @ rest)) (length (put x d)) s)"
    using Cons.prems get_put by simp
  with Cons.IH [of "put x d"] Cons.prems show ?case by (simp add: e)
qed simp

end

lemma put_padding_appends: "\<exists>e. put_padding k d = d @ e"
proof (induction k d rule: put_padding.induct)
  case (1 k d)
  show ?case
  proof (cases "k = 0 \<or> length d mod k = 0")
    case True
    then show ?thesis by (subst put_padding.simps) simp
  next
    case False
    with 1 obtain e where "put_padding k (d @ [0x78]) = (d @ [0x78]) @ e" by blast
    with False show ?thesis by (subst put_padding.simps) auto
  qed
qed

lemma length_put_padding: "length (put_padding k d) = skip_padding k (length d)"
proof (induction k d rule: put_padding.induct)
  case (1 k d)
  then show ?case
    by (subst put_padding.simps, subst skip_padding.simps) (auto simp: put_padding.simps skip_padding.simps)
qed

lemma put_padding_aligned: "k > 0 \<Longrightarrow> k dvd length (put_padding k d)"
proof (induction k d rule: put_padding.induct)
  case (1 k d)
  show ?case
  proof (cases "length d mod k = 0")
    case True
    then show ?thesis by (subst put_padding.simps) (simp add: dvd_eq_mod_eq_0)
  next
    case False
    with 1 show ?thesis by (subst put_padding.simps) simp
  qed
qed

lemma get_pod_put_pod:
  "length v = k \<Longrightarrow>
   get_pod k (de_at (put_pod k v d @ rest) (length d) s) =
     Inr (v, de_at (put_pod k v d @ rest) (length (put_pod k v d)) s)"
  by (simp add: get_pod_def put_pod_def get_bytes_def flip: length_put_padding)

interpretation pod: serdes "\<lambda>v. length v = k" "put_pod k" "get_pod k" for k
proof
  show "\<exists>e. put_pod k x d = d @ e" for x d
    using put_padding_appends [of k d] by (auto simp: put_pod_def)
qed (rule get_pod_put_pod)

lemma put_size_appends: "\<exists>e. put_size n d = d @ e"
  unfolding put_size_def by (rule pod.put_appends)

lemma get_size_put_size:
  "n < 2 ^ 64 \<Longrightarrow>
   get_size (de_at (put_size n d @ rest) (length d) s) =
     Inr (n, de_at (put_size n d @ rest) (length (put_size n d)) s)"
  by (simp add: get_size_def put_size_def get_pod_put_pod of_le_bytes unsigned_of_nat
      take_bit_nat_eq_self)

interpretation string: serdes "\<lambda>v. length v < 2 ^ 64" put_string get_string
proof
  show "\<exists>e. put_string x d = d @ e" for x d
    using put_size_appends [of "length x" d] by (auto simp: put_string_def)
  show "get_string (de_at (put_string x d @ rest) (length d) s) =
      Inr (x, de_at (put_string x d @ rest) (length (put_string x d)) s)"
    if "length x < 2 ^ 64" for x d rest s
    using get_size_put_size [OF that, of d "x @ rest" s]
    by (simp add: get_string_def put_string_def get_bytes_def)
qed

lemma split_elements_concat:
  "list_all (\<lambda>v. length v = k) vs \<Longrightarrow> split_elements k (length vs) (concat vs) = vs"
  by (induction vs) auto

lemma length_concat_pods: "list_all (\<lambda>v. length v = k) vs \<Longrightarrow> length (concat vs) = k * length vs"
  by (induction vs) auto

interpretation vector: serdes "\<lambda>vs. list_all (\<lambda>v. length v = k) vs \<and> length vs < 2 ^ 64"
    "put_vector k" "get_vector k" for k
proof
  show "\<exists>e. put_vector k vs d = d @ e" for vs d
    using put_size_appends [of "length vs" d] put_padding_appends [of k "put_size (length vs) d"]
    by (auto simp: put_vector_def)
  show "get_vector k (de_at (put_vector k vs d @ rest) (length d) s) =
      Inr (vs, de_at (put_vector k vs d @ rest) (length (put_vector k vs d)) s)"
    if v: "list_all (\<lambda>v. length v = k) vs \<and> length vs < 2 ^ 64" for vs d rest s
  proof -
    obtain e where e: "put_padding k (put_size (length vs) d) = put_size (length vs) d @ e"
      using put_padding_appends by blast
    have len: "length (put_size (length vs) d @ e) = skip_padding k (length (put_size (length vs) d))"
      by (metis e length_put_padding)
    have "length (concat vs) = k * length vs" using v length_concat_pods by blast
    then show ?thesis
      using v get_size_put_size [of "length vs" d "e @ concat vs @ rest" s] len
      by (simp add: get_vector_def put_vector_def e get_bytes_def split_elements_concat)
  qed
qed

context serdes
begin

lemma elements_serdes:
  "serdes (\<lambda>xs. list_all valid xs \<and> length xs < 2 ^ 64) (put_elements put) (get_elements get)"
proof
  fix xs :: "'a list" and d
  obtain e1 where "put_size (length xs) d = d @ e1" using put_size_appends by blast
  moreover obtain e2 where "fold put xs (put_size (length xs) d) = put_size (length xs) d @ e2"
    using fold_put_appends by blast
  ultimately show "\<exists>e. put_elements put xs d = d @ e" by (simp add: put_elements_def)
next
  fix xs :: "'a list" and d rest s
  assume v: "list_all valid xs \<and> length xs < 2 ^ 64"
  obtain e where e: "fold put xs (put_size (length xs) d) = put_size (length xs) d @ e"
    using fold_put_appends by blast
  show "get_elements get (de_at (put_elements put xs d @ rest) (length d) s) =
      Inr (xs, de_at (put_elements put xs d @ rest) (length (put_elements put xs d)) s)"
    using v get_size_put_size [of "length xs" d "e @ rest" s]
      get_many_fold_put [of xs "put_size (length xs) d" rest s]
    by (simp add: get_elements_def put_elements_def e)
qed

end

lemma pair_serdes:
  assumes "serdes va pa ga" "serdes vb pb gb"
  shows "serdes (\<lambda>(a, b). va a \<and> vb b) (put_pair pa pb) (get_pair ga gb)"
proof
  fix p :: "'a \<times> 'b" and d
  show "\<exists>e. put_pair pa pb p d = d @ e"
    using serdes.put_appends [OF assms(1), of "fst p" d]
      serdes.put_appends [OF assms(2), of "snd p" "pa (fst p) d"]
    by (auto simp: put_pair_def)
next
  fix p :: "'a \<times> 'b" and d rest s
  assume v: "case p of (a, b) \<Rightarrow> va a \<and> vb b"
  obtain a b where p: "p = (a, b)" by fastforce
  obtain e where e: "pb b (pa a d) = pa a d @ e" using serdes.put_appends [OF assms(2)] by blast
  show "get_pair ga gb (de_at (put_pair pa pb p d @ rest) (length d) s) =
      Inr (p, de_at (put_pair pa pb p d @ rest) (length (put_pair pa pb p d)) s)"
    using v serdes.get_put [OF assms(1), of a d "e @ rest" s]
      serdes.get_put [OF assms(2), of b "pa a d" rest s]
    by (simp add: p get_pair_def put_pair_def e)
qed

interpretation strings: serdes "\<lambda>xs. list_all (\<lambda>v. length v < 2 ^ 64) xs \<and> length xs < 2 ^ 64"
    "put_elements put_string" "get_elements get_string"
  by (rule string.elements_serdes)

lemma omap_put_last:
  "\<forall>k'\<in>fst ` set xs. k' < k \<Longrightarrow> omap_put k v xs = xs @ [(k, v)]"
  by (induction xs) auto

lemma fold_omap_insert:
  "omap_ok (acc @ kvs) \<Longrightarrow> fold (\<lambda>(k, v). omap_insert k v) kvs acc = acc @ kvs"
proof (induction kvs arbitrary: acc)
  case (Cons p kvs)
  obtain k v where p: "p = (k, v)" by fastforce
  have less: "\<forall>k'\<in>fst ` set acc. k' < k"
    using Cons.prems by (auto simp: p sorted_wrt_append)
  then have "map_of acc k = None" unfolding map_of_eq_None_iff by blast
  with less have "omap_insert k v acc = acc @ [(k, v)]" by (simp add: omap_insert_def omap_put_last)
  with Cons.IH [of "acc @ [p]"] Cons.prems show ?case by (simp add: p)
qed simp

lemma map_serdes:
  assumes "serdes vk pk gk" "serdes vv pv gv"
  shows "serdes (\<lambda>m. omap_ok m \<and> list_all (\<lambda>(k, v). vk k \<and> vv v) m \<and> length m < 2 ^ 64)
    (put_map pk pv) (get_map gk gv)"
proof
  note el = serdes.elements_serdes [OF pair_serdes [OF assms]]
  fix m :: "('a \<times> 'b) list" and d
  show "\<exists>e. put_map pk pv m d = d @ e"
    unfolding put_map_def by (rule serdes.put_appends [OF el])
next
  note el = serdes.elements_serdes [OF pair_serdes [OF assms]]
  fix m :: "('a \<times> 'b) list" and d rest s
  assume v: "omap_ok m \<and> list_all (\<lambda>(k, v). vk k \<and> vv v) m \<and> length m < 2 ^ 64"
  then show "get_map gk gv (de_at (put_map pk pv m d @ rest) (length d) s) =
      Inr (m, de_at (put_map pk pv m d @ rest) (length (put_map pk pv m d)) s)"
    using serdes.get_put [OF el, of m d rest s] fold_omap_insert [of "[]" m]
    by (simp add: get_map_def put_map_def)
qed

interpretation interface_map: serdes
    "\<lambda>m. omap_ok m \<and> list_all (\<lambda>(k, v). length k < 2 ^ 64 \<and> length v = 4) m \<and> length m < 2 ^ 64"
    "put_map put_string (put_pod 4)" "get_map get_string (get_pod 4)"
  by (rule map_serdes) unfold_locales

section \<open>Messages on a stream\<close>

text \<open>
  \<open>write_all\<close>: at most 100000 bytes are offered to \<open>::write\<close> at a time, and a chunk is finished
  before the next. \<open>answers\<close> are the results of the successive calls, each at most the number of
  bytes offered. One step of the model is one call; without a further answer the call blocks.
  The result is the return value, the bytes that were written and the answers left.
\<close>

fun write_steps :: "int list \<Rightarrow> bytes \<Rightarrow> bytes \<Rightarrow> bytes \<Rightarrow> (int \<times> bytes \<times> int list) option" where
  "write_steps [] chunk after written = None"
| "write_steps (r # answers) chunk after written =
     (if r > 0 then
        let chunk' = drop (nat r) chunk; written' = written @ take (nat r) chunk
        in if chunk' \<noteq> [] then write_steps answers chunk' after written'
           else if after \<noteq> [] then write_steps answers (take 100000 after) (drop 100000 after) written'
           else Some (int (length written'), written', answers)
      else Some (r, written, answers))"

definition write_all :: "int list \<Rightarrow> bytes \<Rightarrow> (int \<times> bytes \<times> int list) option" where
  "write_all answers buffer = write_steps answers (take 100000 buffer) (drop 100000 buffer) []"

text \<open>
  \<open>read_all\<close>: the answers of \<open>::read\<close> are the bytes delivered, at most as many as asked for, or
  the non-positive result of an ended or failed stream.
\<close>

fun read_steps :: "(int + bytes) list \<Rightarrow> nat \<Rightarrow> bytes \<Rightarrow> (int \<times> bytes \<times> (int + bytes) list) option" where
  "read_steps [] n got = None"
| "read_steps (Inl r # answers) n got = Some (r, got, answers)"
| "read_steps (Inr bs # answers) n got =
     (if bs = [] then Some (0, got, answers)
      else if length (got @ bs) < n then read_steps answers n (got @ bs)
      else Some (int (length (got @ bs)), got @ bs, answers))"

definition read_all :: "(int + bytes) list \<Rightarrow> nat \<Rightarrow> (int \<times> bytes \<times> (int + bytes) list) option" where
  "read_all answers n = read_steps answers n []"

text \<open>\<open>int size = _data.size()\<close> and its four bytes go first.\<close>

definition size_word :: "bytes \<Rightarrow> u32" where
  "size_word d = of_nat (length d)"

definition write_to_no_init :: "int list \<Rightarrow> bytes \<Rightarrow> (bool \<times> bytes \<times> int list) option" where
  "write_to_no_init answers d =
     (case write_all answers (le_bytes 4 (size_word d)) of
        None \<Rightarrow> None
      | Some (result, w1, answers1) \<Rightarrow>
          if result < 4 then Some (False, w1, answers1)
          else case write_all answers1 d of
            None \<Rightarrow> None
          | Some (result, w2, answers2) \<Rightarrow>
              Some (\<not> result < sint (size_word d), w1 @ w2, answers2))"

text \<open>
  \<open>read_from\<close>: a negative size is converted to a huge \<open>size_t\<close> and \<open>resize\<close> throws
  \<open>std::length_error\<close>.
\<close>

definition read_from ::
  "(int + bytes) list \<Rightarrow> deserializer \<Rightarrow> ((exn + bool) \<times> deserializer \<times> (int + bytes) list) option" where
  "read_from answers de =
     (case read_all answers 4 of
        None \<Rightarrow> None
      | Some (result, bs, answers1) \<Rightarrow>
          if result < 4 then Some (Inr False, de, answers1)
          else let n = sint (of_le bs :: u32) in
            if n < 0 then Some (Inl (OtherException ''vector::_M_default_append''), de, answers1)
            else case read_all answers1 (nat n) of
              None \<Rightarrow> None
            | Some (result, d, answers2) \<Rightarrow>
                if result < n
                then Some (Inr False, de\<lparr>de_data := d @ replicate (nat n - length d) 0\<rparr>, answers2)
                else Some (Inr True, de\<lparr>de_data := d, de_iter := 0\<rparr>, answers2))"

text \<open>Either everything was written, or a prefix before a call failed.\<close>

lemma write_steps_result:
  "write_steps answers chunk after w = Some (r, out, answers') \<Longrightarrow>
   (out = w @ chunk @ after \<and> r = int (length out)) \<or> (r \<le> 0 \<and> (\<exists>n. out = w @ take n (chunk @ after)))"
proof (induction answers chunk after w rule: write_steps.induct)
  case (2 x answers chunk after w)
  let ?chunk = "drop (nat x) chunk" and ?w = "w @ take (nat x) chunk"
  show ?case
  proof (cases "x > 0")
    case False
    with 2 have "r = x" "out = w @ take 0 (chunk @ after)" by auto
    with False show ?thesis by (metis not_less)
  next
    case pos: True
    show ?thesis
    proof (cases "?chunk \<noteq> []")
      case True
      have eq: "take (nat x) chunk @ take n (drop (nat x) chunk @ after) =
          take (nat x + n) (chunk @ after)" for n
        using True take_add [of "nat x" n "chunk @ after"] by simp
      from True pos 2 have "(out = ?w @ ?chunk @ after \<and> r = int (length out)) \<or>
          (r \<le> 0 \<and> (\<exists>n. out = ?w @ take n (?chunk @ after)))"
        by (simp add: Let_def)
      then show ?thesis
        by (metis append.assoc append_take_drop_id eq)
    next
      case False
      then have c: "take (nat x) chunk = chunk" by simp
      show ?thesis
      proof (cases "after \<noteq> []")
        case True
        have "(out = ?w @ take 100000 after @ drop 100000 after \<and> r = int (length out)) \<or>
          (r \<le> 0 \<and> (\<exists>n. out = ?w @ take n (take 100000 after @ drop 100000 after)))"
          using True False pos 2 by (simp add: Let_def)
        then have "(out = w @ chunk @ after \<and> r = int (length out)) \<or>
            (r \<le> 0 \<and> (\<exists>n. out = w @ chunk @ take n after))"
          using c by simp
        moreover have "chunk @ take n after = take (length chunk + n) (chunk @ after)" for n by simp
        ultimately show ?thesis by metis
      next
        case False
        with \<open>\<not> ?chunk \<noteq> []\<close> pos 2(3) c show ?thesis by auto
      qed
    qed
  qed
qed simp

lemma write_steps_enough:
  "list_all (\<lambda>r. r > 0) answers \<Longrightarrow> chunk \<noteq> [] \<Longrightarrow> length (chunk @ after) \<le> length answers \<Longrightarrow>
   \<exists>answers'. write_steps answers chunk after w =
     Some (int (length (w @ chunk @ after)), w @ chunk @ after, answers')"
proof (induction answers chunk after w rule: write_steps.induct)
  case (2 x answers chunk after w)
  then have x: "x > 0" "nat x > 0" by auto
  show ?case
  proof (cases "drop (nat x) chunk \<noteq> []")
    case True
    then have "length (drop (nat x) chunk @ after) \<le> length answers"
      using 2(4,5) x(2) by (cases chunk) auto
    with True 2(1) [OF x(1) refl refl True] 2(3) x show ?thesis
      by (auto simp: Let_def)
  next
    case False
    then have c: "take (nat x) chunk = chunk" "drop (nat x) chunk = []" by simp_all
    show ?thesis
    proof (cases "after = []")
      case True
      with c x show ?thesis by (simp add: Let_def)
    next
      case a: False
      then have "length (take 100000 after @ drop 100000 after) \<le> length answers"
        using 2(4,5) by (cases chunk) auto
      with a False 2(2) [OF x(1) refl refl] 2(3) x c show ?thesis by (simp add: Let_def)
    qed
  qed
qed simp

lemma write_all_result:
  "write_all answers d = Some (r, out, answers') \<Longrightarrow> r = int (length d) \<and> out = d \<or> r \<le> 0 \<and> (\<exists>n. out = take n d)"
  unfolding write_all_def by (drule write_steps_result) auto

lemma write_all_enough:
  "list_all (\<lambda>r. r > 0) answers \<Longrightarrow> d \<noteq> [] \<Longrightarrow> length d \<le> length answers \<Longrightarrow>
   \<exists>answers'. write_all answers d = Some (int (length d), d, answers')"
  using write_steps_enough [of answers "take 100000 d" "drop 100000 d" "[]"]
  by (simp add: write_all_def)

lemma read_steps_pieces:
  "pieces \<noteq> [] \<Longrightarrow> [] \<notin> set pieces \<Longrightarrow> length (got @ concat pieces) = n \<Longrightarrow>
   read_steps (map Inr pieces @ rest) n got = Some (int n, got @ concat pieces, rest)"
proof (induction pieces arbitrary: got)
  case (Cons b pieces)
  show ?case
  proof (cases pieces)
    case Nil
    with Cons.prems show ?thesis by auto
  next
    case (Cons c cs)
    with Cons.prems have "length (concat pieces) > 0" by (cases c) auto
    moreover from Cons Cons.prems have "pieces \<noteq> []" "[] \<notin> set pieces" by auto
    ultimately show ?thesis using Cons.prems Cons.IH [of "got @ b"] by auto
  qed
qed simp

lemma size_word_le: "length d < 2 ^ 31 \<Longrightarrow> sint (size_word d) = int (length d)"
  by (simp add: size_word_def signed_of_nat signed_take_bit_int_eq_self)

text \<open>What was written on one side is what is read on the other, however it was cut.\<close>

lemma read_from_pieces:
  assumes d: "length d < 2 ^ 31" "d \<noteq> []" and h: "concat header = le_bytes 4 (size_word d)"
    and b: "concat body = d" and ne: "[] \<notin> set header" "[] \<notin> set body"
  shows "read_from (map Inr (header @ body) @ rest) de = Some (Inr True, de\<lparr>de_data := d, de_iter := 0\<rparr>, rest)"
proof -
  have "header \<noteq> []" using h by (metis concat.simps(1) length_le_bytes list.size(3) zero_neq_numeral)
  moreover have "length (concat header) = 4" by (simp add: h)
  ultimately have 1: "read_all (map Inr header @ map Inr body @ rest) 4 =
      Some (4, le_bytes 4 (size_word d), map Inr body @ rest)"
    using read_steps_pieces [of header "[]" 4 "map Inr body @ rest"] ne h by (simp add: read_all_def)
  have "body \<noteq> []" using b d(2) by auto
  then have 2: "read_all (map Inr body @ rest) (length d) = Some (int (length d), d, rest)"
    using read_steps_pieces [of body "[]" "length d" rest] ne b by (simp add: read_all_def)
  have "of_le (le_bytes 4 (size_word d)) = size_word d" by (rule of_le_bytes) simp
  then show ?thesis
    using 1 2 size_word_le [OF d(1)] by (simp add: read_from_def Let_def)
qed

lemma write_to_true:
  assumes d: "length d < 2 ^ 31" "d \<noteq> []" and w: "write_to_no_init answers d = Some (True, out, answers')"
  shows "out = le_bytes 4 (size_word d) @ d"
proof -
  obtain r1 w1 a1 where 1: "write_all answers (le_bytes 4 (size_word d)) = Some (r1, w1, a1)" "\<not> r1 < 4"
    using w by (auto simp: write_to_no_init_def split: option.splits if_splits)
  obtain r2 w2 a2 where 2: "write_all a1 d = Some (r2, w2, a2)" "\<not> r2 < sint (size_word d)" "out = w1 @ w2"
    using w 1 by (auto simp: write_to_no_init_def split: option.splits)
  have "r2 > 0" using 2(2) d size_word_le [OF d(1)] by (cases d) auto
  then show ?thesis using write_all_result [OF 1(1)] write_all_result [OF 2(1)] 1(2) 2(3) by auto
qed

end
