(* ===== verification/Time_Conversion.thy ===== *)
theory Time_Conversion
  imports Prelude
begin

text \<open>
  TAI and UTC (src/Time.cpp, src/Time.hpp). Time values are nanoseconds in 64 bits; the functions
  walk over the table of leap seconds, newest first. Indexing outside of the table is undefined.
\<close>

section \<open>Leap seconds\<close>

definition EPOCH_OFFSET_1900_TO_1970 :: u64 where
  "EPOCH_OFFSET_1900_TO_1970 = 2208988800"

text \<open>\<open>LEAP_SECONDS_TABLE\<close>: seconds since 1900 and the offset from then on.\<close>

definition LEAP_SECONDS_TABLE :: "(int \<times> int) list" where
  "LEAP_SECONDS_TABLE =
     [(3692217600, 37), (3644697600, 36), (3550089600, 35), (3439756800, 34), (3345062400, 33),
      (3124137600, 32), (3076704000, 31), (3029443200, 30), (2982009600, 29), (2950473600, 28),
      (2918937600, 27), (2871676800, 26), (2840140800, 25), (2776982400, 24), (2698012800, 23),
      (2634854400, 22), (2603318400, 21), (2571782400, 20), (2524521600, 19), (2492985600, 18),
      (2461449600, 17), (2429913600, 16), (2398291200, 15), (2366755200, 14), (2335219200, 13),
      (2303683200, 12), (2287785600, 11), (2272060800, 10), (-1, 11)]"

definition cumulative_seconds :: "nat \<Rightarrow> exn + int" where
  "cumulative_seconds n =
     (if n < length LEAP_SECONDS_TABLE then Inr (snd (LEAP_SECONDS_TABLE ! n))
      else Inl (Undefined ''LEAP_SECONDS_TABLE index''))"

text \<open>The arithmetic mixes an 8-bit and an unsigned 64-bit operand and so is done in 64 bits.\<close>

definition leap_second_epoch :: "nat \<Rightarrow> exn + u64" where
  "leap_second_epoch n =
     (case cumulative_seconds n of
        Inl e \<Rightarrow> Inl e
      | Inr c \<Rightarrow>
          if c = - 1 then Inr (- 1)
          else case cumulative_seconds (n + 1) of
            Inl e \<Rightarrow> Inl e
          | Inr c1 \<Rightarrow>
              if c1 < c then Inr (word_of_int c - EPOCH_OFFSET_1900_TO_1970 + word_of_int c - 1)
              else Inr (word_of_int c - EPOCH_OFFSET_1900_TO_1970 + word_of_int c))"

definition leap_second_offset :: "nat \<Rightarrow> exn + u64" where
  "leap_second_offset n = map_sum id word_of_int (cumulative_seconds n)"

definition nsec_per_sec :: u64 where
  "nsec_per_sec = 1000000000"

text \<open>
  The loops end at the latest when the index leaves the table, so as many rounds as the table has
  entries and one more are enough.
\<close>

fun offset_tai_loop :: "nat \<Rightarrow> u64 \<Rightarrow> nat \<Rightarrow> exn + u64" where
  "offset_tai_loop 0 TAIsec i = Inl (Undefined ''LEAP_SECONDS_TABLE index'')"
| "offset_tai_loop (Suc fuel) TAIsec i =
     (case leap_second_epoch i of
        Inl e \<Rightarrow> Inl e
      | Inr ep \<Rightarrow>
          if ep \<le>s TAIsec then map_sum id (\<lambda>x. x * nsec_per_sec) (leap_second_offset i)
          else case leap_second_epoch (i + 1) of
            Inl e \<Rightarrow> Inl e
          | Inr ep1 \<Rightarrow>
              if ep1 = - 1 then map_sum id (\<lambda>x. x * nsec_per_sec) (leap_second_offset i)
              else offset_tai_loop fuel TAIsec (i + 1))"

definition UTC_offset_TAI :: "u64 \<Rightarrow> exn + u64" where
  "UTC_offset_TAI TAI = offset_tai_loop (length LEAP_SECONDS_TABLE + 1) (TAI div nsec_per_sec) 0"

definition TAI_to_UTC :: "u64 \<Rightarrow> exn + u64" where
  "TAI_to_UTC TAI = map_sum id (\<lambda>off. TAI - off) (UTC_offset_TAI TAI)"

fun is_leap_loop :: "nat \<Rightarrow> u64 \<Rightarrow> nat \<Rightarrow> exn + u64" where
  "is_leap_loop 0 TAIsec i = Inl (Undefined ''LEAP_SECONDS_TABLE index'')"
| "is_leap_loop (Suc fuel) TAIsec i =
     (case leap_second_epoch i of
        Inl e \<Rightarrow> Inl e
      | Inr ep \<Rightarrow>
          if ep \<le>s TAIsec then
            (if TAIsec = ep then
               (case (leap_second_offset i, leap_second_offset (i + 1)) of
                  (Inr a, Inr b) \<Rightarrow> Inr (a - b)
                | (Inl e, _) \<Rightarrow> Inl e
                | (_, Inl e) \<Rightarrow> Inl e)
             else Inr 0)
          else is_leap_loop fuel TAIsec (i + 1))"

definition TAI_is_UTCleap :: "u64 \<Rightarrow> exn + u64" where
  "TAI_is_UTCleap TAI = is_leap_loop (length LEAP_SECONDS_TABLE + 1) (TAI div nsec_per_sec) 0"

text \<open>\<open>UTC_offset_UTC\<close>: the result is the return value and the offset it stores.\<close>

fun offset_utc_loop :: "nat \<Rightarrow> u64 \<Rightarrow> bool \<Rightarrow> nat \<Rightarrow> exn + bool \<times> u64" where
  "offset_utc_loop 0 UTC leap i = Inl (Undefined ''LEAP_SECONDS_TABLE index'')"
| "offset_utc_loop (Suc fuel) UTC leap i =
     (case (leap_second_offset i, leap_second_epoch i) of
        (Inl e, _) \<Rightarrow> Inl e
      | (_, Inl e) \<Rightarrow> Inl e
      | (Inr off, Inr ep) \<Rightarrow>
         let TAIsec = UTC div nsec_per_sec + off;
             finish = (case leap_second_offset (i + 1) of
                 Inl e \<Rightarrow> Inl e
               | Inr off1 \<Rightarrow>
                   if TAIsec = ep \<and> off1 <s off
                   then Inr (True, (if leap then off else off1) * nsec_per_sec)
                   else (case TAI_to_UTC (UTC + off * nsec_per_sec) of
                           Inl e \<Rightarrow> Inl e
                         | Inr u \<Rightarrow> Inr (u = UTC, off * nsec_per_sec)))
         in if ep \<le>s TAIsec then finish
            else case leap_second_epoch (i + 1) of
              Inl e \<Rightarrow> Inl e
            | Inr ep1 \<Rightarrow> if ep1 = - 1 then finish else offset_utc_loop fuel UTC leap (i + 1))"

definition UTC_offset_UTC :: "u64 \<Rightarrow> bool \<Rightarrow> exn + bool \<times> u64" where
  "UTC_offset_UTC UTC leap = offset_utc_loop (length LEAP_SECONDS_TABLE + 1) UTC leap 0"

definition UTC_to_TAI :: "u64 \<Rightarrow> bool \<Rightarrow> exn + u64 option" where
  "UTC_to_TAI UTC leap =
     map_sum id (\<lambda>(valid, off). if valid then Some (UTC + off) else None) (UTC_offset_UTC UTC leap)"

definition UTC_difference :: "u64 \<Rightarrow> bool \<Rightarrow> u64 \<Rightarrow> bool \<Rightarrow> exn + u64 option" where
  "UTC_difference UTC1 leap1 UTC2 leap2 =
     (case UTC_to_TAI UTC1 leap1 of
        Inl e \<Rightarrow> Inl e
      | Inr None \<Rightarrow> Inr None
      | Inr (Some TAI1) \<Rightarrow>
          (case UTC_to_TAI UTC2 leap2 of
             Inl e \<Rightarrow> Inl e
           | Inr None \<Rightarrow> Inr None
           | Inr (Some TAI2) \<Rightarrow> Inr (Some (TAI1 - TAI2))))"

section \<open>The Time class\<close>

text \<open>A \<open>Time\<close> is its TAI value; durations are signed 64-bit numbers, so all arithmetic wraps.\<close>

record time =
  t_TAI :: u64

definition makeTimeTAI :: "u64 \<Rightarrow> time" where
  "makeTimeTAI TAI = \<lparr>t_TAI = TAI\<rparr>"

text \<open>For an invalid UTC value \<open>makeTimeUTC\<close> throws a \<open>Time\<close>.\<close>

definition makeTimeUTC :: "u64 \<Rightarrow> bool \<Rightarrow> exn + time" where
  "makeTimeUTC UTC leap =
     (case UTC_to_TAI UTC leap of
        Inl e \<Rightarrow> Inl e
      | Inr (Some TAI) \<Rightarrow> Inr \<lparr>t_TAI = TAI\<rparr>
      | Inr None \<Rightarrow> Inl (OtherException ''Time''))"

definition getUTC :: "time \<Rightarrow> exn + u64" where
  "getUTC t = TAI_to_UTC (t_TAI t)"

definition getUTCOffset :: "time \<Rightarrow> exn + u64" where
  "getUTCOffset t = UTC_offset_TAI (t_TAI t)"

definition isLeapUTC :: "time \<Rightarrow> exn + u64" where
  "isLeapUTC t = TAI_is_UTCleap (t_TAI t)"

definition time_plus :: "time \<Rightarrow> u64 \<Rightarrow> time" where
  "time_plus t d = t\<lparr>t_TAI := t_TAI t + d\<rparr>"

definition time_minus :: "time \<Rightarrow> u64 \<Rightarrow> time" where
  "time_minus t d = t\<lparr>t_TAI := t_TAI t - d\<rparr>"

definition time_difference :: "time \<Rightarrow> time \<Rightarrow> u64" where
  "time_difference t u = t_TAI t - t_TAI u"

definition duration_plus_time :: "u64 \<Rightarrow> time \<Rightarrow> time" where
  "duration_plus_time d t = time_plus t d"

definition duration_minus_time :: "u64 \<Rightarrow> time \<Rightarrow> time" where
  "duration_minus_time d t = time_minus t d"

definition time_less :: "time \<Rightarrow> time \<Rightarrow> bool" where
  "time_less t u \<longleftrightarrow> t_TAI t < t_TAI u"

definition time_less_eq :: "time \<Rightarrow> time \<Rightarrow> bool" where
  "time_less_eq t u \<longleftrightarrow> t_TAI t \<le> t_TAI u"

section \<open>What the conversion does\<close>

lemma cumulative_0: "cumulative_seconds 0 = Inr 37" "cumulative_seconds (Suc 0) = Inr 36"
  by (simp_all add: cumulative_seconds_def LEAP_SECONDS_TABLE_def)

lemma leap_second_epoch_0: "leap_second_epoch 0 = Inr (- 2208988727)"
  by (simp add: leap_second_epoch_def cumulative_0 EPOCH_OFFSET_1900_TO_1970_def)

lemma sint_seconds: "0 \<le> sint (t div nsec_per_sec)" "sint (t div nsec_per_sec) < 18446744074"
proof -
  have "uint (t div nsec_per_sec) = uint t div 1000000000"
    by (simp add: uint_div_distrib nsec_per_sec_def)
  moreover have "uint t < 2 ^ 64" using uint_lt2p [of t] by simp
  ultimately have u: "uint (t div nsec_per_sec) < 18446744074" by auto
  moreover have "uint (t div nsec_per_sec) \<ge> 0" by (rule unsigned_greater_eq)
  ultimately have "sint (t div nsec_per_sec) = uint (t div nsec_per_sec)"
    unfolding sint_uint by (intro signed_take_bit_int_eq_self) (simp_all add: order_trans [of _ 0])
  with u show "0 \<le> sint (t div nsec_per_sec)" "sint (t div nsec_per_sec) < 18446744074" by auto
qed

text \<open>
  The epochs the code computes are all far before 1970, so the first table entry always applies:
  the offset is 37 seconds for every time stamp, also before 2017, and no second is a leap second.
\<close>

lemma UTC_offset_TAI_const: "UTC_offset_TAI t = Inr 37000000000"
proof -
  have "sint (- 2208988727 :: u64) = - 2208988727" by simp
  then have "(- 2208988727 :: u64) \<le>s t div nsec_per_sec"
    using sint_seconds [of t] by (simp add: word_sle_eq)
  then show ?thesis
    by (simp add: UTC_offset_TAI_def LEAP_SECONDS_TABLE_def leap_second_epoch_0 leap_second_offset_def
        cumulative_0 nsec_per_sec_def)
qed

lemma TAI_is_UTCleap_const: "TAI_is_UTCleap t = Inr 0"
proof -
  have s: "sint (- 2208988727 :: u64) = - 2208988727" by simp
  then have "(- 2208988727 :: u64) \<le>s t div nsec_per_sec" "t div nsec_per_sec \<noteq> - 2208988727"
    using sint_seconds [of t] by (auto simp: word_sle_eq)
  then show ?thesis
    by (simp add: TAI_is_UTCleap_def LEAP_SECONDS_TABLE_def leap_second_epoch_0)
qed

lemma TAI_to_UTC_const: "TAI_to_UTC t = Inr (t - 37000000000)"
  by (simp add: TAI_to_UTC_def UTC_offset_TAI_const)

lemma UTC_offset_UTC_const: "UTC_offset_UTC t leap = Inr (True, 37000000000)"
proof -
  have s: "sint (- 2208988727 :: u64) = - 2208988727" by simp
  let ?T = "t div nsec_per_sec + 37"
  have "sint ?T = sint (t div nsec_per_sec) + 37"
    using sint_seconds [of t] by (simp add: sint_word_ariths signed_take_bit_int_eq_self)
  with s sint_seconds [of t] have le: "sint (- 2208988727 :: u64) < sint ?T" by linarith
  then have "(- 2208988727 :: u64) \<le>s ?T" unfolding word_sle_eq by linarith
  moreover have "?T \<noteq> - 2208988727" using le by (metis less_irrefl)
  ultimately show ?thesis
    by (simp add: UTC_offset_UTC_def LEAP_SECONDS_TABLE_def leap_second_epoch_0 leap_second_offset_def
        cumulative_0 Let_def TAI_to_UTC_const nsec_per_sec_def)
qed

lemma UTC_to_TAI_const: "UTC_to_TAI t leap = Inr (Some (t + 37000000000))"
  by (simp add: UTC_to_TAI_def UTC_offset_UTC_const)

end
