(* ===== verification/Runtime_Properties.thy ===== *)
theory Runtime_Properties
  imports Chunk_Allocator Serializer Event_Loop Time_Conversion
begin

text \<open>
  What the runtime below the daemon and the drivers promises: memory pools, the wire format, the
  event loop and the conversion of time, and where the code does not keep the promise.
\<close>

section \<open>Memory pools\<close>





text \<open>
  The template version of the pool tests the upper bound with \<open><=\<close>: freeing the address just
  behind the pool passes its assertion and then indexes behind the array, where the configurable
  version stops at the assertion.
\<close>

theorem template_bound_off_by_one:
  assumes ok: "chunk_ok a" and used: "ca_used a > 0"
  shows "template_free (ca_base a + ca_max a * ca_size a) a = Inl (Undefined ''chuncks[index] out of bounds'') \<and>
    chunk_free (ca_base a + ca_max a * ca_size a) a = Inl (AssertFailed ''contains(ptr)'')"
  using ok used by (simp add: template_free_def template_contains_def chunk_free_def chunk_contains_def chunk_ok_def Let_def)

theorem template_bound_off_by_one_witness:
  "\<exists>p a. chunk_malloc 4 (chunk_new 2 8 100) = Inr (p, a) \<and>
    template_free 116 a = Inl (Undefined ''chuncks[index] out of bounds'')"
proof -
  obtain p a where m: "chunk_malloc 4 (chunk_new 2 8 100) = Inr (p, a)"
    and a: "ca_base a + ca_max a * ca_size a = 116" "ca_used a > 0"
    by (simp add: chunk_malloc_def chunk_new_def)
  have "chunk_ok a" using chunk_malloc_ok [OF _ m] chunk_new_ok [of 8 2 100] by simp
  from template_bound_off_by_one [OF this a(2)] m show ?thesis unfolding a(1) by blast
qed

section \<open>The wire format\<close>

text \<open>
  C29. A map from interface names to 32-bit numbers, the reply to a proxy registration, is read
  back unchanged from wherever it was put, whatever is in front of it and behind it, and the read
  position ends up right behind it.
\<close>

theorem interface_map_round_trip:
  assumes "omap_ok m" "list_all (\<lambda>(k, v). length k < 2 ^ 64 \<and> length v = 4) m" "length m < 2 ^ 64"
  shows "get_map get_string (get_pod 4) (de_at (put_map put_string (put_pod 4) m d @ rest) (length d) s) =
    Inr (m, de_at (put_map put_string (put_pod 4) m d @ rest) (length (put_map put_string (put_pod 4) m d)) s)"
  by (rule interface_map.get_put) (use assms in simp)

theorem interface_map_round_trip_witness:
  "get_map get_string (get_pod 4)
     (de_at (put_map put_string (put_pod 4) [([0x41, 0x42], [1, 0, 0, 0]), ([0x43], [2, 0, 0, 0])] [9] @ [5]) 1 0) =
   Inr ([([0x41, 0x42], [1, 0, 0, 0]), ([0x43], [2, 0, 0, 0])],
     de_at (put_map put_string (put_pod 4) [([0x41, 0x42], [1, 0, 0, 0]), ([0x43], [2, 0, 0, 0])] [9] @ [5])
       (length (put_map put_string (put_pod 4) [([0x41, 0x42], [1, 0, 0, 0]), ([0x43], [2, 0, 0, 0])] [9])) 0)"
  using interface_map_round_trip [of "[([0x41, 0x42], [1, 0, 0, 0]), ([0x43], [2, 0, 0, 0])]" "[9]" "[5]" 0]
  by simp

text \<open>
  The arguments of a call that are plain values, vectors of plain values, strings and vectors
  of strings come back unchanged from wherever they were put, and reading ends right behind them.
\<close>

theorem argument_round_trip:
  assumes "length pod = k" "list_all (\<lambda>v. length v = j) vec" "length vec < 2 ^ 64" "length str < 2 ^ 64"
    and "list_all (\<lambda>v. length v < 2 ^ 64) strs" "length strs < 2 ^ 64"
  shows "get_pod k (de_at (put_pod k pod d @ rest) (length d) s) =
      Inr (pod, de_at (put_pod k pod d @ rest) (length (put_pod k pod d)) s) \<and>
    get_vector j (de_at (put_vector j vec d @ rest) (length d) s) =
      Inr (vec, de_at (put_vector j vec d @ rest) (length (put_vector j vec d)) s) \<and>
    get_string (de_at (put_string str d @ rest) (length d) s) =
      Inr (str, de_at (put_string str d @ rest) (length (put_string str d)) s) \<and>
    get_elements get_string (de_at (put_elements put_string strs d @ rest) (length d) s) =
      Inr (strs, de_at (put_elements put_string strs d @ rest) (length (put_elements put_string strs d)) s)"
  using pod.get_put [OF assms(1)] vector.get_put [of j vec] string.get_put [OF assms(4)] strings.get_put [of strs] assms
  by simp

theorem argument_round_trip_witness:
  "get_string (de_at (put_string [0x41, 0x42] [1, 2, 3] @ [7]) 3 0) =
     Inr ([0x41, 0x42], de_at (put_string [0x41, 0x42] [1, 2, 3] @ [7]) (length (put_string [0x41, 0x42] [1, 2, 3])) 0)"
  using argument_round_trip [of "[]" 0 0 "[]" "[0x41, 0x42]" "[]" "[1, 2, 3]" "[7]" 0]
  by (simp add: numeral_3_eq_3)

text \<open>
  Padding aligns the next value to its size, adds fewer bytes than that size, and keeps what is
  there; the reader skips exactly as many bytes.
\<close>

theorem padding_aligns:
  assumes "k > 0"
  shows "k dvd length (put_padding k d) \<and> length (put_padding k d) < length d + k \<and>
    take (length d) (put_padding k d) = d \<and> skip_padding k (length d) = length (put_padding k d)"
proof -
  have "length (put_padding k d) < length d + k"
    using assms
  proof (induction k d rule: put_padding.induct)
    case (1 k d)
    show ?case
    proof (cases "length d mod k = 0")
      case True
      then show ?thesis using 1(2) by (simp add: put_padding.simps)
    next
      case False
      have "length (put_padding k (d @ [0x78])) < length (d @ [0x78 :: u8]) + k" using 1 False by simp
      moreover have "k dvd length (put_padding k (d @ [0x78]))" by (rule put_padding_aligned [OF 1(2)])
      moreover have "\<not> k dvd length d" using False by (simp add: dvd_eq_mod_eq_0)
      ultimately have "length (put_padding k (d @ [0x78])) \<noteq> length d + k"
        using dvd_add_left_iff [of k k "length d"] by auto
      with \<open>length (put_padding k (d @ [0x78])) < length (d @ [0x78 :: u8]) + k\<close> 1(2) False
      show ?thesis by (subst put_padding.simps) simp
    qed
  qed
  moreover obtain e where "put_padding k d = d @ e" using put_padding_appends by blast
  ultimately show ?thesis using put_padding_aligned [OF assms, of d]
    by (simp add: length_put_padding [symmetric])
qed

theorem padding_aligns_witness: "8 dvd length (put_padding 8 [1, 2, 3]) \<and> length (put_padding 8 [1, 2, 3]) < 11"
  using padding_aligns [of 8 "[1, 2, 3]"] by simp

section \<open>Messages\<close>

text \<open>
  C26. A message for which \<open>write_to_no_init\<close> reports success is received unchanged by
  \<open>read_from\<close> on the other side, however the stream cuts the size and the data into non-empty
  pieces, and nothing of what follows is consumed.
\<close>

theorem message_survives_fragmentation:
  assumes d: "length d < 2 ^ 31" "d \<noteq> []" and w: "write_to_no_init answers d = Some (True, out, answers')"
    and cut: "concat header = take 4 out" "concat body = drop 4 out" "[] \<notin> set header" "[] \<notin> set body"
  shows "read_from (map Inr (header @ body) @ rest) de = Some (Inr True, de\<lparr>de_data := d, de_iter := 0\<rparr>, rest)"
proof -
  have "out = le_bytes 4 (size_word d) @ d" by (rule write_to_true [OF d w])
  with cut have "concat header = le_bytes 4 (size_word d)" "concat body = d" by simp_all
  from read_from_pieces [OF d this cut(3,4)] show ?thesis .
qed

theorem message_survives_fragmentation_witness:
  "write_to_no_init [4, 1, 2] [7, 8, 9] = Some (True, [3, 0, 0, 0, 7, 8, 9], []) \<and>
   read_from [Inr [3], Inr [0, 0, 0], Inr [7, 8], Inr [9], Inr [5]] \<lparr>de_data = [], de_iter = 4, de_saved = 0\<rparr> =
     Some (Inr True, \<lparr>de_data = [7, 8, 9], de_iter = 0, de_saved = 0\<rparr>, [Inr [5]])"
proof -
  have h: "le_bytes 4 (size_word [7, 8, 9]) = [3, 0, 0, 0]"
    by (simp add: le_bytes_def size_word_def upt_rec) code_simp?
  have z: "sint (size_word [7, 8, 9]) = 3" using size_word_le [of "[7, 8, 9]"] by simp
  have w: "write_to_no_init [4, 1, 2] [7, 8, 9] = Some (True, [3, 0, 0, 0, 7, 8, 9], [])"
    unfolding write_to_no_init_def write_all_def h z by (simp add: Let_def)
  have 1: "length ([7, 8, 9] :: bytes) < 2 ^ 31" by simp
  have 2: "[7, 8, 9 :: u8] \<noteq> []" by simp
  have 3: "concat [[3], [0, 0, 0]] = take 4 ([3, 0, 0, 0, 7, 8, 9] :: bytes)" by simp
  have 4: "concat [[7, 8], [9]] = drop 4 ([3, 0, 0, 0, 7, 8, 9] :: bytes)" by simp
  have ne: "[] \<notin> set [[3], [0, 0, 0 :: u8]]" "[] \<notin> set [[7, 8], [9 :: u8]]" by simp_all
  have r: "read_from (map Inr ([[3], [0, 0, 0]] @ [[7, 8], [9]]) @ [Inr [5]]) \<lparr>de_data = [], de_iter = 4, de_saved = 0\<rparr> =
     Some (Inr True, \<lparr>de_data = [], de_iter = 4, de_saved = 0\<rparr>\<lparr>de_data := [7, 8, 9], de_iter := 0\<rparr>, [Inr [5]])"
    by (rule message_survives_fragmentation [where header = "[[3], [0, 0, 0]]" and body = "[[7, 8], [9]]",
          OF _ _ w _ _ ne]) (rule 1 2 3 4)+
  show ?thesis
    by (rule conjI [OF w]) (use r in \<open>simp only: list.map append.simps deserializer.update_convs\<close>)
qed

text \<open>
  C35. Sending always ends when the peer keeps accepting bytes: as many positive answers of
  \<open>write\<close> as there are bytes are enough for the whole message to go out and for success to be
  reported.
\<close>

theorem sending_ends:
  assumes pos: "list_all (\<lambda>r. r > 0) answers" and n: "4 + length d \<le> length answers"
    and d: "d \<noteq> []" "length d < 2 ^ 31"
  shows "\<exists>answers'. write_to_no_init answers d = Some (True, le_bytes 4 (size_word d) @ d, answers')"
proof -
  have left: "\<exists>k. answers' = drop k answers \<and> k \<le> length chunk + length after"
    if "write_steps answers chunk after w = Some (r, out, answers')" "list_all (\<lambda>r. r > 0) answers" "chunk \<noteq> []"
    for answers chunk after w r out answers'
    using that
  proof (induction answers chunk after w rule: write_steps.induct)
    case (2 r0 answers chunk after w)
    then have r0: "r0 > 0" by simp
    let ?c = "drop (nat r0) chunk" and ?w = "w @ take (nat r0) chunk"
    have "\<exists>k. answers' = drop k answers \<and> k < length chunk + length after"
    proof (cases "?c = []")
      case False
      have "write_steps answers ?c after ?w = Some (r, out, answers')"
        using 2(3) r0 False by (simp add: Let_def)
      from 2(1) [OF r0 refl refl False this] 2(4) False
      obtain k where "answers' = drop k answers" "k \<le> length ?c + length after" by auto
      moreover have "length ?c < length chunk" using r0 2(5) by (cases chunk) auto
      ultimately show ?thesis by force
    next
      case c: True
      show ?thesis
      proof (cases "after = []")
        case True
        with 2(3,5) r0 c have "answers' = answers" by (simp add: Let_def)
        then show ?thesis using 2(5) by (intro exI [of _ 0]) simp
      next
        case False
        have "write_steps answers (take 100000 after) (drop 100000 after) ?w = Some (r, out, answers')"
          using 2(3) r0 c False by (simp add: Let_def)
        from 2(2) [OF r0 refl refl _ False this] c 2(4) False
        obtain k where "answers' = drop k answers" "k \<le> length (take 100000 after) + length (drop 100000 after)"
          by auto
        then show ?thesis using 2(5) by (intro exI [of _ k]) (cases chunk; auto)
      qed
    qed
    then obtain k where "answers' = drop k answers" "k < length chunk + length after" by blast
    then show ?case by (intro exI [of _ "Suc k"]) simp
  qed simp
  have four: "length (le_bytes 4 (size_word d)) = 4" by simp
  have "le_bytes 4 (size_word d) \<noteq> []" using four by (metis list.size(3) zero_neq_numeral)
  moreover have "length (le_bytes 4 (size_word d)) \<le> length answers" using n by simp
  ultimately obtain a1 where a1: "write_all answers (le_bytes 4 (size_word d)) = Some (4, le_bytes 4 (size_word d), a1)"
    using write_all_enough [OF pos] by fastforce
  then have ws: "write_steps answers (le_bytes 4 (size_word d)) [] [] = Some (4, le_bytes 4 (size_word d), a1)"
    by (simp add: write_all_def)
  from left [OF ws pos] \<open>le_bytes 4 (size_word d) \<noteq> []\<close>
  obtain k where k: "a1 = drop k answers" "k \<le> 4" by auto
  then have "list_all (\<lambda>r. r > 0) a1" using pos by (auto simp: list_all_iff dest: in_set_dropD)
  moreover have "length d \<le> length a1" using k n by simp
  ultimately obtain a2 where a2: "write_all a1 d = Some (int (length d), d, a2)"
    using write_all_enough [OF _ d(1)] by blast
  show ?thesis using a1 a2 size_word_le [OF d(2)] by (simp add: write_to_no_init_def)
qed

theorem sending_ends_witness:
  "\<exists>answers'. write_to_no_init (replicate 7 1) [7, 8, 9] = Some (True, le_bytes 4 (size_word [7, 8, 9]) @ [7, 8, 9], answers')"
  by (rule sending_ends) (simp_all add: list_all_iff)

text \<open>
  The size in front of a message is not checked: after four bytes with the top bit set
  \<open>read_from\<close> converts the negative size to an unsigned one and \<open>std::length_error\<close> is thrown, which
  no code on the way catches.
\<close>

theorem negative_size_throws:
  assumes "length header = 4" "sint (of_le header :: u32) < 0"
  shows "read_from (Inr header # rest) de = Some (Inl (OtherException ''vector::_M_default_append''), de, rest)"
  using assms by (auto simp: read_from_def read_all_def Let_def)

theorem negative_size_throws_witness:
  "read_from [Inr [0xff, 0xff, 0xff, 0xff]] \<lparr>de_data = [], de_iter = 0, de_saved = 0\<rparr> =
     Some (Inl (OtherException ''vector::_M_default_append''), \<lparr>de_data = [], de_iter = 0, de_saved = 0\<rparr>, [])"
proof -
  have "sint (of_le [0xff, 0xff, 0xff, 0xff] :: u32) < 0" by code_simp
  with negative_size_throws [of "[0xff, 0xff, 0xff, 0xff]"] show ?thesis by simp
qed

section \<open>The event loop\<close>

text \<open>An environment where the time stands still, nothing is ready and every slot is run once.\<close>

definition still_env :: "int \<Rightarrow> (nat, nat loop) loop_env" where
  "still_env now = \<lparr>le_now = (\<lambda>w. (now, w)), le_poll = (\<lambda>_ _ w. (None, w)), le_sleep = (\<lambda>_ w. w),
     le_timeout_slot = (\<lambda>_. ret False), le_io_slot = (\<lambda>_ _ _. ret False)\<rparr>"

lemma balanced_still: "balanced (still_env now)"
  by (simp add: balanced_def still_env_def ret_def)

text \<open>
  C31. After an outermost iteration that was left normally, whatever the slots connected or removed
  meanwhile, nested iterations included, the loop is at depth 0 again, no null pointer is left among
  the sources, no source waits to be added, and the result tells whether there are sources.
\<close>

theorem iteration_leaves_clean_loop:
  assumes "balanced env" "lp_depth w = 0" "iteration env may_block w = (Inr b, w')"
  shows "lp_depth w' = 0 \<and> None \<notin> set (lp_sources w') \<and> lp_added w' = [] \<and> (b \<longleftrightarrow> lp_sources w' \<noteq> [])"
  by (rule iteration_clean [OF assms])

theorem iteration_leaves_clean_loop_witness:
  "\<exists>w'. iteration (still_env 5000000) True (new_loop 1 1 1\<lparr>lp_sources := [Some (new_timeout_source 9 3 2 2 0)]\<rparr>) =
     (Inr False, w') \<and> lp_sources w' = []"
proof -
  let ?w = "new_loop 1 1 1\<lparr>lp_sources := [Some (new_timeout_source 9 3 2 2 0)]\<rparr> :: nat loop"
  have "\<exists>w'. iteration (still_env 5000000) True ?w = (Inr False, w')"
    by (simp add: iteration_def op_simps still_env_def new_loop_def new_timeout_source_def prepare_def to_ms_def
        wait_for_def dispatch_at_def check_def dispatch_def reset_source_def free_source_def clean_up_def upt_rec
        Let_def)
  then obtain w' where r: "iteration (still_env 5000000) True ?w = (Inr False, w')" by blast
  have "lp_depth ?w = 0" by (simp add: new_loop_def)
  from iteration_leaves_clean_loop [OF balanced_still this r] r show ?thesis by blast
qed

text \<open>
  Dispatching a timeout source that is due moves its next dispatch time into the future, on the
  grid of its interval and no further than necessary: a late loop skips the missed rounds and does
  not drift.
\<close>

theorem timeout_stays_on_grid:
  assumes "interval > 0"
  shows "\<exists>k\<ge>1. catch_up now interval t = t + int k * interval \<and>
    now < catch_up now interval t \<and> (k = 1 \<or> catch_up now interval t - interval \<le> now)"
  by (rule catch_up_result [OF assms])

theorem timeout_stays_on_grid_witness: "catch_up 35 10 0 > 35 \<and> (\<exists>k. catch_up 35 10 0 = int k * 10)"
  using timeout_stays_on_grid [of 10 35 0] by auto

text \<open>
  \<open>Source::remove_poll\<close> passes the end of the kept part to the wrong end of \<open>erase\<close>: removing
  the poll descriptor that was added last leaves that descriptor and drops all others.
\<close>

theorem remove_poll_keeps_the_removed:
  assumes "p \<notin> set pfds"
  shows "remove_poll p (add_poll p pfds) = [p]"
  using remove_poll_last [OF assms] by (simp add: add_poll_def)

theorem remove_poll_keeps_the_removed_witness: "remove_poll 3 (add_poll 3 [1, 2]) = [3]"
  by (rule remove_poll_keeps_the_removed) simp

text \<open>
  A slot of an I/O source that removes its own source from the loop, as the destructor of a
  client does while the daemon handles its hang-up, makes \<open>IoSource::dispatch\<close> use the freed source.
\<close>

theorem self_removal_uses_freed_source:
  assumes k: "so_kind src = IoSource slot a" and m: "lp_mem w a = Some p"
    and f: "find_source (so_id src) (lp_sources w) 0 = Some (k, src)" "find_source (so_id src) (lp_added w) 0 = None"
    and slot: "le_io_slot env slot (pf_fd p) (pf_revents p) w =
      (Inr b, loop_remove \<lparr>sh_source_id = so_id src, sh_loop_id = lp_id w\<rparr> w)"
  shows "fst (dispatch env k src w) = Inl (Undefined ''dangling pollfd'')"
  using dispatch_removed [OF k m slot loop_remove_frees [OF f(1) k f(2)]] by simp

theorem self_removal_uses_freed_source_witness:
  "\<exists>w. fst (dispatch (still_env 0\<lparr>le_io_slot := (\<lambda>_ _ _ w. (Inr False, loop_remove \<lparr>sh_source_id = 9, sh_loop_id = lp_id w\<rparr> w))\<rparr>)
     0 \<lparr>so_id = 9, so_pfds = [100], so_kind = IoSource 3 100\<rparr> w) = Inl (Undefined ''dangling pollfd'')"
proof -
  let ?src = "\<lparr>so_id = 9, so_pfds = [100], so_kind = IoSource 3 100\<rparr> :: nat source"
  let ?p = "\<lparr>pf_fd = 4, pf_events = 1, pf_revents = 16\<rparr>"
  let ?w = "new_loop 1 1 1\<lparr>lp_sources := [Some ?src], lp_mem := [100 \<mapsto> ?p]\<rparr> :: nat loop"
  show ?thesis
    by (rule exI [of _ ?w], rule self_removal_uses_freed_source [where a = 100 and p = ?p and slot = 3 and b = False])
      (simp_all add: new_loop_def)
qed

section \<open>Time\<close>

text \<open>
  The conversion from TAI to UTC always subtracts 37 seconds and never sees a leap second, for
  every 64-bit time stamp: \<open>leap_second_epoch\<close> computes the epochs from the offsets instead of from
  the time stamps of the table, so they all lie before 1970 and the newest entry always applies.
\<close>

theorem offset_is_always_37_seconds:
  "UTC_offset_TAI t = Inr 37000000000 \<and> TAI_is_UTCleap t = Inr 0 \<and> TAI_to_UTC t = Inr (t - 37000000000)"
  by (simp add: UTC_offset_TAI_const TAI_is_UTCleap_const TAI_to_UTC_const)


text \<open>
  Adding and subtracting durations are inverse to each other and to the difference of two
  times, with wrap-around; but a duration minus a time computes the time minus the duration.
\<close>

theorem duration_arithmetic:
  "time_minus (time_plus t d) d = t \<and> time_plus u (time_difference t u) = t \<and>
   time_difference (time_plus t d) t = d \<and> duration_plus_time d t = time_plus t d \<and>
   t_TAI (duration_minus_time d t) = t_TAI t - d"
  by (simp add: time_minus_def time_plus_def time_difference_def duration_plus_time_def duration_minus_time_def)

end
