(* ===== verification/Function_Generator.thy ===== *)
theory Function_Generator
  imports Etherbone Owned Event_Loop
begin

text \<open>
  One channel of the function generator firmware: \<open>FunctionGeneratorImpl\<close>
  (src/FunctionGeneratorImpl.cpp, .hpp, src/fg_regs.h) and the mailbox slot it uses
  (src/Mailbox.cpp). The host keeps a queue of parameter tuples, mirrors its front in a ring buffer
  in the shared memory of the microcontroller, and follows the messages of the microcontroller.
\<close>

section \<open>Parameter tuples\<close>

record parameter_tuple =
  pt_coeff_a :: u16
  pt_coeff_b :: u16
  pt_coeff_c :: u32
  pt_step :: u8
  pt_freq :: u8
  pt_shift_a :: u8
  pt_shift_b :: u8

definition fg_samples :: "u64 list" where
  "fg_samples = [250, 500, 1000, 2000, 4000, 8000, 16000, 32000]"

definition fg_sample_len :: "u64 list" where
  "fg_sample_len = [62500, 31250, 15625, 8000, 4000, 2000, 1000, 500]"

text \<open>\<open>ParameterTuple::duration\<close>: an index out of the tables is undefined.\<close>

definition duration :: "parameter_tuple \<Rightarrow> exn + u64" where
  "duration t =
     (if unat (pt_step t) < length fg_samples \<and> unat (pt_freq t) < length fg_sample_len
      then Inr (fg_samples ! unat (pt_step t) * fg_sample_len ! unat (pt_freq t))
      else Inl (Undefined ''samples[step] * sample_len[freq]''))"

text \<open>The three words of a tuple in the shared memory.\<close>

definition coeff_ab_word :: "parameter_tuple \<Rightarrow> u32" where
  "coeff_ab_word t = push_bit 16 (scast (pt_coeff_a t)) OR (scast (pt_coeff_b t) AND 0xFFFF)"

definition control_word :: "parameter_tuple \<Rightarrow> u32" where
  "control_word t =
     (ucast (pt_step t) AND 0x7) OR push_bit 3 (ucast (pt_freq t) AND 0x7)
     OR push_bit 6 (ucast (pt_shift_b t) AND 0x3f) OR push_bit 12 (ucast (pt_shift_a t) AND 0x3f)"

section \<open>Registers in the shared memory\<close>

definition SHM_BASE :: u64 where "SHM_BASE = 0x500"
definition FG_REGS_BASE_ADDR :: u32 where "FG_REGS_BASE_ADDR = 0x438"
definition FG_WPTR :: u64 where "FG_WPTR = 0x0"
definition FG_RPTR :: u64 where "FG_RPTR = 0x4"
definition FG_MBX_SLOT :: u64 where "FG_MBX_SLOT = 0x8"
definition FG_MACRO_NUM :: u64 where "FG_MACRO_NUM = 0xc"
definition FG_RAMP_COUNT :: u64 where "FG_RAMP_COUNT = 0x10"
definition FG_TAG :: u64 where "FG_TAG = 0x14"
definition FG_REGS_SIZE :: u32 where "FG_REGS_SIZE = 0x1c"
definition PARAM_COEFF_AB :: u64 where "PARAM_COEFF_AB = 0x0"
definition PARAM_COEFF_C :: u64 where "PARAM_COEFF_C = 0x4"
definition PARAM_CONTROL :: u64 where "PARAM_CONTROL = 0x8"
definition PARAM_SIZE :: u32 where "PARAM_SIZE = 0xc"
definition SWI_INIT_BUFFERS :: u32 where "SWI_INIT_BUFFERS = 0x00000000"
definition SWI_ENABLE :: u32 where "SWI_ENABLE = 0x00020000"
definition SWI_DISABLE :: u32 where "SWI_DISABLE = 0x00030000"
definition IRQ_DAT_REFILL :: u32 where "IRQ_DAT_REFILL = 0"
definition IRQ_DAT_START :: u32 where "IRQ_DAT_START = 1"
definition IRQ_DAT_STOP_EMPTY :: u32 where "IRQ_DAT_STOP_EMPTY = 2"
definition IRQ_DAT_STOP_NOT_EMPTY :: u32 where "IRQ_DAT_STOP_NOT_EMPTY = 3"
definition IRQ_DAT_ARMED :: u32 where "IRQ_DAT_ARMED = 4"
definition IRQ_DAT_DISARMED :: u32 where "IRQ_DAT_DISARMED = 5"

text \<open>\<open>FG_REGS_BASE(c,n)\<close> and \<open>FG_BUFF_BASE(c,i,n,s)\<close>: 32-bit arithmetic, then added to a 64-bit address.\<close>

definition FG_REGS_BASE :: "u32 \<Rightarrow> u32 \<Rightarrow> u32" where
  "FG_REGS_BASE c n = FG_REGS_BASE_ADDR + FG_REGS_SIZE * c"

definition FG_BUFF_BASE :: "u32 \<Rightarrow> u32 \<Rightarrow> u32 \<Rightarrow> u32 \<Rightarrow> u32" where
  "FG_BUFF_BASE c i n s = FG_REGS_BASE n n + (i + c * s) * PARAM_SIZE"

section \<open>State\<close>

text \<open>
  The channel is -1 or an index into the allocation; the circular buffer is a list with a capacity.
\<close>

record fg =
  fg_shm :: u64
  fg_mb_slot :: u32
  fg_num_channels :: u32
  fg_buffer_size :: u32
  fg_index :: u32
  fg_scubusSlot :: u8
  fg_deviceNumber :: u8
  fg_version :: u8
  fg_outputWindowSize :: u8
  fg_host_slot :: "u32 option"
  fg_channel :: "nat option"
  fg_enabled :: bool
  fg_armed :: bool
  fg_running :: bool
  fg_abort :: bool
  fg_resetTimeout :: source_handle
  fg_startTag :: u32
  fg_executed :: u32
  fg_fillLevel :: u64
  fg_filled :: u32
  fg_fifo :: "parameter_tuple list"
  fg_capacity :: nat
  fg_fifo_max_size :: u32

text \<open>What is called later, by the event loop or by the container.\<close>

datatype fg_callback = ResetFailed_slot nat | FunctionGenerator_ownerQuit nat | Master_ownerQuit

text \<open>The sigc signals of a channel.\<close>

datatype fg_event =
    FgEnabled bool
  | FgArmed bool
  | FgRunning bool
  | FgRefill
  | FgStarted u64
  | FgStopped u64 bool bool bool

text \<open>
  Several channels share the shared memory and the allocation of the microcontroller's channels.
  A channel is the index of its object; \<open>fw_events\<close> are the emitted signals, in order.
\<close>

record fg_world = "fg_callback bus" +
  fw_log :: "bus_op list"
  fw_loop :: "fg_callback loop"
  fw_time :: int
  fw_rand :: "u32 list"
  fw_alloc :: "int list"
  fw_fgs :: "fg list"
  fw_events :: "(nat \<times> fg_event) list"

text \<open>
  The bus, the base address of the mailbox, the reading of the receiver's clock, and what the
  connected slots do with a signal.
\<close>

record 'w fg_env =
  fe_hw :: hardware
  fe_mailbox :: u64
  fe_clock :: "('w, u64) op"
  fe_notify :: "nat \<Rightarrow> fg_event \<Rightarrow> ('w, unit) op"

type_synonym ('z, 'a) fg_op = "('z fg_world_scheme, 'a) op"
type_synonym 'z fg_environment = "'z fg_world_scheme fg_env"

definition fg_cycle :: "hardware \<Rightarrow> bus_op list \<Rightarrow> ('z, u32 list) fg_op" where
  "fg_cycle hw ops = (\<lambda>w. case close_cycle hw ops (fw_log w) of (r, log) \<Rightarrow> (r, w\<lparr>fw_log := log\<rparr>))"

definition deref_fg :: "nat \<Rightarrow> ('z, fg) fg_op" where
  "deref_fg k = (\<lambda>w. if k < length (fw_fgs w) then (Inr (fw_fgs w ! k), w)
     else (Inl (Undefined ''dangling FunctionGeneratorImpl*''), w))"

definition modify_fg :: "nat \<Rightarrow> (fg \<Rightarrow> fg) \<Rightarrow> ('z, unit) fg_op" where
  "modify_fg k f = bnd (deref_fg k) (\<lambda>x. modify (\<lambda>w. w\<lparr>fw_fgs := (fw_fgs w)[k := f x]\<rparr>))"

definition fg_emit :: "'z fg_environment \<Rightarrow> nat \<Rightarrow> fg_event \<Rightarrow> ('z, unit) fg_op" where
  "fg_emit env k ev =
     thn (modify (\<lambda>w. w\<lparr>fw_events := fw_events w @ [(k, ev)]\<rparr>)) (fe_notify env k ev)"

text \<open>\<open>Mailbox::UseSlot\<close>.\<close>

definition UseSlot :: "'z fg_environment \<Rightarrow> u32 \<Rightarrow> u32 \<Rightarrow> ('z, unit) fg_op" where
  "UseSlot env slot_index value =
     bnd (fg_cycle (fe_hw env) [BusWrite (fe_mailbox env + ucast slot_index * 4 * 2) value]) (\<lambda>_. ret ())"

section \<open>The queue and its mirror\<close>

definition wrapping_sub :: "u32 \<Rightarrow> u32 \<Rightarrow> u32 \<Rightarrow> u32" where
  "wrapping_sub a b buffer_size = (if a < b then a - b + buffer_size else a - b)"

definition wrapping_add :: "u32 \<Rightarrow> u32 \<Rightarrow> u32 \<Rightarrow> u32" where
  "wrapping_add a b buffer_size = (let c = a + b in if c \<ge> buffer_size then c - buffer_size else c)"

text \<open>A circular buffer without capacity ignores what is pushed.\<close>

definition fifo_push_back :: "parameter_tuple \<Rightarrow> fg \<Rightarrow> fg" where
  "fifo_push_back t f =
     (let f1 = (if length (fg_fifo f) = fg_capacity f then f\<lparr>fg_capacity := fg_capacity f * 2\<rparr> else f);
          f2 = (if fg_capacity f1 = 0 then f1 else f1\<lparr>fg_fifo := fg_fifo f1 @ [t]\<rparr>)
      in if unat (fg_fifo_max_size f2) < length (fg_fifo f2)
         then f2\<lparr>fg_fifo_max_size := of_nat (length (fg_fifo f2))\<rparr> else f2)"

definition lowFill :: "fg \<Rightarrow> bool" where
  "lowFill f \<longleftrightarrow> length (fg_fifo f) < unat (fg_buffer_size f * 2)"

text \<open>The tuples the microcontroller has finished leave the queue.\<close>

fun consume :: "nat \<Rightarrow> fg \<Rightarrow> exn + fg" where
  "consume 0 f = Inr f"
| "consume (Suc n) f =
     (case fg_fifo f of
        [] \<Rightarrow> Inr f
      | t # ts \<Rightarrow>
          (case duration t of
             Inl e \<Rightarrow> Inl e
           | Inr d \<Rightarrow> consume n (f\<lparr>fg_fillLevel := fg_fillLevel f - d, fg_filled := fg_filled f - 1, fg_fifo := ts\<rparr>)))"

definition fg_regs :: "fg \<Rightarrow> nat \<Rightarrow> u64" where
  "fg_regs f ch = fg_shm f + ucast (FG_REGS_BASE (of_nat ch) (fg_num_channels f))"

definition slot_address :: "fg \<Rightarrow> nat \<Rightarrow> u32 \<Rightarrow> u64" where
  "slot_address f ch offset =
     fg_shm f + ucast (FG_BUFF_BASE (of_nat ch) offset (fg_num_channels f) (fg_buffer_size f))"

definition tuple_writes :: "u64 \<Rightarrow> parameter_tuple \<Rightarrow> bus_op list" where
  "tuple_writes buff t =
     [BusWrite (buff + PARAM_COEFF_AB) (coeff_ab_word t),
      BusWrite (buff + PARAM_COEFF_C) (pt_coeff_c t),
      BusWrite (buff + PARAM_CONTROL) (control_word t)]"

definition upload_ops :: "fg \<Rightarrow> nat \<Rightarrow> u32 \<Rightarrow> nat \<Rightarrow> bus_op list" where
  "upload_ops f ch write_offset n =
     concat (map (\<lambda>i. tuple_writes (slot_address f ch (wrapping_add write_offset (of_nat i) (fg_buffer_size f)))
                        (fg_fifo f ! (unat (fg_filled f) + i))) [0..<n])
     @ [BusWrite (fg_regs f ch + FG_WPTR) (wrapping_add write_offset (of_nat n) (fg_buffer_size f))]"

text \<open>\<open>refill\<close>: the result of \<open>min(todo, space)\<close> is the number of tuples to add.\<close>

definition refill_count :: "fg \<Rightarrow> u32" where
  "refill_count f =
     min (of_nat (length (fg_fifo f)) - fg_filled f) (fg_buffer_size f - 1 - fg_filled f)"

definition upload :: "'z fg_environment \<Rightarrow> nat \<Rightarrow> nat \<Rightarrow> u32 \<Rightarrow> ('z, unit) fg_op" where
  "upload env k ch write_offset =
     bnd (deref_fg k) (\<lambda>f.
     let n = refill_count f in
     if n \<noteq> 0 \<and> unat (fg_filled f) + unat n > length (fg_fifo f) then raise (Undefined ''fifo[filled+i]'')
     else bnd (fg_cycle (fe_hw env) (upload_ops f ch write_offset (unat n))) (\<lambda>_.
          modify_fg k (\<lambda>f. f\<lparr>fg_filled := fg_filled f + n\<rparr>)))"

definition read_offsets :: "'z fg_environment \<Rightarrow> u64 \<Rightarrow> bool \<Rightarrow> ('z, u32 \<times> u32) fg_op" where
  "read_offsets env regs first =
     (if first then ret (0, 0)
      else bnd (fg_cycle (fe_hw env) [BusRead (regs + FG_WPTR), BusRead (regs + FG_RPTR)]) (\<lambda>rs.
           ret (rs ! 0, rs ! 1)))"

definition refill :: "'z fg_environment \<Rightarrow> nat \<Rightarrow> bool \<Rightarrow> ('z, unit) fg_op" where
  "refill env k first =
     bnd (deref_fg k) (\<lambda>f.
     case fg_channel f of
       None \<Rightarrow> raise (AssertFailed ''channel != -1'')
     | Some ch \<Rightarrow>
         bnd (read_offsets env (fg_regs f ch) first) (\<lambda>(write_offset_d, read_offset_d).
         if fg_buffer_size f = 0 then raise (Undefined ''modulo zero'')
         else
           let write_offset = write_offset_d mod fg_buffer_size f;
               read_offset = read_offset_d mod fg_buffer_size f;
               remaining = wrapping_sub write_offset read_offset (fg_buffer_size f);
               completed = fg_filled f - remaining
           in case consume (unat completed) f of
                Inl e \<Rightarrow> raise e
              | Inr f' \<Rightarrow>
                  thn (modify_fg k (\<lambda>_. f'))
                 (thn (if lowFill f' \<and> \<not> lowFill f then fg_emit env k FgRefill else ret ())
                 (bnd (deref_fg k) (\<lambda>f. thn (assert_that (fg_filled f = remaining) ''filled == remaining'')
                      (upload env k ch write_offset))))))"

section \<open>Adding parameters\<close>

text \<open>One pass of the loop over new tuples: the fill level counts also what the buffer ignored.\<close>

definition append_tuple :: "parameter_tuple \<Rightarrow> fg \<Rightarrow> exn + fg" where
  "append_tuple t f =
     (case duration t of
        Inl e \<Rightarrow> Inl e
      | Inr d \<Rightarrow> (let f' = fifo_push_back t f in Inr (f'\<lparr>fg_fillLevel := fg_fillLevel f' + d\<rparr>)))"

fun append_tuples :: "parameter_tuple list \<Rightarrow> fg \<Rightarrow> exn + fg" where
  "append_tuples [] f = Inr f"
| "append_tuples (t # ts) f = (case append_tuple t f of Inl e \<Rightarrow> Inl e | Inr f' \<Rightarrow> append_tuples ts f')"

definition appendParameterTuples :: "'z fg_environment \<Rightarrow> nat \<Rightarrow> parameter_tuple list \<Rightarrow> ('z, bool) fg_op" where
  "appendParameterTuples env k ts =
     bnd (deref_fg k) (\<lambda>f.
     case append_tuples ts f of
       Inl e \<Rightarrow> raise e
     | Inr f' \<Rightarrow>
         thn (modify_fg k (\<lambda>_. f'))
        (thn (if fg_channel f' \<noteq> None then refill env k False else ret ())
        (bnd (deref_fg k) (\<lambda>f. ret (lowFill f)))))"

text \<open>The vectors of one call; all must have the length of the first.\<close>

record parameter_set =
  ps_coeff_a :: "u16 list"
  ps_coeff_b :: "u16 list"
  ps_coeff_c :: "u32 list"
  ps_step :: "u8 list"
  ps_freq :: "u8 list"
  ps_shift_a :: "u8 list"
  ps_shift_b :: "u8 list"

definition check_lengths :: "parameter_set \<Rightarrow> exn option" where
  "check_lengths ps =
     (let len = length (ps_coeff_a ps) in
      if length (ps_coeff_b ps) \<noteq> len then Some (invalid_args ''coeff_b length mismatch'')
      else if length (ps_coeff_c ps) \<noteq> len then Some (invalid_args ''coeff_c length mismatch'')
      else if length (ps_step ps) \<noteq> len then Some (invalid_args ''step length mismatch'')
      else if length (ps_freq ps) \<noteq> len then Some (invalid_args ''freq length mismatch'')
      else if length (ps_shift_a ps) \<noteq> len then Some (invalid_args ''shift_a length mismatch'')
      else if length (ps_shift_b ps) \<noteq> len then Some (invalid_args ''shift_b length mismatch'')
      else None)"

fun check_values :: "(u8 \<times> u8 \<times> u8 \<times> u8) list \<Rightarrow> exn option" where
  "check_values [] = None"
| "check_values ((step, freq, shift_a, shift_b) # xs) =
     (if step \<ge> 8 then Some (invalid_args ''step must be < 8'')
      else if freq \<ge> 8 then Some (invalid_args ''freq must be < 8'')
      else if shift_a > 48 then Some (invalid_args ''shift_a must be <= 48'')
      else if shift_b > 48 then Some (invalid_args ''shift_b must be <= 48'')
      else check_values xs)"

definition set_tuples :: "parameter_set \<Rightarrow> parameter_tuple list" where
  "set_tuples ps =
     map (\<lambda>i. \<lparr>pt_coeff_a = ps_coeff_a ps ! i, pt_coeff_b = ps_coeff_b ps ! i, pt_coeff_c = ps_coeff_c ps ! i,
              pt_step = ps_step ps ! i, pt_freq = ps_freq ps ! i, pt_shift_a = ps_shift_a ps ! i,
              pt_shift_b = ps_shift_b ps ! i\<rparr>) [0..<length (ps_coeff_a ps)]"

definition appendParameterSet :: "'z fg_environment \<Rightarrow> nat \<Rightarrow> parameter_set \<Rightarrow> ('z, bool) fg_op" where
  "appendParameterSet env k ps =
     (case check_lengths ps of
        Some e \<Rightarrow> raise e
      | None \<Rightarrow>
          (case check_values (zip (ps_step ps) (zip (ps_freq ps) (zip (ps_shift_a ps) (ps_shift_b ps)))) of
             Some e \<Rightarrow> raise e
           | None \<Rightarrow> appendParameterTuples env k (set_tuples ps)))"

section \<open>Channels of the microcontroller\<close>

definition flush :: "nat \<Rightarrow> ('z, unit) fg_op" where
  "flush k =
     bnd (deref_fg k) (\<lambda>f.
     thn (throw_if (fg_enabled f) (invalid_args ''Enabled, cannot Flush''))
    (thn (assert_that (fg_channel f = None) ''channel == -1'')
         (modify_fg k (\<lambda>f. f\<lparr>fg_fillLevel := 0, fg_fifo := []\<rparr>))))"

definition ReadExecutedParameterCount :: "'z fg_environment \<Rightarrow> nat \<Rightarrow> ('z, u32) fg_op" where
  "ReadExecutedParameterCount env k =
     bnd (deref_fg k) (\<lambda>f.
     if fg_running f
     then (case fg_channel f of
             None \<Rightarrow> raise (Undefined ''register of channel -1'')
           | Some ch \<Rightarrow> bnd (fg_cycle (fe_hw env) [BusRead (fg_regs f ch + FG_RAMP_COUNT)]) (\<lambda>rs. ret (hd rs)))
     else ret (fg_executed f))"

fun first_free_channel :: "int list \<Rightarrow> nat" where
  "first_free_channel [] = 0"
| "first_free_channel (i # is) = (if i = - 1 then 0 else Suc (first_free_channel is))"

definition acquireChannel :: "'z fg_environment \<Rightarrow> nat \<Rightarrow> ('z, unit) fg_op" where
  "acquireChannel env k =
     bnd (deref_fg k) (\<lambda>f.
     thn (assert_that (fg_channel f = None) ''channel == -1'')
    (bnd (gets fw_alloc) (\<lambda>alloc.
     let i = first_free_channel alloc; regs = fg_regs f i in
     if i = length alloc
     then raise (SaftbusError FAILED (''All '' @ show_nat (length alloc) @ '' microcontroller channels are in use''))
     else case fg_host_slot f of
       None \<Rightarrow> raise (Undefined ''null host_slot'')
     | Some slot \<Rightarrow>
         bnd (fg_cycle (fe_hw env)
                [BusWrite (regs + FG_WPTR) 0, BusWrite (regs + FG_RPTR) 0,
                 BusWrite (regs + FG_MBX_SLOT) slot, BusWrite (regs + FG_MACRO_NUM) (fg_index f),
                 BusWrite (regs + FG_RAMP_COUNT) 0, BusWrite (regs + FG_TAG) (fg_startTag f)]) (\<lambda>_.
         thn (modify (\<lambda>w. w\<lparr>fw_alloc := (fw_alloc w)[i := sint (fg_index f)]\<rparr>))
        (thn (modify_fg k (\<lambda>f. f\<lparr>fg_channel := Some i, fg_enabled := True\<rparr>))
             (fg_emit env k (FgEnabled True)))))))"

text \<open>\<open>SWI | channel\<close> for the mailbox.\<close>

definition swi :: "u32 \<Rightarrow> nat \<Rightarrow> u32" where
  "swi code ch = code OR of_nat ch"

definition remove_timeout :: "source_handle \<Rightarrow> 'z fg_world_scheme \<Rightarrow> 'z fg_world_scheme" where
  "remove_timeout h w = w\<lparr>fw_loop := loop_remove h (fw_loop w)\<rparr>"

definition releaseChannel :: "'z fg_environment \<Rightarrow> nat \<Rightarrow> ('z, unit) fg_op" where
  "releaseChannel env k =
     bnd (deref_fg k) (\<lambda>f.
     case fg_channel f of
       None \<Rightarrow> raise (AssertFailed ''channel != -1'')
     | Some ch \<Rightarrow>
         thn (modify (remove_timeout (fg_resetTimeout f)))
        (thn (if fg_abort f then UseSlot env (fg_mb_slot f) (swi SWI_INIT_BUFFERS ch) else ret ())
        (thn (modify (\<lambda>w. w\<lparr>fw_alloc := (fw_alloc w)[ch := - 1]\<rparr>))
        (thn (modify_fg k (\<lambda>f. f\<lparr>fg_channel := None, fg_filled := 0, fg_enabled := False\<rparr>))
        (thn (fg_emit env k (FgEnabled False))
             (bnd (deref_fg k) (\<lambda>f. if fg_abort f then flush k else ret ())))))))"

section \<open>Messages of the microcontroller\<close>

definition fg_started :: "'z fg_environment \<Rightarrow> nat \<Rightarrow> u64 \<Rightarrow> ('z, unit) fg_op" where
  "fg_started env k time =
     thn (modify_fg k (\<lambda>f. f\<lparr>fg_armed := False, fg_running := True\<rparr>))
    (thn (fg_emit env k (FgArmed False))
    (thn (fg_emit env k (FgRunning True))
         (fg_emit env k (FgStarted time))))"

definition fg_stopped :: "'z fg_environment \<Rightarrow> nat \<Rightarrow> u64 \<Rightarrow> u32 \<Rightarrow> ('z, unit) fg_op" where
  "fg_stopped env k time msi =
     bnd (deref_fg k) (\<lambda>f.
     let hardwareMacroUnderflow = (msi \<noteq> IRQ_DAT_STOP_EMPTY \<and> \<not> fg_abort f);
         microControllerUnderflow =
           (length (fg_fifo f) \<noteq> unat (fg_filled f) \<and> \<not> hardwareMacroUnderflow \<and> \<not> fg_abort f)
     in thn (if \<not> fg_abort f \<and> \<not> hardwareMacroUnderflow \<and> \<not> microControllerUnderflow
             then modify_fg k (\<lambda>f. f\<lparr>fg_fillLevel := 0, fg_fifo := []\<rparr>) else ret ())
       (bnd (ReadExecutedParameterCount env k) (\<lambda>count.
        thn (modify_fg k (\<lambda>f. f\<lparr>fg_executed := count, fg_running := False\<rparr>))
       (thn (fg_emit env k (FgRunning False))
       (thn (bnd (deref_fg k) (\<lambda>f.
               fg_emit env k (FgStopped time (fg_abort f) hardwareMacroUnderflow microControllerUnderflow)))
            (releaseChannel env k))))))"

definition fg_irq_handler :: "'z fg_environment \<Rightarrow> nat \<Rightarrow> u32 \<Rightarrow> ('z, unit) fg_op" where
  "fg_irq_handler env k msi =
     bnd (deref_fg k) (\<lambda>f.
     if fg_channel f = None then ret ()
     else
       thn (assert_that (fg_enabled f) ''enabled'')
      (bnd (fe_clock env) (\<lambda>time.
       bnd (deref_fg k) (\<lambda>f.
       if msi = IRQ_DAT_REFILL then (if \<not> fg_running f then ret () else refill env k False)
       else if msi = IRQ_DAT_ARMED then
         (if fg_running f then ret ()
          else if fg_armed f then ret ()
          else thn (modify_fg k (\<lambda>f. f\<lparr>fg_armed := True\<rparr>)) (fg_emit env k (FgArmed True)))
       else if msi = IRQ_DAT_DISARMED then
         (if fg_running f then ret ()
          else if \<not> fg_armed f then ret ()
          else thn (modify_fg k (\<lambda>f. f\<lparr>fg_armed := False\<rparr>))
              (thn (fg_emit env k (FgArmed False)) (releaseChannel env k)))
       else if msi = IRQ_DAT_START then
         (if fg_running f then ret ()
          else if \<not> fg_armed f then ret ()
          else fg_started env k time)
       else
         (if fg_armed f then ret ()
          else if \<not> fg_running f then ret ()
          else fg_stopped env k time msi)))))"

section \<open>Arming and aborting\<close>

definition arm :: "'z fg_environment \<Rightarrow> nat \<Rightarrow> ('z, unit) fg_op" where
  "arm env k =
     bnd (deref_fg k) (\<lambda>f.
     thn (throw_if (fg_enabled f) (invalid_args ''Enabled, cannot re-Arm''))
    (thn (throw_if (fg_fillLevel f = 0) (invalid_args ''FillLevel is zero, cannot Arm''))
    (thn (assert_that (\<not> fg_armed f) ''!armed'')
    (thn (assert_that (\<not> fg_running f) ''!running'')
    (thn (modify_fg k (\<lambda>f. f\<lparr>fg_abort := False\<rparr>))
    (thn (acquireChannel env k)
    (bnd (deref_fg k) (\<lambda>f.
     let ch = (case fg_channel f of Some c \<Rightarrow> c | None \<Rightarrow> 0) in
     try_catch
       (thn (refill env k True) (UseSlot env (fg_mb_slot f) (swi SWI_ENABLE ch)))
       (\<lambda>e. thn (UseSlot env (fg_mb_slot f) (swi SWI_DISABLE ch)) (raise e))))))))))"

definition fg_connect_timeout :: "fg_callback \<Rightarrow> int \<Rightarrow> ('z, source_handle) fg_op" where
  "fg_connect_timeout cb interval =
     (\<lambda>w. case fw_rand w of
        [] \<Rightarrow> (Inl (Undefined ''no further values of rand()''), w)
      | r # rs \<Rightarrow>
          (case new_source_id (ucast r) (fw_loop w) of (i, l1) \<Rightarrow>
           case loop_connect (new_timeout_source i cb interval interval (fw_time w)) l1 of (h, l2) \<Rightarrow>
             (Inr h, w\<lparr>fw_rand := rs, fw_loop := l2\<rparr>)))"

text \<open>\<open>Reset\<close>; \<open>Abort\<close> and \<open>ownerQuit\<close> only call it.\<close>

definition fg_Reset :: "'z fg_environment \<Rightarrow> nat \<Rightarrow> ('z, unit) fg_op" where
  "fg_Reset env k =
     bnd (deref_fg k) (\<lambda>f.
     case fg_channel f of
       None \<Rightarrow> ret ()
     | Some ch \<Rightarrow>
         if fg_abort f then ret ()
         else thn (modify_fg k (\<lambda>f. f\<lparr>fg_abort := True\<rparr>))
             (thn (UseSlot env (fg_mb_slot f) (swi SWI_DISABLE ch))
                  (if \<not> connected (fg_resetTimeout f)
                   then bnd (fg_connect_timeout (ResetFailed_slot k) 1000) (\<lambda>h.
                        modify_fg k (\<lambda>f. f\<lparr>fg_resetTimeout := h\<rparr>))
                   else ret ())))"

text \<open>The slot of the timeout: the microcontroller did not answer to the abort within a second.\<close>

definition ResetFailed :: "'z fg_environment \<Rightarrow> nat \<Rightarrow> ('z, bool) fg_op" where
  "ResetFailed env k =
     bnd (deref_fg k) (\<lambda>f.
     thn (assert_that (fg_enabled f) ''enabled'')
    (thn (if fg_running f
          then thn (modify_fg k (\<lambda>f. f\<lparr>fg_running := False\<rparr>))
              (thn (fg_emit env k (FgRunning False))
              (bnd (fe_clock env) (\<lambda>time. fg_emit env k (FgStopped time True False False))))
          else thn (if \<not> fg_armed f
                    then thn (modify_fg k (\<lambda>f. f\<lparr>fg_armed := True\<rparr>)) (fg_emit env k (FgArmed True))
                    else ret ())
              (thn (modify_fg k (\<lambda>f. f\<lparr>fg_armed := False\<rparr>)) (fg_emit env k (FgArmed False))))
    (thn (releaseChannel env k) (ret False))))"

definition fg_setStartTag :: "nat \<Rightarrow> u32 \<Rightarrow> ('z, unit) fg_op" where
  "fg_setStartTag k val =
     bnd (deref_fg k) (\<lambda>f.
     thn (throw_if (fg_enabled f) (invalid_args ''Enabled, cannot set StartTag''))
         (if val \<noteq> fg_startTag f then modify_fg k (\<lambda>f. f\<lparr>fg_startTag := val\<rparr>) else ret ()))"

definition fg_GetName :: "fg \<Rightarrow> string" where
  "fg_GetName f = ''fg-'' @ show_nat (unat (fg_scubusSlot f)) @ ''-'' @ show_nat (unat (fg_deviceNumber f))"

section \<open>Construction\<close>

text \<open>
  \<open>capacity\<close> is 16384 or what the environment variable says; \<open>host_slot\<close> is the mailbox slot the
  receiver configured for the interrupt.
\<close>

definition new_fg ::
  "u64 \<Rightarrow> u32 \<Rightarrow> u32 \<Rightarrow> u32 \<Rightarrow> u32 \<Rightarrow> u32 \<Rightarrow> u32 option \<Rightarrow> nat \<Rightarrow> fg" where
  "new_fg fgb mbox_slot n_channels buf_size idx macro host_slot capacity =
     \<lparr>fg_shm = fgb + SHM_BASE, fg_mb_slot = mbox_slot, fg_num_channels = n_channels,
      fg_buffer_size = buf_size, fg_index = idx,
      fg_scubusSlot = ucast (drop_bit 24 macro AND 0xFF), fg_deviceNumber = ucast (drop_bit 16 macro AND 0xFF),
      fg_version = ucast (drop_bit 8 macro AND 0xFF), fg_outputWindowSize = ucast (macro AND 0xFF),
      fg_host_slot = host_slot, fg_channel = None, fg_enabled = False, fg_armed = False, fg_running = False,
      fg_abort = False, fg_resetTimeout = null_handle, fg_startTag = 0, fg_executed = 0, fg_fillLevel = 0,
      fg_filled = 0, fg_fifo = [], fg_capacity = capacity, fg_fifo_max_size = 0\<rparr>"

text \<open>\<open>Mailbox::ConfigureSlot\<close>: the first slot whose first word is all ones; none is \<open>None\<close>.\<close>

fun configure_slot_from :: "'z fg_environment \<Rightarrow> nat \<Rightarrow> nat \<Rightarrow> u32 \<Rightarrow> ('z, u32 option) fg_op" where
  "configure_slot_from env slot 0 target_address = ret None"
| "configure_slot_from env slot (Suc left) target_address =
     bnd (fg_cycle (fe_hw env) [BusRead (fe_mailbox env + of_nat slot * 4 * 2)]) (\<lambda>rs.
     if hd rs = 0xffffffff
     then bnd (fg_cycle (fe_hw env) [BusWrite (fe_mailbox env + of_nat slot * 4 * 2 + 4) target_address])
              (\<lambda>_. ret (Some (of_nat slot)))
     else configure_slot_from env (Suc slot) left target_address)"

definition ConfigureSlot :: "'z fg_environment \<Rightarrow> u32 \<Rightarrow> ('z, u32 option) fg_op" where
  "ConfigureSlot env target_address = configure_slot_from env 0 128 target_address"

definition FreeSlot :: "'z fg_environment \<Rightarrow> u32 \<Rightarrow> ('z, unit) fg_op" where
  "FreeSlot env slot_index =
     bnd (fg_cycle (fe_hw env) [BusWrite (fe_mailbox env + ucast slot_index * 4 * 2 + 4) 0xffffffff]) (\<lambda>_. ret ())"

definition destroy_fg :: "'z fg_environment \<Rightarrow> nat \<Rightarrow> ('z, unit) fg_op" where
  "destroy_fg env k =
     bnd (deref_fg k) (\<lambda>f.
     thn (modify (remove_timeout (fg_resetTimeout f))) (case fg_host_slot f of None \<Rightarrow> ret () | Some slot \<Rightarrow> FreeSlot env slot))"

end
