(* ===== verification/Function_Generator_Facts.thy ===== *)
theory Function_Generator_Facts
  imports Function_Generator
begin

text \<open>
  What the channels of the function generators keep across all operations, whatever the bus, the
  microcontroller and the connected slots answer: a channel of the microcontroller belongs to at most
  one generator, the flags describe one of four phases, and the fill level is the sum of the queue.
  Each operation is summarised by the phase it leads to.
\<close>

section \<open>Phases\<close>

datatype phase = Idle | Waiting nat | Armed nat | Running nat

definition phase_of :: "fg \<Rightarrow> phase" where
  "phase_of f = (case fg_channel f of
      None \<Rightarrow> Idle
    | Some c \<Rightarrow> if fg_running f then Running c else if fg_armed f then Armed c else Waiting c)"

fun phase_channel :: "phase \<Rightarrow> nat option" where
  "phase_channel Idle = None"
| "phase_channel (Waiting c) = Some c"
| "phase_channel (Armed c) = Some c"
| "phase_channel (Running c) = Some c"

text \<open>How the messages of the microcontroller move the phase.\<close>

definition phase_message :: "u32 \<Rightarrow> phase \<Rightarrow> phase" where
  "phase_message msi p =
     (if msi = IRQ_DAT_REFILL then p
      else if msi = IRQ_DAT_ARMED then (case p of Waiting c \<Rightarrow> Armed c | _ \<Rightarrow> p)
      else if msi = IRQ_DAT_DISARMED then (case p of Armed c \<Rightarrow> Idle | _ \<Rightarrow> p)
      else if msi = IRQ_DAT_START then (case p of Armed c \<Rightarrow> Running c | _ \<Rightarrow> p)
      else (case p of Running c \<Rightarrow> Idle | _ \<Rightarrow> p))"

section \<open>The invariant\<close>

definition flags_ok :: "fg \<Rightarrow> bool" where
  "flags_ok f \<longleftrightarrow> (fg_enabled f \<longleftrightarrow> fg_channel f \<noteq> None) \<and> (fg_armed f \<or> fg_running f \<longrightarrow> fg_enabled f) \<and>
     \<not> (fg_armed f \<and> fg_running f)"

definition tuple_ok :: "parameter_tuple \<Rightarrow> bool" where
  "tuple_ok t \<longleftrightarrow> pt_step t < 8 \<and> pt_freq t < 8"

definition tuple_time :: "parameter_tuple \<Rightarrow> u64" where
  "tuple_time t = fg_samples ! unat (pt_step t) * fg_sample_len ! unat (pt_freq t)"

definition queue_ok :: "fg \<Rightarrow> bool" where
  "queue_ok f \<longleftrightarrow> 0 < fg_capacity f \<and> list_all tuple_ok (fg_fifo f) \<and>
     fg_fillLevel f = sum_list (map tuple_time (fg_fifo f))"

text \<open>The allocation agrees with the channels the generators hold.\<close>

definition holder :: "fg \<Rightarrow> nat option \<times> u32" where
  "holder f = (fg_channel f, fg_index f)"

definition alloc_ok :: "int list \<Rightarrow> (nat option \<times> u32) list \<Rightarrow> bool" where
  "alloc_ok alloc hs \<longleftrightarrow>
     (\<forall>k < length hs. snd (hs ! k) \<noteq> - 1) \<and>
     (\<forall>k < length hs. \<forall>c. fst (hs ! k) = Some c \<longrightarrow> c < length alloc \<and> alloc ! c = sint (snd (hs ! k))) \<and>
     (\<forall>j < length hs. \<forall>k < length hs. fst (hs ! j) \<noteq> None \<and> fst (hs ! j) = fst (hs ! k) \<longrightarrow> j = k) \<and>
     (\<forall>c < length alloc. alloc ! c \<noteq> - 1 \<longrightarrow> (\<exists>k < length hs. fst (hs ! k) = Some c))"

definition fgs_ok :: "'z fg_world_scheme \<Rightarrow> bool" where
  "fgs_ok w \<longleftrightarrow> list_all flags_ok (fw_fgs w) \<and> list_all queue_ok (fw_fgs w) \<and>
     alloc_ok (fw_alloc w) (map holder (fw_fgs w))"

text \<open>The part of a generator that decides what an operation does.\<close>

definition view :: "fg \<Rightarrow> phase \<times> u32" where
  "view f = (phase_of f, fg_index f)"

definition at_phase :: "nat \<Rightarrow> phase \<times> u32 \<Rightarrow> 'z fg_world_scheme \<Rightarrow> bool" where
  "at_phase k p w \<longleftrightarrow> fgs_ok w \<and> k < length (fw_fgs w) \<and> view (fw_fgs w ! k) = p"

lemma at_phaseD: "at_phase k p w \<Longrightarrow> fgs_ok w" by (simp add: at_phase_def)

text \<open>
  The slots of the signals may fail and may change the daemon, but they do not move a generator to
  another phase; the clock is read without a change of the generators.
\<close>

definition polite_slots :: "'z fg_environment \<Rightarrow> bool" where
  "polite_slots env \<longleftrightarrow>
     (\<forall>k ev w. fgs_ok w \<longrightarrow> fgs_ok (snd (fe_notify env k ev w)) \<and>
        map view (fw_fgs (snd (fe_notify env k ev w))) = map view (fw_fgs w)) \<and>
     (\<forall>w. fgs_ok w \<longrightarrow> fgs_ok (snd (fe_clock env w)) \<and>
        map view (fw_fgs (snd (fe_clock env w))) = map view (fw_fgs w))"

section \<open>Moves\<close>

text \<open>From phase \<open>p\<close> the operation ends in phase \<open>p'\<close>, or with an exception and the invariant.\<close>

definition moves :: "nat \<Rightarrow> phase \<times> u32 \<Rightarrow> ('z, 'a) fg_op \<Rightarrow> phase \<times> u32 \<Rightarrow> bool" where
  "moves k p m p' \<longleftrightarrow> triple (at_phase k p) m (\<lambda>_. at_phase k p') fgs_ok"

lemma moves_bnd: "moves k p m q \<Longrightarrow> (\<And>x. moves k q (g x) r) \<Longrightarrow> moves k p (bnd m g) r"
  unfolding moves_def by (rule triple_bnd)

lemma moves_thn: "moves k p m q \<Longrightarrow> moves k q n r \<Longrightarrow> moves k p (thn m n) r"
  unfolding moves_def by (rule triple_thn)

lemmas stays_thn = moves_thn [of k p m p for k p m]

lemma moves_ret: "moves k p (ret x) p"
  unfolding moves_def by (rule triple_ret)

lemma moves_raise: "moves k p (raise e) q"
  unfolding moves_def by (rule triple_raise) (rule at_phaseD)

lemma moves_assert: "moves k p (assert_that b msg) p"
  unfolding moves_def by (rule triple_assert) (auto dest: at_phaseD)

lemma moves_throw_if: "moves k p (throw_if b e) p"
  unfolding moves_def by (rule triple_throw_if) (auto dest: at_phaseD)

text \<open>What is read of a generator agrees with its phase.\<close>

definition reads :: "phase \<times> u32 \<Rightarrow> fg \<Rightarrow> bool" where
  "reads p f \<longleftrightarrow> flags_ok f \<and> queue_ok f \<and> view f = p"

lemma at_phase_reads: "at_phase k p w \<Longrightarrow> reads p (fw_fgs w ! k)"
  by (simp add: at_phase_def reads_def fgs_ok_def list_all_length)

lemma moves_deref:
  assumes "\<And>f. reads p f \<Longrightarrow> moves k p (g f) q"
  shows "moves k p (bnd (deref_fg k) g) q"
  unfolding moves_def triple_def
proof (intro allI impI)
  fix w :: "'a fg_world_scheme" assume w: "at_phase k p w"
  from assms [OF at_phase_reads [OF w]] w
  show "case bnd (deref_fg k) g w of (Inl _, w') \<Rightarrow> fgs_ok w' | (Inr x, w') \<Rightarrow> at_phase k q w'"
    by (simp add: moves_def triple_def deref_fg_def op_simps at_phase_def)
qed

lemma moves_cases:
  "(b \<Longrightarrow> moves k p m q) \<Longrightarrow> (\<not> b \<Longrightarrow> moves k p n q) \<Longrightarrow> moves k p (if b then m else n) q"
  by simp

lemma moves_cycle: "moves k p (fg_cycle hw ops) p"
  unfolding moves_def triple_def fg_cycle_def at_phase_def fgs_ok_def
  by (simp add: close_cycle_def split: option.split)

lemma moves_UseSlot: "moves k p (UseSlot env s v) p"
  unfolding UseSlot_def by (rule moves_bnd [OF moves_cycle moves_ret])

lemma map_view_nth: "map view xs = map view ys \<Longrightarrow> k < length ys \<Longrightarrow> k < length xs \<and> view (xs ! k) = view (ys ! k)"
  by (metis length_map nth_map)

lemma moves_emit:
  assumes q: "polite_slots env"
  shows "moves k p (fg_emit env k ev) p"
  unfolding moves_def triple_def
proof (intro allI impI)
  fix w :: "'a fg_world_scheme" assume w: "at_phase k p w"
  let ?w = "w\<lparr>fw_events := fw_events w @ [(k, ev)]\<rparr>"
  obtain r w' where r: "fe_notify env k ev ?w = (r, w')" by fastforce
  have ok: "fgs_ok ?w" using w by (simp add: at_phase_def fgs_ok_def)
  have "fgs_ok (snd (fe_notify env k ev ?w))"
    "map view (fw_fgs (snd (fe_notify env k ev ?w))) = map view (fw_fgs ?w)"
    using q ok unfolding polite_slots_def by blast+
  then have *: "fgs_ok w'" "map view (fw_fgs w') = map view (fw_fgs w)" by (simp_all add: r)
  with w show "case fg_emit env k ev w of (Inl _, w') \<Rightarrow> fgs_ok w' | (Inr x, w') \<Rightarrow> at_phase k p w'"
    by (simp add: fg_emit_def op_simps r at_phase_def map_view_nth [OF *(2)] split: sum.split)
qed

lemma moves_clock:
  assumes q: "polite_slots env"
  shows "moves k p (fe_clock env) p"
  unfolding moves_def triple_def
proof (intro allI impI)
  fix w :: "'a fg_world_scheme" assume w: "at_phase k p w"
  obtain r w' where r: "fe_clock env w = (r, w')" by fastforce
  have "fgs_ok (snd (fe_clock env w)) \<and> map view (fw_fgs (snd (fe_clock env w))) = map view (fw_fgs w)"
    using q w unfolding polite_slots_def at_phase_def by blast
  then have *: "fgs_ok w'" "map view (fw_fgs w') = map view (fw_fgs w)" by (simp_all add: r)
  with w show "case fe_clock env w of (Inl _, w') \<Rightarrow> fgs_ok w' | (Inr x, w') \<Rightarrow> at_phase k p w'"
    by (simp add: r at_phase_def map_view_nth [OF *(2)] split: sum.split)
qed

lemma moves_world:
  assumes "\<And>w. fw_fgs (h w) = fw_fgs w" "\<And>w. fw_alloc (h w) = fw_alloc w"
  shows "moves k p (modify h) p"
  unfolding moves_def by (rule triple_modify) (simp add: at_phase_def fgs_ok_def assms)

lemma moves_timeout: "moves k p (modify (remove_timeout h)) p"
  by (rule moves_world) (simp_all add: remove_timeout_def)

text \<open>A change of one generator that keeps its channel.\<close>

lemma moves_modify_fg:
  assumes h: "\<And>f. reads p f \<Longrightarrow> reads q (h f)" and c: "phase_channel (fst q) = phase_channel (fst p)" "snd q = snd p"
  shows "moves k p (modify_fg k h) q"
  unfolding moves_def triple_def
proof (intro allI impI)
  fix w :: "'a fg_world_scheme" assume w: "at_phase k p w"
  let ?f = "fw_fgs w ! k"
  have f: "reads p ?f" by (rule at_phase_reads [OF w])
  have k: "k < length (fw_fgs w)" using w by (simp add: at_phase_def)
  have hold: "reads p' g \<Longrightarrow> holder g = (phase_channel (fst p'), snd p')" for p' g
    by (auto simp: reads_def view_def holder_def phase_of_def flags_ok_def split: option.splits)
  have "map holder ((fw_fgs w)[k := h ?f]) = map holder (fw_fgs w)"
    using hold [OF f] hold [OF h [OF f]] c k by (simp add: map_update list_update_same_conv)
  moreover have "at_phase k p w" by (rule w)
  ultimately have "at_phase k q (w\<lparr>fw_fgs := (fw_fgs w)[k := h ?f]\<rparr>)"
    using h [OF f] k unfolding at_phase_def fgs_ok_def
    by (auto simp: reads_def list_all_length nth_list_update)
  then show "case modify_fg k h w of (Inl _, w') \<Rightarrow> fgs_ok w' | (Inr x, w') \<Rightarrow> at_phase k q w'"
    using k by (simp add: modify_fg_def deref_fg_def op_simps)
qed

section \<open>The queue\<close>

lemma duration_ok: "tuple_ok t \<Longrightarrow> duration t = Inr (tuple_time t)"
  by (simp add: tuple_ok_def duration_def tuple_time_def fg_samples_def fg_sample_len_def word_less_nat_alt)

lemma reads_same:
  "reads p f \<Longrightarrow> fg_channel f' = fg_channel f \<Longrightarrow> fg_running f' = fg_running f \<Longrightarrow> fg_armed f' = fg_armed f \<Longrightarrow>
   fg_enabled f' = fg_enabled f \<Longrightarrow> fg_index f' = fg_index f \<Longrightarrow> queue_ok f' \<Longrightarrow> reads p f'"
  by (cases "fg_channel f") (auto simp: reads_def view_def phase_of_def flags_ok_def)

lemma reads_queue: "reads p f \<Longrightarrow> queue_ok f" by (simp add: reads_def)

lemma consume_reads: "consume n f = Inr f' \<Longrightarrow> reads p f \<Longrightarrow> reads p f'"
proof (induction n f rule: consume.induct)
  case (2 n f)
  show ?case
  proof (cases "fg_fifo f")
    case (Cons t ts)
    then have t: "tuple_ok t" using 2(3) by (simp add: reads_def queue_ok_def)
    let ?f = "f\<lparr>fg_fillLevel := fg_fillLevel f - tuple_time t, fg_filled := fg_filled f - 1, fg_fifo := ts\<rparr>"
    have "queue_ok ?f" using reads_queue [OF 2(3)] Cons by (simp add: queue_ok_def)
    then have "reads p ?f" by (rule reads_same [OF 2(3), rotated -1]) simp_all
    then show ?thesis using 2(1) [OF Cons, of "tuple_time t"] 2(2) Cons by (simp add: duration_ok [OF t])
  qed (use 2 in simp)
qed simp

lemma fifo_push_back_fields [simp]:
  "fg_channel (fifo_push_back t f) = fg_channel f" "fg_running (fifo_push_back t f) = fg_running f"
  "fg_armed (fifo_push_back t f) = fg_armed f" "fg_enabled (fifo_push_back t f) = fg_enabled f"
  "fg_index (fifo_push_back t f) = fg_index f" "fg_fillLevel (fifo_push_back t f) = fg_fillLevel f"
  by (simp_all add: fifo_push_back_def Let_def)

lemma fifo_push_back_fifo:
  "0 < fg_capacity f \<Longrightarrow> fg_fifo (fifo_push_back t f) = fg_fifo f @ [t] \<and> 0 < fg_capacity (fifo_push_back t f)"
  by (simp add: fifo_push_back_def Let_def)

lemma append_tuple_reads:
  assumes "tuple_ok t" "reads p f" "append_tuple t f = Inr f'" shows "reads p f'"
proof (rule reads_same [OF assms(2)])
  have f': "f' = (fifo_push_back t f)\<lparr>fg_fillLevel := fg_fillLevel f + tuple_time t\<rparr>"
    using assms(3) by (simp add: append_tuple_def duration_ok [OF assms(1)] Let_def)
  show "queue_ok f'" using reads_queue [OF assms(2)] assms(1) fifo_push_back_fifo [of f t]
    by (simp add: queue_ok_def f')
qed (use assms(3) in \<open>auto simp: append_tuple_def duration_ok [OF assms(1)] Let_def\<close>)

lemma append_tuples_reads: "list_all tuple_ok ts \<Longrightarrow> reads p f \<Longrightarrow> append_tuples ts f = Inr f' \<Longrightarrow> reads p f'"
  by (induction ts f rule: append_tuples.induct) (auto split: sum.splits intro: append_tuple_reads)

lemma moves_put: "reads p f \<Longrightarrow> moves k p (modify_fg k (\<lambda>_. f)) p"
  by (rule moves_modify_fg) auto

text \<open>A change of other fields.\<close>

lemma moves_tweak:
  assumes "\<And>f. fg_channel (h f) = fg_channel f" "\<And>f. fg_running (h f) = fg_running f" "\<And>f. fg_armed (h f) = fg_armed f"
    "\<And>f. fg_enabled (h f) = fg_enabled f" "\<And>f. fg_index (h f) = fg_index f" "\<And>f. queue_ok f \<Longrightarrow> queue_ok (h f)"
  shows "moves k p (modify_fg k h) p"
proof (rule moves_modify_fg)
  fix f assume f: "reads p f"
  show "reads p (h f)" by (rule reads_same [OF f]) (simp_all add: assms reads_queue [OF f])
qed simp_all

lemma moves_upload: "moves k p (upload env k ch off) p"
  unfolding upload_def Let_def
  by (intro moves_deref moves_cases moves_raise moves_bnd [OF moves_cycle] moves_tweak)
    (simp_all add: queue_ok_def)

lemma moves_read_offsets: "moves k p (read_offsets env regs first) p"
  unfolding read_offsets_def by (intro moves_cases moves_ret moves_bnd [OF moves_cycle])

lemma moves_refill:
  assumes q: "polite_slots env"
  shows "moves k p (refill env k first) p"
  unfolding refill_def
proof (rule moves_deref)
  fix f assume f: "reads p f"
  have "moves k p (case consume n f of Inl e \<Rightarrow> raise e | Inr f' \<Rightarrow>
      thn (modify_fg k (\<lambda>_. f')) (thn (if lowFill f' \<and> \<not> lowFill f then fg_emit env k FgRefill else ret ())
        (bnd (deref_fg k) (\<lambda>f. thn (assert_that (fg_filled f = r) msg) (upload env k ch woff))))) p" for n r msg ch woff
  proof (cases "consume n f")
    case (Inr f')
    have "reads p f'" by (rule consume_reads [OF Inr f])
    then show ?thesis unfolding Inr sum.case
      by (intro moves_thn [OF moves_put] stays_thn [OF moves_cases] moves_emit [OF q] moves_ret moves_deref
          moves_thn [OF moves_assert] moves_upload)
  qed (simp add: moves_raise)
  then show "moves k p (case fg_channel f of None \<Rightarrow> raise (AssertFailed ''channel != -1'')
     | Some ch \<Rightarrow> bnd (read_offsets env (fg_regs f ch) first) (\<lambda>(write_offset_d, read_offset_d).
         if fg_buffer_size f = 0 then raise (Undefined ''modulo zero'')
         else let write_offset = write_offset_d mod fg_buffer_size f;
               read_offset = read_offset_d mod fg_buffer_size f;
               remaining = wrapping_sub write_offset read_offset (fg_buffer_size f);
               completed = fg_filled f - remaining
           in case consume (unat completed) f of
                Inl e \<Rightarrow> raise e
              | Inr f' \<Rightarrow> thn (modify_fg k (\<lambda>_. f'))
                 (thn (if lowFill f' \<and> \<not> lowFill f then fg_emit env k FgRefill else ret ())
                 (bnd (deref_fg k) (\<lambda>f. thn (assert_that (fg_filled f = remaining) ''filled == remaining'')
                      (upload env k ch write_offset)))))) p"
    unfolding Let_def
    by (cases "fg_channel f")
      (simp_all add: moves_raise, rule moves_bnd [OF moves_read_offsets], simp add: moves_raise split: prod.split)
qed

lemma moves_appendParameterTuples:
  assumes "polite_slots env" "list_all tuple_ok ts"
  shows "moves k p (appendParameterTuples env k ts) p"
  unfolding appendParameterTuples_def
proof (rule moves_deref)
  fix f assume f: "reads p f"
  show "moves k p (case append_tuples ts f of Inl e \<Rightarrow> raise e
     | Inr f' \<Rightarrow> thn (modify_fg k (\<lambda>_. f')) (thn (if fg_channel f' \<noteq> None then refill env k False else ret ())
        (bnd (deref_fg k) (\<lambda>f. ret (lowFill f))))) p"
  proof (cases "append_tuples ts f")
    case (Inr f')
    have "reads p f'" by (rule append_tuples_reads [OF assms(2) f Inr])
    then show ?thesis unfolding Inr sum.case
      by (intro moves_thn [OF moves_put] stays_thn [OF moves_cases] moves_refill [OF assms(1)] moves_ret moves_deref)
  qed (simp add: moves_raise)
qed

lemma check_values_None:
  "check_values xs = None \<Longrightarrow> i < length xs \<Longrightarrow>
   (case xs ! i of (step, freq, a, b) \<Rightarrow> step < 8 \<and> freq < 8 \<and> a \<le> 48 \<and> b \<le> 48)"
  by (induction xs arbitrary: i rule: check_values.induct) (auto simp: nth_Cons split: if_splits nat.split)

lemma set_tuples_ok:
  assumes l: "check_lengths ps = None"
    and v: "check_values (zip (ps_step ps) (zip (ps_freq ps) (zip (ps_shift_a ps) (ps_shift_b ps)))) = None"
  shows "list_all tuple_ok (set_tuples ps)"
  using l check_values_None [OF v]
  by (fastforce simp: list_all_length set_tuples_def tuple_ok_def check_lengths_def Let_def split: if_splits)

lemma moves_appendParameterSet: "polite_slots env \<Longrightarrow> moves k p (appendParameterSet env k ps) p"
  unfolding appendParameterSet_def
  by (auto split: option.split intro!: moves_raise moves_appendParameterTuples set_tuples_ok)

section \<open>Channels\<close>

lemma reads_idle: "reads (Idle, i) f \<Longrightarrow> fg_channel f = None \<and> \<not> fg_enabled f \<and> \<not> fg_armed f \<and> \<not> fg_running f"
  by (auto simp: reads_def view_def phase_of_def flags_ok_def split: option.splits if_splits)

lemma reads_waiting: "reads (Waiting c, i) f \<Longrightarrow> fg_channel f = Some c \<and> fg_enabled f \<and> \<not> fg_armed f \<and> \<not> fg_running f"
  by (auto simp: reads_def view_def phase_of_def flags_ok_def split: option.splits if_splits)

lemma reads_armed: "reads (Armed c, i) f \<Longrightarrow> fg_channel f = Some c \<and> fg_enabled f \<and> fg_armed f \<and> \<not> fg_running f"
  by (auto simp: reads_def view_def phase_of_def flags_ok_def split: option.splits if_splits)

lemma reads_running: "reads (Running c, i) f \<Longrightarrow> fg_channel f = Some c \<and> fg_enabled f \<and> \<not> fg_armed f \<and> fg_running f"
  by (auto simp: reads_def view_def phase_of_def flags_ok_def split: option.splits if_splits)

lemmas reads_phase = reads_idle reads_waiting reads_armed reads_running

lemma first_free_is: "first_free_channel is < length is \<Longrightarrow> is ! first_free_channel is = - 1"
  by (induction "is" rule: first_free_channel.induct) auto

lemma first_free_le: "first_free_channel is \<le> length is"
  by (induction "is" rule: first_free_channel.induct) auto

lemma sint_eq_minus_one: "sint (i :: u32) = - 1 \<longleftrightarrow> i = - 1"
  by (metis signed_word_eqI sint_n1)

lemma alloc_take:
  assumes ok: "alloc_ok a hs" and k: "k < length hs" "hs ! k = (None, i)" and c: "c < length a" "a ! c = - 1"
  shows "alloc_ok (a[c := sint i]) (hs[k := (Some c, i)])"
proof -
  have i: "i \<noteq> - 1" using ok k unfolding alloc_ok_def by fastforce
  have free: "j < length hs \<Longrightarrow> fst (hs ! j) \<noteq> Some c" for j
    using ok c unfolding alloc_ok_def by (metis sint_eq_minus_one)
  show ?thesis unfolding alloc_ok_def length_list_update
  proof (intro conjI allI impI)
    fix j d assume j: "j < length hs" "fst (hs[k := (Some c, i)] ! j) = Some d"
    show "d < length a" "a[c := sint i] ! d = sint (snd (hs[k := (Some c, i)] ! j))"
      using ok c free [OF j(1)] j k unfolding alloc_ok_def by (cases "j = k"; auto simp: nth_list_update)+
  next
    fix j assume "j < length hs"
    then show "snd (hs[k := (Some c, i)] ! j) \<noteq> - 1"
      using ok i unfolding alloc_ok_def by (cases "j = k") auto
  next
    fix j l assume "j < length hs" "l < length hs"
      "fst (hs[k := (Some c, i)] ! j) \<noteq> None \<and> fst (hs[k := (Some c, i)] ! j) = fst (hs[k := (Some c, i)] ! l)"
    then show "j = l" using ok free k unfolding alloc_ok_def
      by (metis fst_conv nth_list_update_eq nth_list_update_neq)
  next
    fix d assume "d < length a" "a[c := sint i] ! d \<noteq> - 1"
    then show "\<exists>j < length hs. fst (hs[k := (Some c, i)] ! j) = Some d"
      using ok k unfolding alloc_ok_def
      by (metis fst_conv nth_list_update_eq nth_list_update_neq option.distinct(1))
  qed
qed

lemma alloc_give:
  assumes ok: "alloc_ok a hs" and k: "k < length hs" "hs ! k = (Some c, i)"
  shows "alloc_ok (a[c := - 1]) (hs[k := (None, i)])"
proof -
  have c: "c < length a" using ok k unfolding alloc_ok_def by fastforce
  have other: "j < length hs \<Longrightarrow> j \<noteq> k \<Longrightarrow> fst (hs ! j) \<noteq> Some c" for j
    using ok k unfolding alloc_ok_def by (metis fst_conv option.distinct(1))
  show ?thesis unfolding alloc_ok_def length_list_update
  proof (intro conjI allI impI)
    fix j d assume j: "j < length hs" "fst (hs[k := (None, i)] ! j) = Some d"
    then have "j \<noteq> k" "d \<noteq> c" using other [of j] k by (auto simp: nth_list_update split: if_splits)
    with j show "d < length a" "a[c := - 1] ! d = sint (snd (hs[k := (None, i)] ! j))"
      using ok unfolding alloc_ok_def by (auto simp: nth_list_update)
  next
    fix j assume "j < length hs"
    then show "snd (hs[k := (None, i)] ! j) \<noteq> - 1"
      using ok k unfolding alloc_ok_def by (metis nth_list_update_eq nth_list_update_neq snd_conv)
  next
    fix j l assume "j < length hs" "l < length hs"
      "fst (hs[k := (None, i)] ! j) \<noteq> None \<and> fst (hs[k := (None, i)] ! j) = fst (hs[k := (None, i)] ! l)"
    then show "j = l" using ok unfolding alloc_ok_def
      by (metis fst_conv nth_list_update_eq nth_list_update_neq)
  next
    fix d assume d: "d < length a" "a[c := - 1] ! d \<noteq> - 1"
    then have "d \<noteq> c" by auto
    with d show "\<exists>j < length hs. fst (hs[k := (None, i)] ! j) = Some d"
      using ok k unfolding alloc_ok_def by (metis fst_conv nth_list_update_neq option.inject)
  qed
qed

text \<open>The two writes that hand a channel over happen together.\<close>

lemma at_phase_holder: "at_phase k p w \<Longrightarrow> map holder (fw_fgs w) ! k = (phase_channel (fst p), snd p)"
  by (auto dest!: at_phase_reads simp: at_phase_def holder_def reads_def view_def phase_of_def flags_ok_def
      split: option.splits)

lemma take_channel:
  assumes w: "at_phase k (Idle, i) w" and c: "c < length (fw_alloc w)" "fw_alloc w ! c = - 1"
  shows "at_phase k (Waiting c, i) (w\<lparr>fw_log := log, fw_alloc := (fw_alloc w)[c := sint (fg_index (fw_fgs w ! k))],
    fw_fgs := (fw_fgs w)[k := (fw_fgs w ! k)\<lparr>fg_channel := Some c, fg_enabled := True\<rparr>]\<rparr>)"
proof -
  let ?f = "fw_fgs w ! k" and ?g = "(fw_fgs w ! k)\<lparr>fg_channel := Some c, fg_enabled := True\<rparr>"
  have k: "k < length (fw_fgs w)" and ok: "fgs_ok w" using w by (simp_all add: at_phase_def)
  have f: "reads (Idle, i) ?f" by (rule at_phase_reads [OF w])
  have i: "fg_index ?f = i" using f by (simp add: reads_def view_def)
  have g: "reads (Waiting c, i) ?g"
    using f reads_idle [OF f] by (simp add: reads_def view_def phase_of_def flags_ok_def queue_ok_def)
  have "alloc_ok ((fw_alloc w)[c := sint i]) ((map holder (fw_fgs w))[k := (Some c, i)])"
    using ok k at_phase_holder [OF w] c by (intro alloc_take) (simp_all add: fgs_ok_def)
  with ok k g show ?thesis
    unfolding at_phase_def fgs_ok_def
    by (auto simp: reads_def list_all_length nth_list_update map_update holder_def i)
qed

lemma give_channel:
  assumes w: "at_phase k (Waiting c, i) w"
  shows "at_phase k (Idle, i) (w\<lparr>fw_alloc := (fw_alloc w)[c := - 1],
    fw_fgs := (fw_fgs w)[k := (fw_fgs w ! k)\<lparr>fg_channel := None, fg_filled := 0, fg_enabled := False\<rparr>]\<rparr>)"
proof -
  let ?f = "fw_fgs w ! k" and ?g = "(fw_fgs w ! k)\<lparr>fg_channel := None, fg_filled := 0, fg_enabled := False\<rparr>"
  have k: "k < length (fw_fgs w)" and ok: "fgs_ok w" using w by (simp_all add: at_phase_def)
  have f: "reads (Waiting c, i) ?f" by (rule at_phase_reads [OF w])
  have i: "fg_index ?f = i" using f by (simp add: reads_def view_def)
  have g: "reads (Idle, i) ?g"
    using f reads_waiting [OF f] by (simp add: reads_def view_def phase_of_def flags_ok_def queue_ok_def)
  have "alloc_ok ((fw_alloc w)[c := - 1]) ((map holder (fw_fgs w))[k := (None, i)])"
    using ok k at_phase_holder [OF w] by (intro alloc_give) (simp_all add: fgs_ok_def)
  with ok k g show ?thesis
    unfolding at_phase_def fgs_ok_def
    by (auto simp: reads_def list_all_length nth_list_update map_update holder_def i)
qed

section \<open>The operations as moves\<close>

lemma acquire_cases:
  assumes w: "at_phase k (Idle, i) w"
  defines "c \<equiv> first_free_channel (fw_alloc w)"
  shows "(\<exists>e. acquireChannel env k w = (Inl e, w)) \<or>
    (\<exists>w1. acquireChannel env k w = fg_emit env k (FgEnabled True) w1 \<and> at_phase k (Waiting c, i) w1 \<and>
       c < length (fw_alloc w))"
proof -
  let ?f = "fw_fgs w ! k"
  have k: "k < length (fw_fgs w)" using w by (simp add: at_phase_def)
  have idle: "fg_channel ?f = None" using reads_idle [OF at_phase_reads [OF w]] by simp
  show ?thesis
  proof (cases "c < length (fw_alloc w)")
    case False
    then have "c = length (fw_alloc w)" using first_free_le [of "fw_alloc w"] by (simp add: c_def)
    then show ?thesis using k idle by (simp add: acquireChannel_def op_simps deref_fg_def c_def Let_def)
  next
    case c: True
    then have free: "fw_alloc w ! c = - 1" unfolding c_def by (rule first_free_is)
    have ne: "first_free_channel (fw_alloc w) \<noteq> length (fw_alloc w)" using c by (simp add: c_def)
    show ?thesis
      using k idle c ne take_channel [OF w c free]
      by (auto simp: acquireChannel_def op_simps deref_fg_def modify_fg_def fg_cycle_def close_cycle_def
          Let_def c_def [symmetric] split: option.split)
  qed
qed

lemma moves_acquire:
  assumes q: "polite_slots env"
  shows "triple (at_phase k (Idle, i)) (acquireChannel env k) (\<lambda>_ w. \<exists>c. at_phase k (Waiting c, i) w) fgs_ok"
  unfolding triple_def
proof (intro allI impI)
  fix w :: "'a fg_world_scheme" assume w: "at_phase k (Idle, i) w"
  from acquire_cases [OF w, of env] show "case acquireChannel env k w of (Inl _, w') \<Rightarrow> fgs_ok w'
    | (Inr x, w') \<Rightarrow> \<exists>c. at_phase k (Waiting c, i) w'"
  proof (elim disjE exE conjE)
    fix w1 assume "acquireChannel env k w = fg_emit env k (FgEnabled True) w1"
      "at_phase k (Waiting (first_free_channel (fw_alloc w)), i) w1"
    then show ?thesis using moves_emit [OF q, of k "(Waiting (first_free_channel (fw_alloc w)), i)" "FgEnabled True"]
      by (auto simp: moves_def triple_def split: prod.splits sum.splits)
  qed (use w in \<open>auto dest: at_phaseD\<close>)
qed

text \<open>Both writes of a release, before whatever comes next.\<close>

lemma moves_give:
  assumes n: "moves k (Idle, i) n q"
  shows "moves k (Waiting c, i) (thn (modify (\<lambda>w. w\<lparr>fw_alloc := (fw_alloc w)[c := - 1]\<rparr>))
    (thn (modify_fg k (\<lambda>f. f\<lparr>fg_channel := None, fg_filled := 0, fg_enabled := False\<rparr>)) n)) q"
  unfolding moves_def triple_def
proof (intro allI impI)
  fix w :: "'a fg_world_scheme" assume w: "at_phase k (Waiting c, i) w"
  have k: "k < length (fw_fgs w)" using w by (simp add: at_phase_def)
  have "(thn (modify (\<lambda>w. w\<lparr>fw_alloc := (fw_alloc w)[c := - 1]\<rparr>))
    (thn (modify_fg k (\<lambda>f. f\<lparr>fg_channel := None, fg_filled := 0, fg_enabled := False\<rparr>)) n)) w =
    n (w\<lparr>fw_alloc := (fw_alloc w)[c := - 1],
      fw_fgs := (fw_fgs w)[k := (fw_fgs w ! k)\<lparr>fg_channel := None, fg_filled := 0, fg_enabled := False\<rparr>]\<rparr>)"
    using k by (simp add: op_simps modify_fg_def deref_fg_def)
  with n give_channel [OF w] show "case (thn (modify (\<lambda>w. w\<lparr>fw_alloc := (fw_alloc w)[c := - 1]\<rparr>))
    (thn (modify_fg k (\<lambda>f. f\<lparr>fg_channel := None, fg_filled := 0, fg_enabled := False\<rparr>)) n)) w
     of (Inl _, w') \<Rightarrow> fgs_ok w' | (Inr x, w') \<Rightarrow> at_phase k q w'"
    by (simp add: moves_def triple_def)
qed

lemma moves_clear: "moves k p (modify_fg k (\<lambda>f. f\<lparr>fg_fillLevel := 0, fg_fifo := []\<rparr>)) p"
  by (rule moves_tweak) (simp_all add: queue_ok_def)

lemma moves_flush: "moves k p (flush k) p"
  unfolding flush_def
  by (intro moves_deref moves_thn [OF moves_throw_if] moves_thn [OF moves_assert] moves_clear)

lemma moves_release:
  assumes q: "polite_slots env"
  shows "moves k (Waiting c, i) (releaseChannel env k) (Idle, i)"
  unfolding releaseChannel_def
proof (rule moves_deref)
  fix f assume "reads (Waiting c, i) f"
  then have c: "fg_channel f = Some c" by (simp add: reads_waiting)
  show "moves k (Waiting c, i) (case fg_channel f of
       None \<Rightarrow> raise (AssertFailed ''channel != -1'')
     | Some ch \<Rightarrow> thn (modify (remove_timeout (fg_resetTimeout f)))
        (thn (if fg_abort f then UseSlot env (fg_mb_slot f) (swi SWI_INIT_BUFFERS ch) else ret ())
        (thn (modify (\<lambda>w. w\<lparr>fw_alloc := (fw_alloc w)[ch := - 1]\<rparr>))
        (thn (modify_fg k (\<lambda>f. f\<lparr>fg_channel := None, fg_filled := 0, fg_enabled := False\<rparr>))
        (thn (fg_emit env k (FgEnabled False))
             (bnd (deref_fg k) (\<lambda>f. if fg_abort f then flush k else ret ()))))))) (Idle, i)"
    unfolding c option.case
    by (intro moves_thn [OF moves_timeout] stays_thn [OF moves_cases] moves_UseSlot moves_ret moves_give
        moves_thn [OF moves_emit [OF q]] moves_deref moves_cases moves_flush)
qed

lemma moves_flags:
  assumes "\<And>f. reads p f \<Longrightarrow> reads q (f\<lparr>fg_armed := a, fg_running := r\<rparr>)"
    and "phase_channel (fst q) = phase_channel (fst p)" "snd q = snd p"
  shows "moves k p (modify_fg k (\<lambda>f. f\<lparr>fg_armed := a, fg_running := r\<rparr>)) q"
  by (rule moves_modify_fg [OF assms])

lemma reads_iff:
  "reads p f \<longleftrightarrow> queue_ok f \<and> fg_index f = snd p \<and> fg_channel f = phase_channel (fst p) \<and>
     (fg_enabled f \<longleftrightarrow> fst p \<noteq> Idle) \<and> (fg_armed f \<longleftrightarrow> (\<exists>c. fst p = Armed c)) \<and> (fg_running f \<longleftrightarrow> (\<exists>c. fst p = Running c))"
  by (cases p; cases "fst p"; cases "fg_channel f")
    (auto simp: reads_def view_def phase_of_def flags_ok_def)

lemma moves_arm_flag: "moves k (Waiting c, i) (modify_fg k (\<lambda>f. f\<lparr>fg_armed := True\<rparr>)) (Armed c, i)"
  by (rule moves_modify_fg) (simp_all add: reads_iff queue_ok_def)

lemma moves_disarm_flag: "p = Armed c \<or> p = Waiting c \<Longrightarrow> moves k (p, i) (modify_fg k (\<lambda>f. f\<lparr>fg_armed := False\<rparr>)) (Waiting c, i)"
  by (rule moves_modify_fg) (auto simp: reads_iff queue_ok_def)

lemma moves_start_flags:
  "moves k (Armed c, i) (modify_fg k (\<lambda>f. f\<lparr>fg_armed := False, fg_running := True\<rparr>)) (Running c, i)"
  by (rule moves_modify_fg) (simp_all add: reads_iff queue_ok_def)

lemma moves_stop_flag:
  "moves k (Running c, i) (modify_fg k (\<lambda>f. f\<lparr>fg_executed := n, fg_running := False\<rparr>)) (Waiting c, i)"
  by (rule moves_modify_fg) (simp_all add: reads_iff queue_ok_def)

lemma moves_halt_flag: "moves k (Running c, i) (modify_fg k (\<lambda>f. f\<lparr>fg_running := False\<rparr>)) (Waiting c, i)"
  by (rule moves_modify_fg) (simp_all add: reads_iff queue_ok_def)

lemma moves_abort_flag: "moves k p (modify_fg k (\<lambda>f. f\<lparr>fg_abort := b\<rparr>)) p"
  by (rule moves_tweak) (simp_all add: queue_ok_def)

lemma moves_started: "polite_slots env \<Longrightarrow> moves k (Armed c, i) (fg_started env k time) (Running c, i)"
  unfolding fg_started_def by (intro moves_thn [OF moves_start_flags] moves_thn [OF moves_emit] moves_emit)

lemma moves_executed: "moves k p (ReadExecutedParameterCount env k) p"
  unfolding ReadExecutedParameterCount_def
  by (intro moves_deref moves_cases moves_ret) (auto split: option.split intro: moves_raise moves_bnd [OF moves_cycle moves_ret])

lemma moves_stopped: "polite_slots env \<Longrightarrow> moves k (Running c, i) (fg_stopped env k time msi) (Idle, i)"
  unfolding fg_stopped_def Let_def
  by (intro moves_deref stays_thn [OF moves_cases] moves_clear moves_ret moves_bnd [OF moves_executed]
      moves_thn [OF moves_stop_flag] moves_thn [OF moves_emit] stays_thn [OF moves_deref] moves_emit moves_release)

lemma moves_weaken: "moves k p m q \<Longrightarrow> q = r \<Longrightarrow> moves k p m r" by simp

lemma moves_irq:
  assumes q: "polite_slots env"
  shows "moves k (p, i) (fg_irq_handler env k msi) (phase_message msi p, i)"
proof (cases p)
  case Idle
  then show ?thesis unfolding fg_irq_handler_def
    by (auto intro!: moves_deref moves_ret dest: reads_idle simp: phase_message_def)
next
  case (Waiting c)
  note no = moves_ret [of k "(Waiting c, i)" "()"]
  show ?thesis unfolding fg_irq_handler_def Waiting
    by (intro moves_deref moves_cases moves_thn [OF moves_assert] moves_bnd [OF moves_clock [OF q]])
      (auto dest: reads_waiting simp: phase_message_def IRQ_DAT_REFILL_def IRQ_DAT_ARMED_def IRQ_DAT_DISARMED_def
        IRQ_DAT_START_def intro: no moves_thn [OF moves_arm_flag moves_emit [OF q]])
next
  case (Armed c)
  note no = moves_ret [of k "(Armed c, i)" "()"]
  have *: "Armed c = Armed c \<or> Armed c = Waiting c" by simp
  show ?thesis unfolding fg_irq_handler_def Armed
    by (intro moves_deref moves_cases moves_thn [OF moves_assert] moves_bnd [OF moves_clock [OF q]])
      (auto dest: reads_armed simp: phase_message_def IRQ_DAT_REFILL_def IRQ_DAT_ARMED_def IRQ_DAT_DISARMED_def
        IRQ_DAT_START_def intro: no moves_started [OF q]
        moves_thn [OF moves_disarm_flag [OF *] moves_thn [OF moves_emit [OF q] moves_release [OF q]]])
next
  case (Running c)
  note no = moves_ret [of k "(Running c, i)" "()"]
  show ?thesis unfolding fg_irq_handler_def Running
    by (intro moves_deref moves_cases moves_thn [OF moves_assert] moves_bnd [OF moves_clock [OF q]])
      (auto dest: reads_running simp: phase_message_def IRQ_DAT_REFILL_def IRQ_DAT_ARMED_def IRQ_DAT_DISARMED_def
        IRQ_DAT_START_def intro: no moves_refill [OF q] moves_stopped [OF q])
qed

text \<open>The rest of \<open>arm\<close>, once the channel is acquired.\<close>

lemma triple_disable:
  "triple fgs_ok (thn (UseSlot env s v) (raise e)) Q (fgs_ok :: 'z fg_world_scheme \<Rightarrow> bool)"
proof -
  have "triple fgs_ok (UseSlot env s v) (\<lambda>_. fgs_ok) (fgs_ok :: 'z fg_world_scheme \<Rightarrow> bool)"
    by (simp add: triple_def UseSlot_def fg_cycle_def close_cycle_def op_simps fgs_ok_def split: option.split)
  then show ?thesis by (rule triple_thn) (rule triple_raise)
qed

lemma triple_ex: "(\<And>c. triple (P c) m Q E) \<Longrightarrow> triple (\<lambda>w. \<exists>c. P c w) m Q E"
  by (fastforce simp: triple_def split: prod.splits sum.splits)

lemma moves_arm:
  assumes q: "polite_slots env"
  shows "triple (at_phase k (Idle, i)) (arm env k) (\<lambda>_ w. \<exists>c. at_phase k (Waiting c, i) w) fgs_ok"
proof -
  have refill: "triple (at_phase k (Waiting c, i))
      (try_catch (thn (refill env k True) (UseSlot env s v)) (\<lambda>e. thn (UseSlot env s' v') (raise e)))
      (\<lambda>_ w. \<exists>c. at_phase k (Waiting c, i) w) fgs_ok" for c s v s' v'
  proof (rule triple_try [where F = fgs_ok])
    show "triple (at_phase k (Waiting c, i)) (thn (refill env k True) (UseSlot env s v))
        (\<lambda>_ w. \<exists>c. at_phase k (Waiting c, i) w) fgs_ok"
      using moves_thn [OF moves_refill [OF q, of k "(Waiting c, i)" True] moves_UseSlot [of k "(Waiting c, i)" env s v]]
      unfolding moves_def by (rule triple_weaken) auto
  qed (rule triple_disable)
  have after: "triple (\<lambda>w. \<exists>c. at_phase k (Waiting c, i) w)
      (bnd (deref_fg k) (\<lambda>f. try_catch (thn (refill env k True) (UseSlot env (s f) (v f)))
         (\<lambda>e. thn (UseSlot env (s f) (v' f)) (raise e))))
      (\<lambda>_ w. \<exists>c. at_phase k (Waiting c, i) w) fgs_ok" for s v v'
  proof (intro triple_ex triple_bnd [OF _ refill])
    show "triple (at_phase k (Waiting c, i)) (deref_fg k) (\<lambda>_. at_phase k (Waiting c, i)) fgs_ok" for c
      by (simp add: triple_def deref_fg_def at_phase_def)
  qed
  have m: "moves k p m p \<Longrightarrow> triple (at_phase k p) m (\<lambda>_. at_phase k p) fgs_ok" for p :: "phase \<times> u32" and m :: "('a, unit) fg_op"
    by (simp add: moves_def)
  show ?thesis unfolding arm_def Let_def
  proof (rule triple_bnd)
    show "triple (at_phase k (Idle, i)) (deref_fg k) (\<lambda>_. at_phase k (Idle, i)) fgs_ok"
      by (simp add: triple_def deref_fg_def at_phase_def)
  qed (intro triple_thn [OF m] moves_throw_if moves_assert moves_abort_flag triple_thn [OF moves_acquire [OF q]] after)
qed

lemma moves_connect: "moves k p (fg_connect_timeout cb t) p"
  by (simp add: moves_def triple_def fg_connect_timeout_def at_phase_def fgs_ok_def split: list.split prod.split)

lemma moves_Reset:
  "moves k p (fg_Reset env k) p"
  unfolding fg_Reset_def
  by (rule moves_deref)
    (auto split: option.split intro!: moves_ret moves_thn [OF moves_abort_flag] moves_thn [OF moves_UseSlot]
      moves_bnd [OF moves_connect] moves_tweak simp: queue_ok_def)

lemma moves_ResetFailed:
  assumes q: "polite_slots env"
  shows "moves k (p, i) (ResetFailed env k) (Idle, i)"
proof (cases p)
  case Idle
  show ?thesis unfolding ResetFailed_def Idle
    by (rule moves_deref) (auto dest: reads_idle simp: op_simps moves_def triple_def at_phase_def)
next
  case (Waiting c)
  note rest = moves_thn [OF moves_release [OF q] moves_ret]
  have *: "Armed c = Armed c \<or> Armed c = Waiting c" by simp
  show ?thesis unfolding ResetFailed_def Waiting
    by (intro moves_deref moves_thn [OF moves_assert] moves_thn [OF _ rest])
      (auto dest: reads_waiting intro!: moves_thn [OF moves_thn [OF moves_arm_flag moves_emit [OF q]]]
        moves_thn [OF moves_disarm_flag [OF *]] moves_emit [OF q])
next
  case (Armed c)
  note rest = moves_thn [OF moves_release [OF q] moves_ret]
  have *: "Armed c = Armed c \<or> Armed c = Waiting c" by simp
  show ?thesis unfolding ResetFailed_def Armed
    by (intro moves_deref moves_thn [OF moves_assert] moves_thn [OF _ rest])
      (auto dest: reads_armed intro!: moves_thn [OF moves_ret]
        moves_thn [OF moves_disarm_flag [OF *]] moves_emit [OF q])
next
  case (Running c)
  note rest = moves_thn [OF moves_release [OF q] moves_ret]
  show ?thesis unfolding ResetFailed_def Running
    by (intro moves_deref moves_thn [OF moves_assert] moves_thn [OF _ rest])
      (auto dest: reads_running intro!: moves_thn [OF moves_halt_flag] moves_thn [OF moves_emit [OF q]]
        moves_bnd [OF moves_clock [OF q]] moves_emit [OF q])
qed

lemma moves_setStartTag: "moves k p (fg_setStartTag k val) p"
  unfolding fg_setStartTag_def
  by (intro moves_deref moves_thn [OF moves_throw_if] moves_cases moves_ret moves_tweak) (simp_all add: queue_ok_def)

section \<open>Every history\<close>

text \<open>
  What happens to the generators: calls of clients, messages of the microcontroller, the timeout of
  an abort. The state after an exception is the state the exception left.
\<close>

inductive fg_step :: "'z fg_environment \<Rightarrow> 'z fg_world_scheme \<Rightarrow> 'z fg_world_scheme \<Rightarrow> bool" for env where
  step_append: "fg_step env w (snd (appendParameterSet env k ps w))"
| step_flush: "fg_step env w (snd (flush k w))"
| step_arm: "fg_step env w (snd (arm env k w))"
| step_reset: "fg_step env w (snd (fg_Reset env k w))"
| step_tag: "fg_step env w (snd (fg_setStartTag k val w))"
| step_message: "fg_step env w (snd (fg_irq_handler env k msi w))"
| step_timeout: "fg_step env w (snd (ResetFailed env k w))"

lemma triple_step: "triple P m Q fgs_ok \<Longrightarrow> P w \<Longrightarrow> (\<And>x w. Q x w \<Longrightarrow> fgs_ok w) \<Longrightarrow> fgs_ok (snd (m w))"
  by (cases "m w"; cases "fst (m w)") (fastforce simp: triple_def)+

lemma moves_step: "moves k p m q \<Longrightarrow> at_phase k p w \<Longrightarrow> fgs_ok (snd (m w))"
  unfolding moves_def by (erule triple_step) (auto dest: at_phaseD)

lemma dangling: "\<not> k < length (fw_fgs w) \<Longrightarrow> bnd (deref_fg k) g w = (Inl (Undefined ''dangling FunctionGeneratorImpl*''), w)"
  by (simp add: deref_fg_def op_simps)

lemma fg_step_ok:
  assumes q: "polite_slots env" and s: "fg_step env w w'" and ok: "fgs_ok w"
  shows "fgs_ok w'"
proof -
  have at: "k < length (fw_fgs w) \<Longrightarrow> at_phase k (phase_of (fw_fgs w ! k), fg_index (fw_fgs w ! k)) w" for k
    using ok by (simp add: at_phase_def view_def)
  from s show ?thesis
  proof cases
    case (step_append k ps)
    then show ?thesis using moves_step [OF moves_appendParameterSet [OF q] at] ok
      by (cases "k < length (fw_fgs w)")
        (auto simp: appendParameterSet_def appendParameterTuples_def dangling raise_def split: option.split)
  next
    case (step_flush k)
    then show ?thesis using moves_step [OF moves_flush at] ok
      by (cases "k < length (fw_fgs w)") (auto simp: flush_def dangling)
  next
    case (step_arm k)
    show ?thesis
    proof (cases "k < length (fw_fgs w) \<and> phase_of (fw_fgs w ! k) = Idle")
      case True
      then show ?thesis using triple_step [OF moves_arm [OF q], of k _ w] at [of k] step_arm
        by (auto dest: at_phaseD)
    next
      case False
      have "k < length (fw_fgs w) \<Longrightarrow> fg_enabled (fw_fgs w ! k)"
        using at_phase_reads [OF at] False by (simp add: reads_iff)
      then show ?thesis using step_arm ok by (auto simp: arm_def op_simps deref_fg_def)
    qed
  next
    case (step_reset k)
    then show ?thesis using moves_step [OF moves_Reset at] ok
      by (cases "k < length (fw_fgs w)") (auto simp: fg_Reset_def dangling)
  next
    case (step_tag k val)
    then show ?thesis using moves_step [OF moves_setStartTag at] ok
      by (cases "k < length (fw_fgs w)") (auto simp: fg_setStartTag_def dangling)
  next
    case (step_message k msi)
    then show ?thesis using moves_step [OF moves_irq [OF q] at] ok
      by (cases "k < length (fw_fgs w)") (auto simp: fg_irq_handler_def dangling)
  next
    case (step_timeout k)
    then show ?thesis using moves_step [OF moves_ResetFailed [OF q] at] ok
      by (cases "k < length (fw_fgs w)") (auto simp: ResetFailed_def dangling)
  qed
qed

lemma fg_steps_ok: "(fg_step env)\<^sup>*\<^sup>* w w' \<Longrightarrow> polite_slots env \<Longrightarrow> fgs_ok w \<Longrightarrow> fgs_ok w'"
  by (induction rule: rtranclp_induct) (auto intro: fg_step_ok)

end
