(* ===== verification/Function_Generator_Queue.thy ===== *)
theory Function_Generator_Queue
  imports Function_Generator_Facts
begin

text \<open>
  The ring buffer in the shared memory is a window on the queue of a generator: \<open>mirrors\<close> relates
  what was last written to the memory with the front of the queue, and \<open>refill\<close> keeps the relation
  while the window moves.
\<close>

section \<open>What the memory holds\<close>

fun last_write :: "bus_op list \<Rightarrow> u64 \<Rightarrow> u32 option" where
  "last_write [] a = None"
| "last_write (BusWrite b v # ops) a = (case last_write ops a of None \<Rightarrow> if a = b then Some v else None | Some u \<Rightarrow> Some u)"
| "last_write (BusRead b # ops) a = last_write ops a"

lemma last_write_append: "last_write (xs @ ys) a = (case last_write ys a of None \<Rightarrow> last_write xs a | Some v \<Rightarrow> Some v)"
  by (induction xs a rule: last_write.induct) (auto split: option.split)

definition shm_holds :: "bus_op list \<Rightarrow> u64 \<Rightarrow> parameter_tuple \<Rightarrow> bool" where
  "shm_holds log a t \<longleftrightarrow> last_write log (a + PARAM_COEFF_AB) = Some (coeff_ab_word t) \<and>
     last_write log (a + PARAM_COEFF_C) = Some (pt_coeff_c t) \<and>
     last_write log (a + PARAM_CONTROL) = Some (control_word t)"

definition ring :: "fg \<Rightarrow> nat" where
  "ring f = unat (fg_buffer_size f)"

text \<open>\<open>R\<close> is the read position of the microcontroller.\<close>

definition mirrors :: "bus_op list \<Rightarrow> fg \<Rightarrow> nat \<Rightarrow> nat \<Rightarrow> bool" where
  "mirrors log f ch R \<longleftrightarrow> R < ring f \<and> unat (fg_filled f) \<le> length (fg_fifo f) \<and> unat (fg_filled f) < ring f \<and>
     (\<forall>j < unat (fg_filled f). shm_holds log (slot_address f ch (of_nat ((R + j) mod ring f))) (fg_fifo f ! j)) \<and>
     last_write log (fg_regs f ch + FG_WPTR) = Some (of_nat ((R + unat (fg_filled f)) mod ring f))"

text \<open>Registers and buffers of all channels fit in the address arithmetic of 32 bits.\<close>

definition layout_ok :: "fg \<Rightarrow> nat \<Rightarrow> bool" where
  "layout_ok f ch \<longleftrightarrow> ch < unat (fg_num_channels f) \<and> 0 < ring f \<and>
     0x438 + 0x1c * unat (fg_num_channels f) + 12 * (unat (fg_num_channels f) * ring f) < 2 ^ 32"

section \<open>Addresses\<close>

definition buffer_start :: "fg \<Rightarrow> nat \<Rightarrow> nat" where
  "buffer_start f ch = 0x438 + 0x1c * unat (fg_num_channels f) + 12 * (ch * ring f)"

lemma layout_bound:
  assumes "layout_ok f ch" shows "buffer_start f ch + 12 * ring f < 2 ^ 32" "0x438 + 0x1c * ch + 0x1c \<le> buffer_start f ch"
proof -
  have "Suc ch * ring f \<le> unat (fg_num_channels f) * ring f" using assms by (intro mult_le_mono1) (simp add: layout_ok_def)
  then show "buffer_start f ch + 12 * ring f < 2 ^ 32" using assms by (simp add: layout_ok_def buffer_start_def)
  show "0x438 + 0x1c * ch + 0x1c \<le> buffer_start f ch" using assms by (simp add: layout_ok_def buffer_start_def)
qed

lemma slot_address_nat:
  assumes l: "layout_ok f ch" and o: "off < ring f"
  shows "slot_address f ch (of_nat off) = fg_shm f + of_nat (buffer_start f ch + 12 * off)"
proof -
  have "FG_BUFF_BASE (of_nat ch) (of_nat off) (fg_num_channels f) (fg_buffer_size f) = of_nat (buffer_start f ch + 12 * off)"
    by (simp add: FG_BUFF_BASE_def FG_REGS_BASE_def FG_REGS_BASE_ADDR_def FG_REGS_SIZE_def PARAM_SIZE_def
        buffer_start_def ring_def algebra_simps)
  moreover have "buffer_start f ch + 12 * off < 2 ^ 32" using layout_bound(1) [OF l] o by simp
  ultimately show ?thesis by (simp only: slot_address_def ucast_u32_of_nat)
qed

lemma regs_nat:
  assumes l: "layout_ok f ch"
  shows "fg_regs f ch = fg_shm f + of_nat (0x438 + 0x1c * ch)"
proof -
  have "FG_REGS_BASE (of_nat ch) (fg_num_channels f) = of_nat (0x438 + 0x1c * ch)"
    by (simp add: FG_REGS_BASE_def FG_REGS_BASE_ADDR_def FG_REGS_SIZE_def)
  moreover have "0x438 + 0x1c * ch < 2 ^ 32" using layout_bound [OF l] by simp
  ultimately show ?thesis by (simp only: fg_regs_def ucast_u32_of_nat)
qed

lemma of_nat_u64_eq: "m < 2 ^ 32 \<Longrightarrow> n < 2 ^ 32 \<Longrightarrow> (of_nat m :: u64) = of_nat n \<longleftrightarrow> m = n"
  by (simp add: word_of_nat_eq_iff take_bit_nat_eq_self)

section \<open>The positions\<close>

lemma window:
  fixes R F c b :: nat
  assumes "R < b" "F < b" "c \<le> F"
  shows "(if (R + F) mod b < (R + c) mod b then b + (R + F) mod b - (R + c) mod b
          else (R + F) mod b - (R + c) mod b) = F - c"
proof -
  have "(R + F) mod b = (if R + F < b then R + F else R + F - b)" using assms by (simp add: mod_if)
  moreover have "(R + c) mod b = (if R + c < b then R + c else R + c - b)" using assms by (simp add: mod_if)
  ultimately show ?thesis using assms by auto
qed

lemma wrapping_sub_nat:
  assumes "a < unat b" "r < unat b"
  shows "wrapping_sub (of_nat a) (of_nat r) b = of_nat (if a < r then unat b + a - r else a - r)"
proof -
  have b: "unat b < 2 ^ 32" using unsigned_less [of b] by simp
  then have "(of_nat a :: u32) < of_nat r \<longleftrightarrow> a < r"
    using assms by (simp add: word_less_nat_alt unat_u32_of_nat)
  moreover have "of_nat (unat b + a - r) = b + of_nat a - (of_nat r :: u32)" using assms by (simp add: of_nat_diff)
  ultimately show ?thesis by (simp add: wrapping_sub_def of_nat_diff)
qed

lemma wrapping_add_nat:
  assumes "a < unat b" "i \<le> unat b" "12 * unat b < 2 ^ 32"
  shows "wrapping_add (of_nat a) (of_nat i) b = of_nat ((a + i) mod unat b)"
proof -
  have u: "unat ((of_nat a :: u32) + of_nat i) = a + i"
    using assms unat_u32_of_nat [of "a + i"] by simp
  have "(of_nat a + of_nat i :: u32) \<ge> b \<longleftrightarrow> unat b \<le> a + i" by (simp add: word_le_nat_alt u)
  moreover have "unat b \<le> a + i \<Longrightarrow> of_nat a + of_nat i - b = (of_nat (a + i - unat b) :: u32)" by (simp add: of_nat_diff)
  moreover have "(a + i) mod unat b = (if unat b \<le> a + i then a + i - unat b else a + i)"
    using assms by (simp add: mod_if)
  ultimately show ?thesis by (simp add: wrapping_add_def Let_def)
qed


section \<open>Writing tuples\<close>

definition words_at :: "u64 \<Rightarrow> u64 set" where
  "words_at a = {a + PARAM_COEFF_AB, a + PARAM_COEFF_C, a + PARAM_CONTROL}"

lemma last_write_tuple: "x \<notin> words_at a \<Longrightarrow> last_write (tuple_writes a t) x = None"
  by (auto simp: tuple_writes_def words_at_def)

lemma shm_holds_skip:
  "(\<And>x. x \<in> words_at a \<Longrightarrow> last_write ops x = None) \<Longrightarrow> shm_holds (log @ ops) a t = shm_holds log a t"
  by (simp add: shm_holds_def last_write_append words_at_def)

lemma shm_holds_here: "shm_holds (log @ tuple_writes a t) a t"
  by (simp add: shm_holds_def last_write_append tuple_writes_def PARAM_COEFF_AB_def PARAM_COEFF_C_def PARAM_CONTROL_def)

definition tuple_block :: "(nat \<Rightarrow> u64) \<Rightarrow> (nat \<Rightarrow> parameter_tuple) \<Rightarrow> nat \<Rightarrow> bus_op list" where
  "tuple_block A t n = concat (map (\<lambda>i. tuple_writes (A i) (t i)) [0..<n])"

lemma tuple_block_Suc: "tuple_block A t (Suc n) = tuple_block A t n @ tuple_writes (A n) (t n)"
  by (simp add: tuple_block_def)

lemma block_elsewhere: "(\<And>i. i < n \<Longrightarrow> x \<notin> words_at (A i)) \<Longrightarrow> last_write (tuple_block A t n) x = None"
proof (induction n)
  case (Suc n) then show ?case by (simp add: tuple_block_Suc last_write_append last_write_tuple)
qed (simp add: tuple_block_def)

lemma block_holds:
  assumes "j < n" "\<And>i. i < n \<Longrightarrow> i \<noteq> j \<Longrightarrow> words_at (A i) \<inter> words_at (A j) = {}"
  shows "shm_holds (log @ tuple_block A t n) (A j) (t j)"
  using assms
proof (induction n)
  case (Suc n)
  show ?case
  proof (cases "j = n")
    case True
    then show ?thesis using shm_holds_here [of "log @ tuple_block A t n" "A n" "t n"] by (simp add: tuple_block_Suc)
  next
    case False
    with Suc have "shm_holds (log @ tuple_block A t n) (A j) (t j)" "words_at (A n) \<inter> words_at (A j) = {}" by auto
    then show ?thesis unfolding tuple_block_Suc append_assoc [symmetric]
      by (subst shm_holds_skip) (auto intro: last_write_tuple)
  qed
qed simp

section \<open>The slots of the ring\<close>

lemma words_at_slot:
  assumes "layout_ok f ch" "off < ring f"
  shows "words_at (slot_address f ch (of_nat off)) = (\<lambda>d. fg_shm f + of_nat (buffer_start f ch + 12 * off + d)) ` {0, 4, 8}"
  unfolding slot_address_nat [OF assms]
  by (simp add: words_at_def PARAM_COEFF_AB_def PARAM_COEFF_C_def PARAM_CONTROL_def add.assoc)

lemma slots_disjoint:
  assumes l: "layout_ok f ch" and "o1 < ring f" "o2 < ring f" "o1 \<noteq> o2"
  shows "words_at (slot_address f ch (of_nat o1)) \<inter> words_at (slot_address f ch (of_nat o2)) = {}"
proof -
  have ne: "(of_nat (buffer_start f ch + 12 * o1 + d) :: u64) \<noteq> of_nat (buffer_start f ch + 12 * o2 + e)"
    if "d \<in> {0, 4, 8}" "e \<in> {0, 4, 8}" for d e :: nat
  proof (subst of_nat_u64_eq)
    show "buffer_start f ch + 12 * o1 + d < 2 ^ 32" "buffer_start f ch + 12 * o2 + e < 2 ^ 32"
      using layout_bound(1) [OF l] assms(2,3) that by auto
    show "\<not> buffer_start f ch + 12 * o1 + d = buffer_start f ch + 12 * o2 + e" using that assms(4) by auto
  qed
  show ?thesis unfolding words_at_slot [OF l assms(2)] words_at_slot [OF l assms(3)] using ne by fastforce
qed

lemma wptr_outside:
  assumes l: "layout_ok f ch" and "off < ring f"
  shows "fg_regs f ch + FG_WPTR \<notin> words_at (slot_address f ch (of_nat off))"
proof -
  have ne: "(of_nat (0x438 + 0x1c * ch) :: u64) \<noteq> of_nat (buffer_start f ch + 12 * off + d)" if "d \<in> {0, 4, 8}" for d :: nat
  proof (subst of_nat_u64_eq)
    show "0x438 + 0x1c * ch < 2 ^ 32" "buffer_start f ch + 12 * off + d < 2 ^ 32"
      using layout_bound [OF l] assms(2) that by auto
    show "\<not> 0x438 + 0x1c * ch = buffer_start f ch + 12 * off + d" using layout_bound(2) [OF l] by simp
  qed
  show ?thesis unfolding words_at_slot [OF assms] regs_nat [OF l] FG_WPTR_def add_0_right using ne by fastforce
qed

lemma mod_add_inj: "R < b \<Longrightarrow> i < b \<Longrightarrow> j < b \<Longrightarrow> i \<noteq> j \<Longrightarrow> (R + i) mod b \<noteq> (R + j) mod (b :: nat)"
  by (auto simp: mod_if split: if_splits)

text \<open>Filling the free part of the ring keeps what is in the rest, and the write pointer follows.\<close>

lemma upload_mirrors:
  assumes l: "layout_ok f ch" and m: "mirrors log f ch R"
    and n: "unat (fg_filled f) + n \<le> length (fg_fifo f)" "unat (fg_filled f) + n < ring f"
    and W: "W = of_nat ((R + unat (fg_filled f)) mod ring f)"
  shows "mirrors (log @ upload_ops f ch W n) (f\<lparr>fg_filled := fg_filled f + of_nat n\<rparr>) ch R"
proof -
  let ?F = "unat (fg_filled f)" and ?b = "ring f"
  let ?A = "\<lambda>i. slot_address f ch (of_nat ((R + ?F + i) mod ?b))" and ?t = "\<lambda>i. fg_fifo f ! (?F + i)"
  have R: "R < ?b" and b: "0 < ?b" using m by (auto simp: mirrors_def)
  have b12: "12 * ?b < 2 ^ 32" using layout_bound(1) [OF l] by simp
  have add: "wrapping_add W (of_nat i) (fg_buffer_size f) = of_nat ((R + ?F + i) mod ?b)" if "i \<le> n" for i
    unfolding W using wrapping_add_nat [of "(R + ?F) mod ?b" "fg_buffer_size f" i] that n b b12
    by (simp add: ring_def mod_add_left_eq)
  have ops: "upload_ops f ch W n = tuple_block ?A ?t n @ [BusWrite (fg_regs f ch + FG_WPTR) (of_nat ((R + ?F + n) mod ?b))]"
    unfolding upload_ops_def tuple_block_def using add by (auto intro!: arg_cong [where f = concat] map_cong)
  have F': "unat (fg_filled f + of_nat n) = ?F + n"
    using n b12 unat_u32_of_nat [of "?F + n"] by simp
  have inj: "words_at (?A i) \<inter> words_at (slot_address f ch (of_nat ((R + j) mod ?b))) = {}" if "i < n" "j < ?b" "?F + i \<noteq> j" for i j
    using slots_disjoint [OF l, of "(R + (?F + i)) mod ?b" "(R + j) mod ?b"] mod_add_inj [OF R, of "?F + i" j] that n b
    by (simp add: add.assoc)
  have wptr: "last_write [BusWrite (fg_regs f ch + FG_WPTR) v] x = None"
    if "x \<in> words_at (slot_address f ch (of_nat ((R + j) mod ?b)))" for x v j
    using wptr_outside [OF l, of "(R + j) mod ?b"] that b by auto
  have slot: "shm_holds (log @ upload_ops f ch W n) (slot_address f ch (of_nat ((R + j) mod ?b))) (fg_fifo f ! j)"
    if j: "j < ?F + n" for j
  proof (cases "j < ?F")
    case True
    have "shm_holds log (slot_address f ch (of_nat ((R + j) mod ?b))) (fg_fifo f ! j)" using m True by (simp add: mirrors_def)
    moreover have "last_write (upload_ops f ch W n) x = None" if "x \<in> words_at (slot_address f ch (of_nat ((R + j) mod ?b)))" for x
      unfolding ops last_write_append wptr [OF that] option.case using inj [of _ j] True n that
      by (intro block_elsewhere) (auto simp: disjoint_iff)
    ultimately show ?thesis by (simp add: shm_holds_skip)
  next
    case False
    then obtain d where d: "j = ?F + d" "d < n" using j by (metis add_less_cancel_left le_Suc_ex linorder_not_less)
    have "shm_holds (log @ tuple_block ?A ?t n) (?A d) (?t d)"
      using inj [of _ "?F + d"] d n by (intro block_holds) (auto simp: add.assoc)
    then show ?thesis unfolding ops append_assoc [symmetric] d
      using wptr [of _ "?F + d"] by (subst shm_holds_skip) (simp_all add: add.assoc)
  qed
  have "last_write (log @ upload_ops f ch W n) (fg_regs f ch + FG_WPTR) = Some (of_nat ((R + (?F + n)) mod ?b))"
    by (simp add: ops last_write_append add.assoc)
  with slot R n F' show ?thesis
    by (simp add: mirrors_def slot_address_def fg_regs_def ring_def)
qed


section \<open>Moving the window\<close>

definition advance :: "nat \<Rightarrow> fg \<Rightarrow> fg" where
  "advance c f = f\<lparr>fg_fillLevel := fg_fillLevel f - sum_list (map tuple_time (take c (fg_fifo f))),
     fg_filled := fg_filled f - of_nat c, fg_fifo := drop c (fg_fifo f)\<rparr>"

lemma consume_advance:
  "c \<le> length (fg_fifo f) \<Longrightarrow> list_all tuple_ok (fg_fifo f) \<Longrightarrow> consume c f = Inr (advance c f)"
proof (induction c arbitrary: f)
  case (Suc c)
  then obtain t ts where f: "fg_fifo f = t # ts" by (cases "fg_fifo f") auto
  then have "consume c (f\<lparr>fg_fillLevel := fg_fillLevel f - tuple_time t, fg_filled := fg_filled f - 1, fg_fifo := ts\<rparr>) =
      Inr (advance c (f\<lparr>fg_fillLevel := fg_fillLevel f - tuple_time t, fg_filled := fg_filled f - 1, fg_fifo := ts\<rparr>))"
    using Suc by (intro Suc.IH) auto
  with f Suc.prems show ?case by (simp add: duration_ok advance_def algebra_simps)
qed (simp add: advance_def)

lemma advance_fields [simp]:
  "fg_channel (advance c f) = fg_channel f" "fg_buffer_size (advance c f) = fg_buffer_size f"
  "fg_num_channels (advance c f) = fg_num_channels f" "fg_shm (advance c f) = fg_shm f"
  "fg_filled (advance c f) = fg_filled f - of_nat c" "fg_fifo (advance c f) = drop c (fg_fifo f)"
  "ring (advance c f) = ring f" "layout_ok (advance c f) = layout_ok f"
  by (simp_all add: advance_def ring_def layout_ok_def fun_eq_iff)

lemma unat_filled_advance: "c \<le> unat (fg_filled f) \<Longrightarrow> unat (fg_filled f - of_nat c) = unat (fg_filled f) - c"
proof -
  assume c: "c \<le> unat (fg_filled f)"
  moreover have "unat (fg_filled f) < 2 ^ 32" using unsigned_less [of "fg_filled f"] by simp
  ultimately have "c < 2 ^ 32" by simp
  then have "unat (of_nat c :: u32) = c" by (rule unat_u32_of_nat)
  with c show "unat (fg_filled f - of_nat c) = unat (fg_filled f) - c" by (simp add: unat_sub word_le_nat_alt)
qed

lemma mirrors_advance:
  assumes m: "mirrors log f ch R" and c: "c \<le> unat (fg_filled f)"
  shows "mirrors log (advance c f) ch ((R + c) mod ring f)"
proof -
  have s: "slot_address (advance c f) = slot_address f" "fg_regs (advance c f) = fg_regs f"
    by (simp_all add: slot_address_def fg_regs_def fun_eq_iff)
  have eq: "((R + c) mod ring f + j) mod ring f = (R + (c + j)) mod ring f" for j by (simp add: mod_add_left_eq add.assoc)
  have "shm_holds log (slot_address f ch (of_nat ((R + (c + j)) mod ring f))) (drop c (fg_fifo f) ! j)"
    if "j < unat (fg_filled f) - c" for j
    using m that c by (auto simp: mirrors_def)
  moreover have "((R + c) mod ring f + (unat (fg_filled f) - c)) mod ring f = (R + unat (fg_filled f)) mod ring f"
    unfolding eq using c by simp
  ultimately show ?thesis using m c by (auto simp: mirrors_def s eq unat_filled_advance [OF c])
qed

abbreviation good_bus :: "'z fg_environment \<Rightarrow> bool" where
  "good_bus env \<equiv> hw_failure (fe_hw env) = (\<lambda>_ _. None)"

definition silent_slots :: "'z fg_environment \<Rightarrow> bool" where
  "silent_slots env \<longleftrightarrow> (\<forall>k ev w. \<exists>w'. fe_notify env k ev w = (Inr (), w') \<and>
     fw_fgs w' = fw_fgs w \<and> fw_log w' = fw_log w \<and> fw_alloc w' = fw_alloc w)"

lemma silent_emit:
  "silent_slots env \<Longrightarrow> \<exists>w'. fg_emit env k ev w = (Inr (), w') \<and> fw_fgs w' = fw_fgs w \<and> fw_log w' = fw_log w \<and>
     fw_alloc w' = fw_alloc w"
proof -
  assume q: "silent_slots env"
  let ?w = "w\<lparr>fw_events := fw_events w @ [(k, ev)]\<rparr>"
  obtain w' where "fe_notify env k ev ?w = (Inr (), w')" "fw_fgs w' = fw_fgs ?w" "fw_log w' = fw_log ?w"
    "fw_alloc w' = fw_alloc ?w"
    using q unfolding silent_slots_def by blast
  then show ?thesis by (simp add: fg_emit_def op_simps)
qed

lemma refill_count_nat:
  assumes F: "unat (fg_filled f) \<le> length (fg_fifo f)" "unat (fg_filled f) < ring f" and L: "length (fg_fifo f) < 2 ^ 32"
  shows "refill_count f = of_nat (min (length (fg_fifo f) - unat (fg_filled f)) (ring f - 1 - unat (fg_filled f)))"
proof -
  have "of_nat (length (fg_fifo f)) - fg_filled f = of_nat (length (fg_fifo f) - unat (fg_filled f))"
    using F by (simp add: of_nat_diff)
  moreover have "fg_buffer_size f - 1 - fg_filled f = of_nat (ring f - 1 - unat (fg_filled f))"
    using F by (simp add: of_nat_diff ring_def)
  moreover have "ring f < 2 ^ 32" using unsigned_less [of "fg_buffer_size f"] by (simp add: ring_def)
  ultimately show ?thesis using L
    by (simp add: refill_count_def min_def word_le_nat_alt unat_u32_of_nat)
qed

text \<open>The window after the refill covers as much of the queue as fits.\<close>

definition refilled :: "nat \<Rightarrow> fg \<Rightarrow> fg" where
  "refilled c f = (advance c f)\<lparr>fg_filled := of_nat (min (length (fg_fifo f) - c) (ring f - 1))\<rparr>"

lemma upload_window:
  assumes hw: "good_bus env" and k: "k < length (fw_fgs w)" and f: "fw_fgs w ! k = f" and l: "layout_ok f ch"
    and m: "mirrors (fw_log w) f ch R" and L: "length (fg_fifo f) < 2 ^ 32"
    and W: "W = of_nat ((R + unat (fg_filled f)) mod ring f)"
  shows "\<exists>w'. upload env k ch W w = (Inr (), w') \<and> fw_fgs w' = (fw_fgs w)[k := refilled 0 f] \<and>
    mirrors (fw_log w') (refilled 0 f) ch R \<and> fw_alloc w' = fw_alloc w"
proof -
  let ?F = "unat (fg_filled f)"
  define n where "n = min (length (fg_fifo f) - ?F) (ring f - 1 - ?F)"
  have F: "?F \<le> length (fg_fifo f)" "?F < ring f" using m by (simp_all add: mirrors_def)
  have c: "refill_count f = of_nat n" unfolding n_def by (rule refill_count_nat [OF F L])
  have n: "?F + n \<le> length (fg_fifo f)" "?F + n < ring f" "?F + n = min (length (fg_fifo f)) (ring f - 1)"
    using F by (auto simp: n_def)
  have un: "unat (of_nat n :: u32) = n" using n(1) L by (simp add: unat_u32_of_nat)
  have "(of_nat (min (length (fg_fifo f)) (ring f - 1)) :: u32) = fg_filled f + of_nat n"
    unfolding n(3) [symmetric] by simp
  then have f': "f\<lparr>fg_filled := fg_filled f + of_nat n\<rparr> = refilled 0 f"
    by (simp add: refilled_def advance_def)
  have "upload env k ch W w =
      (Inr (), w\<lparr>fw_log := fw_log w @ upload_ops f ch W n, fw_fgs := (fw_fgs w)[k := refilled 0 f]\<rparr>)"
    using k n(1) by (simp add: upload_def op_simps deref_fg_def f c un fg_cycle_def close_cycle_def hw modify_fg_def f')
  moreover have "mirrors (fw_log w @ upload_ops f ch W n) (refilled 0 f) ch R"
    using upload_mirrors [OF l m n(1,2) W] by (simp add: f')
  ultimately show ?thesis by simp
qed


lemma refilled_advance: "c \<le> length (fg_fifo f) \<Longrightarrow> refilled 0 (advance c f) = refilled c f"
  by (simp add: refilled_def) (simp add: advance_def)

lemma deref_here: "k < length (fw_fgs w) \<Longrightarrow> bnd (deref_fg k) g w = g (fw_fgs w ! k) w"
  by (simp add: bnd_def deref_fg_def)

lemma refill_window:
  assumes hw: "good_bus env" and q: "silent_slots env"
    and k: "k < length (fw_fgs w)" and f: "fw_fgs w ! k = f" and ch: "fg_channel f = Some ch"
    and l: "layout_ok f ch" and t: "list_all tuple_ok (fg_fifo f)" and L: "length (fg_fifo f) < 2 ^ 32"
    and c: "c \<le> unat (fg_filled f)"
    and offs: "read_offsets env (fg_regs f ch) first w =
      (Inr (of_nat ((R + unat (fg_filled f)) mod ring f), of_nat ((R + c) mod ring f)), w1)"
    and w1: "fw_fgs w1 = fw_fgs w" and m: "mirrors (fw_log w1) f ch R"
  shows "\<exists>w'. refill env k first w = (Inr (), w') \<and> fw_fgs w' = (fw_fgs w)[k := refilled c f] \<and>
    mirrors (fw_log w') (refilled c f) ch ((R + c) mod ring f) \<and> fw_alloc w' = fw_alloc w1"
proof -
  let ?F = "unat (fg_filled f)" and ?b = "ring f"
  let ?W = "(R + ?F) mod ?b" and ?R = "(R + c) mod ?b"
  have F: "?F \<le> length (fg_fifo f)" "?F < ?b" and R: "R < ?b" using m by (simp_all add: mirrors_def)
  have b: "?b < 2 ^ 32" using layout_bound(1) [OF l] by simp
  have b0: "fg_buffer_size f \<noteq> 0" using F by (auto simp: ring_def)
  have md: "(of_nat x :: u32) mod fg_buffer_size f = of_nat x" if "x < ?b" for x
    using that b by (simp add: word_arith_nat_mod unat_u32_of_nat ring_def [symmetric])
  have rem: "wrapping_sub (of_nat ?W) (of_nat ?R) (fg_buffer_size f) = of_nat (?F - c)"
    unfolding window [OF R F(2) c, symmetric]
    by (rule wrapping_sub_nat [where b = "fg_buffer_size f", folded ring_def]) (use F(2) in simp_all)
  have rem': "of_nat (?F - c) = fg_filled f - of_nat c" using c by (simp add: of_nat_diff)
  have comp: "unat (fg_filled f - of_nat (?F - c)) = c"
    using unat_filled_advance [of "?F - c" f] c by simp
  let ?g = "advance c f"
  have con: "consume (unat (fg_filled f - (fg_filled f - of_nat c))) f = Inr ?g"
    unfolding comp [unfolded rem'] by (rule consume_advance) (use c F t in simp_all)
  have mds: "(of_nat ?W :: u32) mod fg_buffer_size f = of_nat ?W" "(of_nat ?R :: u32) mod fg_buffer_size f = of_nat ?R"
    using F(2) by (simp_all add: md)
  define w2 where "w2 = w1\<lparr>fw_fgs := (fw_fgs w1)[k := ?g]\<rparr>"
  obtain w3 where w3: "(if lowFill ?g \<and> \<not> lowFill f then fg_emit env k FgRefill else ret ()) w2 = (Inr (), w3)"
    "fw_fgs w3 = fw_fgs w2" "fw_log w3 = fw_log w2" "fw_alloc w3 = fw_alloc w2"
    using silent_emit [OF q, of k FgRefill w2] by (cases "lowFill ?g \<and> \<not> lowFill f") (auto simp: ret_def)
  have k3: "k < length (fw_fgs w3)" "fw_fgs w3 ! k = ?g" using k w1 w3 by (simp_all add: w2_def)
  have m3: "mirrors (fw_log w3) ?g ch ?R" using mirrors_advance [OF m c] w3(3) by (simp add: w2_def)
  have W: "(of_nat ?W :: u32) = of_nat ((?R + unat (fg_filled ?g)) mod ring ?g)"
  proof -
    have "R + c + (?F - c) = R + ?F" using c by simp
    then have "(?R + (?F - c)) mod ?b = ?W" using mod_add_left_eq [of "R + c" ?b "?F - c"] by simp
    then show ?thesis by (simp only: advance_fields unat_filled_advance [OF c])
  qed
  obtain w' where w': "upload env k ch (of_nat ?W) w3 = (Inr (), w')" "fw_fgs w' = (fw_fgs w3)[k := refilled 0 ?g]"
    "mirrors (fw_log w') (refilled 0 ?g) ch ?R" "fw_alloc w' = fw_alloc w3"
  proof -
    have "length (fg_fifo ?g) < 2 ^ 32" "layout_ok ?g ch" using L l by (simp_all add: less_imp_diff_less)
    then show thesis using upload_window [OF hw k3(1,2) _ m3 _ W] that by blast
  qed
  have "refill env k first w = (thn (modify_fg k (\<lambda>_. ?g))
      (thn (if lowFill ?g \<and> \<not> lowFill f then fg_emit env k FgRefill else ret ())
      (bnd (deref_fg k) (\<lambda>f. thn (assert_that (fg_filled f = fg_filled ?g) ''filled == remaining'')
        (upload env k ch (of_nat ?W)))))) w1"
    unfolding refill_def deref_here [OF k] f ch option.case 
      bnd_Inr [where m = "read_offsets env (fg_regs f ch) first", OF offs] prod.case if_not_P [OF b0]
      Let_def mds rem rem' con sum.case by simp
  also have "\<dots> = upload env k ch (of_nat ?W) w3"
  proof -
    have put: "modify_fg k (\<lambda>_. ?g) w1 = (Inr (), w2)" using k w1 by (simp add: modify_fg_def deref_fg_def op_simps w2_def)
    show ?thesis
      unfolding thn_def bnd_Inr [where m = "modify_fg k (\<lambda>_. ?g)", OF put] 
        bnd_Inr [where m = "if lowFill ?g \<and> \<not> lowFill f then fg_emit env k FgRefill else ret ()", OF w3(1)] deref_here [OF k3(1)] k3(2)
      by (simp add: assert_that_def bnd_def ret_def)
  qed
  finally show ?thesis using w' c F w3(2,4) w1 by (auto simp: refilled_advance w2_def)
qed

text \<open>The microcontroller answers what was written to the write pointer, and where it reads.\<close>

definition honest_offsets :: "'z fg_environment \<Rightarrow> bus_op list \<Rightarrow> fg \<Rightarrow> nat \<Rightarrow> nat \<Rightarrow> bool" where
  "honest_offsets env log f ch R' \<longleftrightarrow>
     Some (hw_answer (fe_hw env) log (fg_regs f ch + FG_WPTR)) = last_write log (fg_regs f ch + FG_WPTR) \<and>
     hw_answer (fe_hw env) (log @ [BusRead (fg_regs f ch + FG_WPTR)]) (fg_regs f ch + FG_RPTR) = of_nat R'"

lemma last_write_reads: "last_write (log @ [BusRead a, BusRead b]) = last_write log"
  by (simp add: fun_eq_iff last_write_append)

lemma mirrors_reads: "mirrors (log @ [BusRead a, BusRead b]) = mirrors log"
  by (simp add: fun_eq_iff mirrors_def shm_holds_def last_write_reads)

lemma refill_again:
  assumes hw: "good_bus env" and q: "silent_slots env"
    and k: "k < length (fw_fgs w)" and f: "fw_fgs w ! k = f" and ch: "fg_channel f = Some ch"
    and l: "layout_ok f ch" and t: "list_all tuple_ok (fg_fifo f)" and L: "length (fg_fifo f) < 2 ^ 32"
    and c: "c \<le> unat (fg_filled f)" and m: "mirrors (fw_log w) f ch R"
    and h: "honest_offsets env (fw_log w) f ch ((R + c) mod ring f)"
  shows "\<exists>w'. refill env k False w = (Inr (), w') \<and> fw_fgs w' = (fw_fgs w)[k := refilled c f] \<and>
    mirrors (fw_log w') (refilled c f) ch ((R + c) mod ring f) \<and> fw_alloc w' = fw_alloc w"
proof -
  let ?ops = "[BusRead (fg_regs f ch + FG_WPTR), BusRead (fg_regs f ch + FG_RPTR)]"
  have "hw_answer (fe_hw env) (fw_log w) (fg_regs f ch + FG_WPTR) = of_nat ((R + unat (fg_filled f)) mod ring f)"
    using m h by (simp add: mirrors_def honest_offsets_def)
  then have offs: "read_offsets env (fg_regs f ch) False w =
      (Inr (of_nat ((R + unat (fg_filled f)) mod ring f), of_nat ((R + c) mod ring f)), w\<lparr>fw_log := fw_log w @ ?ops\<rparr>)"
    using h by (simp add: read_offsets_def op_simps fg_cycle_def close_cycle_def hw honest_offsets_def del: of_nat_mod)
  have "mirrors (fw_log (w\<lparr>fw_log := fw_log w @ ?ops\<rparr>)) f ch R" using m by (simp add: mirrors_reads)
  from refill_window [OF hw q k f ch l t L c offs _ this] show ?thesis by simp
qed


section \<open>Arming\<close>

lemma acquired_mirrors:
  assumes l: "layout_ok f ch" and z: "fg_filled f = 0"
  shows "mirrors (log @ [BusWrite (fg_regs f ch + FG_WPTR) 0, BusWrite (fg_regs f ch + FG_RPTR) a,
    BusWrite (fg_regs f ch + FG_MBX_SLOT) b, BusWrite (fg_regs f ch + FG_MACRO_NUM) c,
    BusWrite (fg_regs f ch + FG_RAMP_COUNT) d, BusWrite (fg_regs f ch + FG_TAG) e]) f ch 0"
  using l z by (simp add: mirrors_def layout_ok_def last_write_append FG_WPTR_def FG_RPTR_def FG_MBX_SLOT_def
      FG_MACRO_NUM_def FG_RAMP_COUNT_def FG_TAG_def)

text \<open>The generator as \<open>arm\<close> leaves it.\<close>

definition armed_on :: "nat \<Rightarrow> fg \<Rightarrow> fg" where
  "armed_on c f = refilled 0 (f\<lparr>fg_abort := False, fg_channel := Some c, fg_enabled := True\<rparr>)"

lemma acquire_eq:
  assumes hw: "good_bus env" and q: "silent_slots env"
    and k: "k < length (fw_fgs w)" and f: "fw_fgs w ! k = f" and idle: "fg_channel f = None"
    and c: "first_free_channel (fw_alloc w) = c" "c < length (fw_alloc w)" and s: "fg_host_slot f = Some slot"
    and l: "layout_ok f c" and z: "fg_filled f = 0"
  shows "\<exists>w'. acquireChannel env k w = (Inr (), w') \<and> fw_alloc w' = (fw_alloc w)[c := sint (fg_index f)] \<and>
    fw_fgs w' = (fw_fgs w)[k := f\<lparr>fg_channel := Some c, fg_enabled := True\<rparr>] \<and> mirrors (fw_log w') f c 0"
proof -
  let ?ops = "[BusWrite (fg_regs f c + FG_WPTR) 0, BusWrite (fg_regs f c + FG_RPTR) 0,
    BusWrite (fg_regs f c + FG_MBX_SLOT) slot, BusWrite (fg_regs f c + FG_MACRO_NUM) (fg_index f),
    BusWrite (fg_regs f c + FG_RAMP_COUNT) 0, BusWrite (fg_regs f c + FG_TAG) (fg_startTag f)]"
  let ?w = "w\<lparr>fw_log := fw_log w @ ?ops, fw_alloc := (fw_alloc w)[c := sint (fg_index f)],
    fw_fgs := (fw_fgs w)[k := f\<lparr>fg_channel := Some c, fg_enabled := True\<rparr>]\<rparr>"
  have "acquireChannel env k w = fg_emit env k (FgEnabled True) ?w"
    using k f idle c s by (simp add: acquireChannel_def op_simps deref_fg_def fg_cycle_def close_cycle_def hw modify_fg_def Let_def)
  moreover obtain w' where "fg_emit env k (FgEnabled True) ?w = (Inr (), w')" "fw_fgs w' = fw_fgs ?w"
    "fw_log w' = fw_log ?w" "fw_alloc w' = fw_alloc ?w" using silent_emit [OF q] by blast
  ultimately show ?thesis using acquired_mirrors [OF l z] by auto
qed

lemma mirrors_same:
  "fg_filled g = fg_filled f \<Longrightarrow> fg_fifo g = fg_fifo f \<Longrightarrow> fg_shm g = fg_shm f \<Longrightarrow> fg_num_channels g = fg_num_channels f \<Longrightarrow>
   fg_buffer_size g = fg_buffer_size f \<Longrightarrow> mirrors log g ch R = mirrors log f ch R"
  by (simp add: mirrors_def ring_def slot_address_def fg_regs_def)

lemma arm_eq:
  assumes hw: "good_bus env" and q: "silent_slots env"
    and k: "k < length (fw_fgs w)" and f: "fw_fgs w ! k = f"
    and idle: "fg_channel f = None" "\<not> fg_enabled f" "\<not> fg_armed f" "\<not> fg_running f" "fg_filled f = 0"
    and fill: "fg_fillLevel f \<noteq> 0" and s: "fg_host_slot f = Some slot"
    and c: "first_free_channel (fw_alloc w) = c" "c < length (fw_alloc w)" and l: "layout_ok f c"
    and t: "list_all tuple_ok (fg_fifo f)" and L: "length (fg_fifo f) < 2 ^ 32"
  shows "\<exists>w'. arm env k w = (Inr (), w') \<and> fw_alloc w' = (fw_alloc w)[c := sint (fg_index f)] \<and>
    fw_fgs w' = (fw_fgs w)[k := armed_on c f] \<and> mirrors (butlast (fw_log w')) (armed_on c f) c 0 \<and>
    last (fw_log w') = BusWrite (fe_mailbox env + ucast (fg_mb_slot f) * 4 * 2) (swi SWI_ENABLE c)"
proof -
  let ?f1 = "f\<lparr>fg_abort := False\<rparr>" and ?f2 = "f\<lparr>fg_abort := False, fg_channel := Some c, fg_enabled := True\<rparr>"
  let ?w1 = "w\<lparr>fw_fgs := (fw_fgs w)[k := ?f1]\<rparr>"
  have l1: "layout_ok ?f1 c" "layout_ok ?f2 c" using l by (simp_all add: layout_ok_def ring_def)
  obtain w2 where w2: "acquireChannel env k ?w1 = (Inr (), w2)" "fw_alloc w2 = (fw_alloc w)[c := sint (fg_index f)]"
    "fw_fgs w2 = (fw_fgs w)[k := ?f2]" "mirrors (fw_log w2) ?f1 c 0"
    using acquire_eq [OF hw q, of k ?w1 ?f1 c slot] k f idle c s l1 by auto
  have k2: "k < length (fw_fgs w2)" "fw_fgs w2 ! k = ?f2" using k w2(3) by simp_all
  have m2: "mirrors (fw_log w2) ?f2 c 0" using w2(4) mirrors_same [of ?f2 ?f1] by simp
  have offs: "read_offsets env (fg_regs ?f2 c) True w2 =
      (Inr (of_nat ((0 + unat (fg_filled ?f2)) mod ring ?f2), of_nat ((0 + 0) mod ring ?f2)), w2)"
    using idle(5) by (simp add: read_offsets_def ret_def)
  obtain w3 where w3: "refill env k True w2 = (Inr (), w3)" "fw_fgs w3 = (fw_fgs w2)[k := refilled 0 ?f2]"
    "mirrors (fw_log w3) (refilled 0 ?f2) c 0" "fw_alloc w3 = fw_alloc w2"
    using refill_window [OF hw q k2 _ l1(2) _ _ _ offs refl m2] t L by auto
  let ?mb = "BusWrite (fe_mailbox env + ucast (fg_mb_slot f) * 4 * 2) (swi SWI_ENABLE c)"
  let ?w4 = "w3\<lparr>fw_log := fw_log w3 @ [?mb]\<rparr>"
  have u: "UseSlot env (fg_mb_slot f) (swi SWI_ENABLE c) w3 = (Inr (), ?w4)"
    by (simp add: UseSlot_def fg_cycle_def close_cycle_def hw op_simps)
  let ?body = "bnd (deref_fg k) (\<lambda>f. let ch = (case fg_channel f of Some c \<Rightarrow> c | None \<Rightarrow> 0) in
     try_catch (thn (refill env k True) (UseSlot env (fg_mb_slot f) (swi SWI_ENABLE ch)))
       (\<lambda>e. thn (UseSlot env (fg_mb_slot f) (swi SWI_DISABLE ch)) (raise e)))"
  have "arm env k w = thn (acquireChannel env k) ?body ?w1"
  proof -
    have put: "bnd (modify_fg k (\<lambda>f. f\<lparr>fg_abort := False\<rparr>)) g w = g () ?w1" for g :: "unit \<Rightarrow> ('a, unit) fg_op"
      using k f by (simp add: modify_fg_def deref_fg_def op_simps)
    have r: "bnd (ret x) g = g x" for x and g :: "unit \<Rightarrow> ('a, unit) fg_op" by (simp add: op_simps)
    show ?thesis
      unfolding arm_def deref_here [OF k] f throw_if_def assert_that_def thn_def
      using idle fill by (simp add: r put)
  qed
  also have "\<dots> = ?body w2" by (simp add: thn_def bnd_def [of "acquireChannel env k"] w2(1))
  also have "\<dots> = (Inr (), ?w4)"
    unfolding deref_here [OF k2(1)] k2(2) by (simp add: try_catch_def thn_def bnd_def [of "refill env k True"] w3(1) u)
  finally show ?thesis using w2 w3 by (simp add: armed_on_def)
qed

end
