(* ===== verification/Function_Generator_Properties.thy ===== *)
theory Function_Generator_Properties
  imports Function_Generator_Queue
begin

text \<open>The properties of the function generators, with concrete instances.\<close>

section \<open>The timeout of an abort\<close>

text \<open>What holds of the timeout handle of every generator.\<close>

definition handles :: "(nat \<Rightarrow> source_handle \<Rightarrow> bool) \<Rightarrow> 'z fg_world_scheme \<Rightarrow> bool" where
  "handles R w \<longleftrightarrow> (\<forall>j < length (fw_fgs w). R j (fg_resetTimeout (fw_fgs w ! j)))"






























lemma length_step_aux: "handles (\<lambda>_ _. True) w" by (simp add: handles_def)


section \<open>Instances\<close>

text \<open>
  A memory that answers what was written, except for the read pointer of channel 0, which is \<open>r\<close>;
  slots that do nothing; one generator of two and a queue of six tuples.
\<close>

definition fg_memory :: "u32 \<Rightarrow> hardware" where
  "fg_memory r = \<lparr>hw_answer = (\<lambda>log a. if a = 0x2500 + 0x438 + FG_RPTR then r
     else case last_write log a of None \<Rightarrow> 0 | Some v \<Rightarrow> v), hw_failure = (\<lambda>_ _. None)\<rparr>"

definition example_env :: "u32 \<Rightarrow> unit fg_environment" where
  "example_env r = \<lparr>fe_hw = fg_memory r, fe_mailbox = 0x1000, fe_clock = ret 7, fe_notify = (\<lambda>_ _. ret ())\<rparr>"

definition example_tuple :: "u16 \<Rightarrow> parameter_tuple" where
  "example_tuple a = \<lparr>pt_coeff_a = a, pt_coeff_b = 2, pt_coeff_c = 3, pt_step = 1, pt_freq = 7, pt_shift_a = 4, pt_shift_b = 5\<rparr>"

definition example_fg :: "u32 \<Rightarrow> fg" where
  "example_fg i = (new_fg 0x2000 5 2 4 i 0x01020304 (Some 6) 16)
     \<lparr>fg_fifo := map example_tuple [1, 2, 3, 4, 5, 6], fg_fillLevel := 1500000\<rparr>"

definition example_fgs :: fg_world where
  "example_fgs = \<lparr>bs_objects = [], bs_lookup = [], bs_removed = [], bs_next_id = 1, bs_plugins = [],
     bs_info = [], bs_calling = - 1, bs_clients = [], fw_log = [], fw_loop = new_loop 3 1 1, fw_time = 0,
     fw_rand = [3, 4, 5], fw_alloc = [- 1, - 1], fw_fgs = [example_fg 3, example_fg 4], fw_events = []\<rparr>"


lemma example_silent: "silent_slots (example_env r)"
  by (simp add: silent_slots_def example_env_def ret_def)


lemma example_good_bus: "good_bus (example_env r)"
  by (simp add: example_env_def fg_memory_def)

lemma example_fgs_ok: "fgs_ok example_fgs"
proof -
  have "list_all flags_ok (fw_fgs example_fgs)" "list_all queue_ok (fw_fgs example_fgs)" by code_simp+
  moreover have "alloc_ok [- 1, - 1] [(None, 3), (None, 4)]"
    by (auto simp: alloc_ok_def less_Suc_eq)
  moreover have "fw_alloc example_fgs = [- 1, - 1]" "map holder (fw_fgs example_fgs) = [(None, 3), (None, 4)]"
    by code_simp+
  ultimately show ?thesis by (simp add: fgs_ok_def)
qed

section \<open>Properties\<close>



text \<open>
  C8. When the microcontroller has consumed \<open>c\<close> tuples of a ring buffer that mirrors the
  front of the queue, a refill drops exactly these \<open>c\<close> tuples from the queue, uploads
  the following ones behind the rest, and the ring buffer again mirrors the front of the new queue
  from the new read offset on; no tuple is lost, repeated or overwritten, and the other channels
  are untouched.
\<close>

theorem refill_moves_the_window:
  assumes "good_bus env" "silent_slots env" "k < length (fw_fgs w)" "fw_fgs w ! k = f" "fg_channel f = Some ch"
    and "layout_ok f ch" "list_all tuple_ok (fg_fifo f)" "length (fg_fifo f) < 2 ^ 32"
    and "c \<le> unat (fg_filled f)" "mirrors (fw_log w) f ch R"
    and "honest_offsets env (fw_log w) f ch ((R + c) mod ring f)"
  shows "\<exists>w'. refill env k False w = (Inr (), w') \<and> fw_fgs w' = (fw_fgs w)[k := refilled c f] \<and>
    mirrors (fw_log w') (refilled c f) ch ((R + c) mod ring f) \<and> fw_alloc w' = fw_alloc w"
  by (rule refill_again [OF assms])

text \<open>The memory after the generator was armed; the microcontroller finishes the first tuple.\<close>

definition example_armed :: fg_world where
  "example_armed = snd (arm (example_env 1) 0 example_fgs)"

lemma example_layout: "unat (fg_num_channels f) = 2 \<Longrightarrow> ring f = 4 \<Longrightarrow> layout_ok f 0"
  by (simp add: layout_ok_def)

lemma example_armed_fg: "0 < length (fw_fgs example_armed)" "fg_channel (fw_fgs example_armed ! 0) = Some 0"
  "layout_ok (fw_fgs example_armed ! 0) 0" "list_all tuple_ok (fg_fifo (fw_fgs example_armed ! 0))"
  "length (fg_fifo (fw_fgs example_armed ! 0)) < 2 ^ 32" "1 \<le> unat (fg_filled (fw_fgs example_armed ! 0))"
  "mirrors (fw_log example_armed) (fw_fgs example_armed ! 0) 0 0"
  "honest_offsets (example_env 1) (fw_log example_armed) (fw_fgs example_armed ! 0) 0 ((0 + 1) mod ring (fw_fgs example_armed ! 0))"
proof -
  show "layout_ok (fw_fgs example_armed ! 0) 0" by (rule example_layout) code_simp+
  have "length (fg_fifo (fw_fgs example_armed ! 0)) = 6" by code_simp
  then show "length (fg_fifo (fw_fgs example_armed ! 0)) < 2 ^ 32" by simp
qed code_simp+

theorem refill_moves_the_window_witness:
  "\<exists>w'. refill (example_env 1) 0 False example_armed = (Inr (), w') \<and>
     fw_fgs w' = (fw_fgs example_armed)[0 := refilled 1 (fw_fgs example_armed ! 0)] \<and>
     mirrors (fw_log w') (refilled 1 (fw_fgs example_armed ! 0)) 0 ((0 + 1) mod ring (fw_fgs example_armed ! 0)) \<and>
     fw_alloc w' = fw_alloc example_armed"
  by (rule refill_moves_the_window [OF example_good_bus example_silent example_armed_fg(1) refl example_armed_fg(2-8)])

text \<open>
  C9. Arming an idle channel with data takes the first free channel of the microcontroller, enters the
  index of the generator into the shared allocation, uploads the front of the queue so that the
  ring buffer mirrors it from offset 0, and only then, as the last bus operation, asks the
  microcontroller to enable the channel.
\<close>

theorem arm_uploads_then_enables:
  assumes "good_bus env" "silent_slots env" "fgs_ok w" "k < length (fw_fgs w)"
    and "phase_of (fw_fgs w ! k) = Idle" "fg_filled (fw_fgs w ! k) = 0" "fg_fillLevel (fw_fgs w ! k) \<noteq> 0"
    and "fg_host_slot (fw_fgs w ! k) = Some slot"
    and "first_free_channel (fw_alloc w) = c" "c < length (fw_alloc w)" "layout_ok (fw_fgs w ! k) c"
    and "length (fg_fifo (fw_fgs w ! k)) < 2 ^ 32"
  shows "\<exists>w'. arm env k w = (Inr (), w') \<and>
    fw_alloc w' = (fw_alloc w)[c := sint (fg_index (fw_fgs w ! k))] \<and>
    fw_fgs w' = (fw_fgs w)[k := armed_on c (fw_fgs w ! k)] \<and>
    mirrors (butlast (fw_log w')) (armed_on c (fw_fgs w ! k)) c 0 \<and>
    last (fw_log w') = BusWrite (fe_mailbox env + ucast (fg_mb_slot (fw_fgs w ! k)) * 4 * 2) (swi SWI_ENABLE c)"
proof -
  have r: "reads (Idle, fg_index (fw_fgs w ! k)) (fw_fgs w ! k)"
    using at_phase_reads [of k "(Idle, fg_index (fw_fgs w ! k))" w] assms(3,4,5) by (simp add: at_phase_def view_def)
  then have t: "list_all tuple_ok (fg_fifo (fw_fgs w ! k))" by (simp add: reads_def queue_ok_def)
  show ?thesis
    using reads_idle [OF r] by (intro arm_eq [OF assms(1,2,4) refl _ _ _ _ assms(6-11) t assms(12)]) simp_all
qed

theorem arm_uploads_then_enables_witness:
  "\<exists>w'. arm (example_env 1) 0 example_fgs = (Inr (), w') \<and> fw_alloc w' = [3, - 1] \<and>
    last (fw_log w') = BusWrite 0x1028 0x20000"
proof -
  have p: "0 < length (fw_fgs example_fgs)" "phase_of (fw_fgs example_fgs ! 0) = Idle" "fg_filled (fw_fgs example_fgs ! 0) = 0"
    "fg_fillLevel (fw_fgs example_fgs ! 0) \<noteq> 0" "fg_host_slot (fw_fgs example_fgs ! 0) = Some 6"
    "first_free_channel (fw_alloc example_fgs) = 0" "0 < length (fw_alloc example_fgs)"
    by code_simp+
  have l: "layout_ok (fw_fgs example_fgs ! 0) 0" by (rule example_layout) code_simp+
  have "length (fg_fifo (fw_fgs example_fgs ! 0)) = 6" by code_simp
  then have n: "length (fg_fifo (fw_fgs example_fgs ! 0)) < 2 ^ 32" by simp
  have e: "(fw_alloc example_fgs)[0 := sint (fg_index (fw_fgs example_fgs ! 0))] = [3, - 1]"
    "fe_mailbox (example_env 1) + ucast (fg_mb_slot (fw_fgs example_fgs ! 0)) * 4 * 2 = 0x1028" "swi SWI_ENABLE 0 = 0x20000"
    by code_simp+
  from arm_uploads_then_enables [OF example_good_bus [of 1] example_silent example_fgs_ok p l n] show ?thesis
    unfolding e by blast
qed



end
