(* ===== verification/Master_Function_Generator.thy ===== *)
theory Master_Function_Generator
  imports Function_Generator Time_Conversion
begin

text \<open>
  The driver objects of the function generators: the single channel (src/FunctionGenerator.cpp) and
  the master of all channels (src/MasterFunctionGenerator.cpp). They check the owner, pass calls on
  to the channels and turn the signals of the channels into signals for the clients.
\<close>

section \<open>State\<close>

record function_generator =
  fn_name :: string
  fn_path :: string
  fn_impl :: nat
  fn_owned :: owned

text \<open>
  A shared memory segment of the Boost library: its checks, and the vectors of tuples it holds under
  the keys (position of the generator, beam process).
\<close>

record shared_memory =
  sm_sane :: bool
  sm_mutex :: bool
  sm_format :: "int option"
  sm_index :: "int \<times> int \<Rightarrow> parameter_tuple list option"

record master =
  ma_path :: string
  ma_all :: "nat list"
  ma_active :: "nat list"
  ma_individual :: bool
  ma_startTag :: u32
  ma_owned :: owned
  ma_shm :: "shared_memory option"
  ma_mutex :: bool

text \<open>The signals for the clients; the string is the path of the object that sends them.\<close>

datatype driver_signal =
    SigRunning string bool
  | SigArmed string bool
  | SigEnabled string bool
  | SigRefill string
  | SigStarted string time
  | SigStopped string time bool bool bool
  | AllArmed
  | SigAllStopped time

text \<open>
  \<open>dw_fgs\<close> is the map from names to single channels, \<open>dw_signals\<close> what was sent to the clients.
\<close>

record fg_drivers = fg_world +
  dw_master :: "master option"
  dw_fgs :: "(string \<times> function_generator) list"
  dw_signals :: "driver_signal list"

type_synonym ('z, 'a) driver_op = "('z fg_drivers_scheme, 'a) op"

text \<open>An environment whose slots are the ones connected by the driver objects comes last.\<close>

type_synonym 'z driver_env = "('z fg_drivers_scheme) fg_env"

definition new_function_generator :: "bool \<Rightarrow> string \<Rightarrow> string \<Rightarrow> nat \<Rightarrow> function_generator" where
  "new_function_generator container name path impl =
     \<lparr>fn_name = name, fn_path = path, fn_impl = impl, fn_owned = new_owned container\<rparr>"

text \<open>
  The constructor initialises neither the start tag nor the pointer to the mutex: \<open>tag\<close> is what the
  memory holds, \<open>pointer\<close> whether the pointer is not null.
\<close>

definition new_master :: "bool \<Rightarrow> string \<Rightarrow> nat list \<Rightarrow> u32 \<Rightarrow> bool \<Rightarrow> master" where
  "new_master container path impls tag pointer =
     \<lparr>ma_path = path, ma_all = impls, ma_active = impls, ma_individual = False, ma_startTag = tag,
      ma_owned = new_owned container, ma_shm = None, ma_mutex = pointer\<rparr>"

section \<open>Signals\<close>

definition send_signal :: "driver_signal \<Rightarrow> ('z, unit) driver_op" where
  "send_signal s = modify (\<lambda>w. w\<lparr>dw_signals := dw_signals w @ [s]\<rparr>)"

text \<open>Reading one value of each generator in a vector.\<close>

fun collect :: "(fg \<Rightarrow> 'a) \<Rightarrow> nat list \<Rightarrow> ('z, 'a list) fg_op" where
  "collect h [] = ret []"
| "collect h (k # ks) = bnd (deref_fg k) (\<lambda>f. bnd (collect h ks) (\<lambda>xs. ret (h f # xs)))"

definition on_fg_running :: "master \<Rightarrow> nat \<Rightarrow> bool \<Rightarrow> ('z, unit) driver_op" where
  "on_fg_running m k b =
     (if ma_individual m \<and> k \<in> set (ma_active m)
      then bnd (deref_fg k) (\<lambda>f. send_signal (SigRunning (fg_GetName f) b)) else ret ())"

definition on_fg_refill :: "master \<Rightarrow> nat \<Rightarrow> ('z, unit) driver_op" where
  "on_fg_refill m k =
     (if ma_individual m \<and> k \<in> set (ma_active m)
      then bnd (deref_fg k) (\<lambda>f. send_signal (SigRefill (fg_GetName f))) else ret ())"

definition armed_or_inactive :: "fg \<Rightarrow> bool" where
  "armed_or_inactive f \<longleftrightarrow> fg_armed f \<or> fg_fillLevel f = 0"

definition on_fg_armed :: "master \<Rightarrow> nat \<Rightarrow> bool \<Rightarrow> ('z, unit) driver_op" where
  "on_fg_armed m k b =
     thn (if ma_individual m then bnd (deref_fg k) (\<lambda>f. send_signal (SigArmed (fg_GetName f) b)) else ret ())
         (if b then bnd (collect armed_or_inactive (ma_active m)) (\<lambda>bs.
            if list_all id bs then send_signal AllArmed else ret ())
          else ret ())"

definition on_fg_enabled :: "master \<Rightarrow> nat \<Rightarrow> bool \<Rightarrow> ('z, unit) driver_op" where
  "on_fg_enabled m k b =
     (if ma_individual m then bnd (deref_fg k) (\<lambda>f. send_signal (SigEnabled (fg_GetName f) b)) else ret ())"

definition on_fg_started :: "master \<Rightarrow> nat \<Rightarrow> u64 \<Rightarrow> ('z, unit) driver_op" where
  "on_fg_started m k time =
     (if ma_individual m
      then bnd (deref_fg k) (\<lambda>f. send_signal (SigStarted (fg_GetName f) (makeTimeTAI time))) else ret ())"

definition on_fg_stopped :: "master \<Rightarrow> nat \<Rightarrow> u64 \<Rightarrow> bool \<Rightarrow> bool \<Rightarrow> bool \<Rightarrow> ('z, unit) driver_op" where
  "on_fg_stopped m k time aborted hardware micro =
     thn (if ma_individual m
          then bnd (deref_fg k) (\<lambda>f.
                 send_signal (SigStopped (fg_GetName f) (makeTimeTAI time) aborted hardware micro)) else ret ())
         (bnd (collect fg_running (ma_active m)) (\<lambda>bs.
          if list_all Not bs then send_signal (SigAllStopped (makeTimeTAI time)) else ret ()))"

fun master_slot :: "master \<Rightarrow> nat \<Rightarrow> fg_event \<Rightarrow> ('z, unit) driver_op" where
  "master_slot m k (FgRunning b) = on_fg_running m k b"
| "master_slot m k FgRefill = on_fg_refill m k"
| "master_slot m k (FgArmed b) = on_fg_armed m k b"
| "master_slot m k (FgEnabled b) = on_fg_enabled m k b"
| "master_slot m k (FgStarted t) = on_fg_started m k t"
| "master_slot m k (FgStopped t a h u) = on_fg_stopped m k t a h u"

text \<open>A single channel sends its signals only while it has an owner.\<close>

fun channel_signal :: "string \<Rightarrow> fg_event \<Rightarrow> driver_signal" where
  "channel_signal p (FgRunning b) = SigRunning p b"
| "channel_signal p FgRefill = SigRefill p"
| "channel_signal p (FgArmed b) = SigArmed p b"
| "channel_signal p (FgEnabled b) = SigEnabled p b"
| "channel_signal p (FgStarted t) = SigStarted p (makeTimeTAI t)"
| "channel_signal p (FgStopped t a h u) = SigStopped p (makeTimeTAI t) a h u"

definition channel_slot :: "function_generator \<Rightarrow> fg_event \<Rightarrow> ('z, unit) driver_op" where
  "channel_slot n ev =
     bnd (getOwner (fn_owned n)) (\<lambda>owner.
     if owner \<noteq> [] then send_signal (channel_signal (fn_path n) ev) else ret ())"

text \<open>What is connected to the signals of generator \<open>k\<close>.\<close>

definition driver_slots :: "nat \<Rightarrow> fg_event \<Rightarrow> ('z, unit) driver_op" where
  "driver_slots k ev =
     thn (bnd (gets dw_fgs) (\<lambda>ns. for_each (\<lambda>n. if fn_impl n = k then channel_slot n ev else ret ()) (map snd ns)))
         (bnd (gets dw_master) (\<lambda>mo. case mo of
            None \<Rightarrow> ret ()
          | Some m \<Rightarrow> if k \<in> set (ma_all m) then master_slot m k ev else ret ()))"

section \<open>The single channel\<close>

definition fn_AppendParameterSet :: "'z driver_env \<Rightarrow> function_generator \<Rightarrow> parameter_set \<Rightarrow> ('z, bool) driver_op" where
  "fn_AppendParameterSet env n ps = thn (ownerOnly (fn_owned n)) (appendParameterSet env (fn_impl n) ps)"

definition fn_Flush :: "function_generator \<Rightarrow> ('z, unit) driver_op" where
  "fn_Flush n = thn (ownerOnly (fn_owned n)) (flush (fn_impl n))"

definition fn_Arm :: "'z driver_env \<Rightarrow> function_generator \<Rightarrow> ('z, unit) driver_op" where
  "fn_Arm env n = thn (ownerOnly (fn_owned n)) (arm env (fn_impl n))"

definition fn_Reset :: "'z driver_env \<Rightarrow> function_generator \<Rightarrow> ('z, unit) driver_op" where
  "fn_Reset env n = fg_Reset env (fn_impl n)"

definition fn_Abort :: "'z driver_env \<Rightarrow> function_generator \<Rightarrow> ('z, unit) driver_op" where
  "fn_Abort env n = thn (ownerOnly (fn_owned n)) (fn_Reset env n)"

definition fn_ownerQuit :: "'z driver_env \<Rightarrow> function_generator \<Rightarrow> ('z, unit) driver_op" where
  "fn_ownerQuit env n = fn_Reset env n"

definition fn_setStartTag :: "function_generator \<Rightarrow> u32 \<Rightarrow> ('z, unit) driver_op" where
  "fn_setStartTag n val = thn (ownerOnly (fn_owned n)) (fg_setStartTag (fn_impl n) val)"

definition fn_read :: "(fg \<Rightarrow> 'a) \<Rightarrow> function_generator \<Rightarrow> ('z, 'a) driver_op" where
  "fn_read h n = bnd (deref_fg (fn_impl n)) (\<lambda>f. ret (h f))"

section \<open>The master\<close>

definition deref_master :: "('z, master) driver_op" where
  "deref_master = bnd (gets dw_master) (\<lambda>mo. case mo of None \<Rightarrow> raise (Undefined ''null mfg'') | Some m \<Rightarrow> ret m)"

definition modify_master :: "(master \<Rightarrow> master) \<Rightarrow> ('z, unit) driver_op" where
  "modify_master h = modify (\<lambda>w. w\<lparr>dw_master := map_option h (dw_master w)\<rparr>)"

text \<open>The vectors of vectors of one call; their outer lengths must agree.\<close>

record parameter_sets =
  pss_coeff_a :: "u16 list list"
  pss_coeff_b :: "u16 list list"
  pss_coeff_c :: "u32 list list"
  pss_step :: "u8 list list"
  pss_freq :: "u8 list list"
  pss_shift_a :: "u8 list list"
  pss_shift_b :: "u8 list list"

definition check_counts :: "parameter_sets \<Rightarrow> exn option" where
  "check_counts s =
     (let fgcount = length (pss_coeff_a s) in
      if length (pss_coeff_b s) \<noteq> fgcount then Some (invalid_args ''coeff_b fgcount mismatch'')
      else if length (pss_coeff_c s) \<noteq> fgcount then Some (invalid_args ''coeff_c fgcount mismatch'')
      else if length (pss_step s) \<noteq> fgcount then Some (invalid_args ''step fgcount mismatch'')
      else if length (pss_freq s) \<noteq> fgcount then Some (invalid_args ''freq fgcount mismatch'')
      else if length (pss_shift_a s) \<noteq> fgcount then Some (invalid_args ''shift_a fgcount mismatch'')
      else if length (pss_shift_b s) \<noteq> fgcount then Some (invalid_args ''shift_b fgcount mismatch'')
      else None)"

definition set_at :: "parameter_sets \<Rightarrow> nat \<Rightarrow> parameter_set" where
  "set_at s i =
     \<lparr>ps_coeff_a = pss_coeff_a s ! i, ps_coeff_b = pss_coeff_b s ! i, ps_coeff_c = pss_coeff_c s ! i,
      ps_step = pss_step s ! i, ps_freq = pss_freq s ! i, ps_shift_a = pss_shift_a s ! i,
      ps_shift_b = pss_shift_b s ! i\<rparr>"

text \<open>The loop over the sets: \<open>lowFill\<close> is set when one of the generators has little data left.\<close>

fun append_sets :: "'z driver_env \<Rightarrow> (nat \<times> parameter_set) list \<Rightarrow> bool \<Rightarrow> ('z, bool) driver_op" where
  "append_sets env [] low = ret low"
| "append_sets env ((k, ps) # rest) low =
     (if length (ps_coeff_a ps) > 0
      then bnd (appendParameterSet env k ps) (\<lambda>b. append_sets env rest (low \<or> b))
      else append_sets env rest low)"

definition AppendParameterSets :: "'z driver_env \<Rightarrow> parameter_sets \<Rightarrow> ('z, bool) driver_op" where
  "AppendParameterSets env s =
     bnd deref_master (\<lambda>m.
     thn (ownerOnly (ma_owned m))
     (case check_counts s of
        Some e \<Rightarrow> raise e
      | None \<Rightarrow>
          thn (throw_if (length (pss_coeff_a s) > length (ma_active m))
                (invalid_args ''More datasets than function generators''))
              (append_sets env (zip (ma_active m) (map (set_at s) [0..<length (pss_coeff_a s)])) False)))"

text \<open>
  The shared memory: \<open>opened\<close> is what opening the segment gives, a message or the segment. A segment
  that is refused after it was opened stays. Appending checks neither the owner nor the values.
\<close>

definition InitializeSharedMemory :: "string + shared_memory \<Rightarrow> ('z, unit) driver_op" where
  "InitializeSharedMemory opened =
     (case opened of
        Inl msg \<Rightarrow> raise (invalid_args (''Error initializing shared memory: '' @ msg))
      | Inr s \<Rightarrow>
          thn (modify_master (\<lambda>m. m\<lparr>ma_shm := Some s\<rparr>))
         (thn (throw_if (\<not> sm_sane s) (invalid_args ''Shared memory is insane''))
         (thn (modify_master (\<lambda>m. m\<lparr>ma_mutex := sm_mutex s\<rparr>))
         (thn (throw_if (\<not> sm_mutex s) (invalid_args ''No mutex in shared memory''))
              (throw_if ((case sm_format s of None \<Rightarrow> 0 | Some v \<Rightarrow> v) \<noteq> 0)
                 (invalid_args ''Unsupported shared memory format version''))))))"

fun append_from_map ::
  "'z driver_env \<Rightarrow> (int \<times> int \<Rightarrow> parameter_tuple list option) \<Rightarrow> int \<Rightarrow> int \<Rightarrow> nat list \<Rightarrow> ('z, unit) driver_op" where
  "append_from_map env index_map beam_process i [] = ret ()"
| "append_from_map env index_map beam_process i (k # ks) =
     thn (case index_map (i, beam_process) of
            None \<Rightarrow> ret ()
          | Some ts \<Rightarrow> bnd (appendParameterTuples env k ts) (\<lambda>_. ret ()))
         (append_from_map env index_map beam_process (i + 1) ks)"

definition AppendParameterTuplesForBeamProcess :: "'z driver_env \<Rightarrow> int \<Rightarrow> ('z, unit) driver_op" where
  "AppendParameterTuplesForBeamProcess env beam_process =
     bnd deref_master (\<lambda>m.
     case ma_shm m of
       None \<Rightarrow> raise (invalid_args ''Shared memory not initialized'')
     | Some s \<Rightarrow>
         thn (throw_if (\<not> ma_mutex m) (invalid_args ''No mutex in shared memory''))
        (thn (throw_if (\<not> sm_sane s) (invalid_args ''Shared memory is insane''))
             (append_from_map env (sm_index s) beam_process 0 (ma_active m))))"

text \<open>\<open>catch (saftbus::Error\&)\<close> inside a loop: the message is kept and the loop goes on.\<close>

definition noting_error :: "string \<Rightarrow> ('w, unit) op \<Rightarrow> ('w, string) op" where
  "noting_error name m = (\<lambda>w. case m w of
      (Inr _, w') \<Rightarrow> (Inr [], w')
    | (Inl (SaftbusError t msg), w') \<Rightarrow> (Inr (name @ msg), w')
    | (Inl e, w') \<Rightarrow> (Inl e, w'))"

fun for_active :: "(nat \<Rightarrow> ('z, unit) driver_op) \<Rightarrow> nat list \<Rightarrow> string \<Rightarrow> ('z, string) driver_op" where
  "for_active body [] msg = ret msg"
| "for_active body (k # ks) msg =
     bnd (deref_fg k) (\<lambda>f.
     bnd (noting_error (fg_GetName f) (body k)) (\<lambda>e. for_active body ks (msg @ e)))"

definition raise_noted :: "string \<Rightarrow> ('w, unit) op" where
  "raise_noted msg = throw_if (msg \<noteq> []) (invalid_args msg)"

definition master_Flush :: "('z, unit) driver_op" where
  "master_Flush =
     bnd deref_master (\<lambda>m.
     thn (ownerOnly (ma_owned m)) (bnd (for_active flush (ma_active m) []) raise_noted))"

definition arm_if_filled :: "'z driver_env \<Rightarrow> nat \<Rightarrow> ('z, unit) driver_op" where
  "arm_if_filled env k = bnd (deref_fg k) (\<lambda>f. if fg_fillLevel f > 0 then arm env k else ret ())"

definition arm_all :: "'z driver_env \<Rightarrow> ('z, unit) driver_op" where
  "arm_all env = bnd deref_master (\<lambda>m. bnd (for_active (arm_if_filled env) (ma_active m) []) raise_noted)"

definition master_Arm :: "'z driver_env \<Rightarrow> ('z, unit) driver_op" where
  "master_Arm env = bnd deref_master (\<lambda>m. thn (ownerOnly (ma_owned m)) (arm_all env))"

definition reset_all :: "'z driver_env \<Rightarrow> ('z, unit) driver_op" where
  "reset_all env = bnd deref_master (\<lambda>m. for_each (fg_Reset env) (ma_active m))"

definition master_Abort :: "'z driver_env \<Rightarrow> ('z, unit) driver_op" where
  "master_Abort env = bnd deref_master (\<lambda>m. thn (ownerOnly (ma_owned m)) (reset_all env))"

definition master_ownerQuit :: "'z driver_env \<Rightarrow> ('z, unit) driver_op" where
  "master_ownerQuit env = thn (reset_all env) (modify_master (\<lambda>m. m\<lparr>ma_active := ma_all m\<rparr>))"

definition master_setStartTag :: "u32 \<Rightarrow> ('z, unit) driver_op" where
  "master_setStartTag val =
     bnd deref_master (\<lambda>m.
     thn (ownerOnly (ma_owned m))
    (thn (for_each (\<lambda>k. bnd (deref_fg k) (\<lambda>f.
            throw_if (fg_enabled f) (invalid_args ''FG Enabled, cannot set StartTag''))) (ma_active m))
    (if val \<noteq> ma_startTag m
     then thn (modify_master (\<lambda>m. m\<lparr>ma_startTag := val\<rparr>))
              (for_each (\<lambda>k. modify_fg k (\<lambda>f. f\<lparr>fg_startTag := val\<rparr>)) (ma_active m))
     else ret ())))"

definition setGenerateIndividualSignals :: "bool \<Rightarrow> ('z, unit) driver_op" where
  "setGenerateIndividualSignals b = modify_master (\<lambda>m. m\<lparr>ma_individual := b\<rparr>)"

definition read_active :: "(fg \<Rightarrow> 'a) \<Rightarrow> ('z, 'a list) driver_op" where
  "read_active h = bnd deref_master (\<lambda>m. collect h (ma_active m))"

definition ReadExecutedParameterCounts :: "('z, u32 list) driver_op" where
  "ReadExecutedParameterCounts = read_active fg_executed"

definition ReadFillLevels :: "('z, u64 list) driver_op" where
  "ReadFillLevels = read_active fg_fillLevel"

definition ReadAllNames :: "('z, string list) driver_op" where
  "ReadAllNames = bnd deref_master (\<lambda>m. collect fg_GetName (ma_all m))"

definition ReadNames :: "('z, string list) driver_op" where
  "ReadNames = read_active fg_GetName"

definition ReadArmed :: "('z, int list) driver_op" where
  "ReadArmed = read_active (\<lambda>f. if fg_armed f then 1 else 0)"

definition ReadEnabled :: "('z, int list) driver_op" where
  "ReadEnabled = read_active (\<lambda>f. if fg_enabled f then 1 else 0)"

definition ReadRunning :: "('z, int list) driver_op" where
  "ReadRunning = read_active (\<lambda>f. if fg_running f then 1 else 0)"

definition ResetActiveFunctionGenerators :: "('z, unit) driver_op" where
  "ResetActiveFunctionGenerators =
     bnd deref_master (\<lambda>m.
     thn (ownerOnly (ma_owned m)) (modify_master (\<lambda>m. m\<lparr>ma_active := ma_all m, ma_individual := False\<rparr>)))"

text \<open>The first generator with a name; every name must exist before anything is changed.\<close>

fun find_name :: "string \<Rightarrow> (string \<times> nat) list \<Rightarrow> nat option" where
  "find_name name [] = None"
| "find_name name ((n, k) # nks) = (if name = n then Some k else find_name name nks)"

definition SetActiveFunctionGenerators :: "string list \<Rightarrow> ('z, unit) driver_op" where
  "SetActiveFunctionGenerators names =
     bnd deref_master (\<lambda>m.
     thn (ownerOnly (ma_owned m))
    (thn (throw_if (names = []) (invalid_args ''No Function Generators Selected''))
    (bnd (collect fg_GetName (ma_all m)) (\<lambda>ns.
     let table = zip ns (ma_all m) in
     thn (for_each (\<lambda>name. throw_if (find_name name table = None)
             (invalid_args (''Function Generator Not Found '' @ name))) names)
         (modify_master (\<lambda>m. m\<lparr>ma_active := map (\<lambda>name. the (find_name name table)) names\<rparr>))))))"

definition all_armed :: "('z, bool) driver_op" where
  "all_armed = bnd (read_active (\<lambda>f. fg_fillLevel f > 0 \<longrightarrow> fg_armed f)) (\<lambda>bs. ret (list_all id bs))"

definition all_stopped :: "('z, bool) driver_op" where
  "all_stopped = bnd (read_active (\<lambda>f. \<not> fg_running f)) (\<lambda>bs. ret (list_all id bs))"

end
