(* ===== verification/Function_Generator_Firmware.thy ===== *)
theory Function_Generator_Firmware
  imports Master_Function_Generator
begin

text \<open>
  The driver of the function generator firmware (src/FunctionGeneratorFirmware.cpp): it looks for the
  microcontroller, lets it scan the hardware, and creates the objects of the channels.
\<close>

definition FG_MAGIC_NUMBER :: u64 where "FG_MAGIC_NUMBER = 0x24"
definition FG_VERSION :: u64 where "FG_VERSION = 0x28"
definition FG_MB_SLOT :: u64 where "FG_MB_SLOT = 0x2c"
definition FG_NUM_CHANNELS :: u64 where "FG_NUM_CHANNELS = 0x30"
definition FG_BUFFER_SIZE :: u64 where "FG_BUFFER_SIZE = 0x34"
definition FG_MACROS :: u64 where "FG_MACROS = 0x38"
definition FG_BUSY :: u64 where "FG_BUSY = 0x60b8"
definition FG_SCAN_DONE :: u64 where "FG_SCAN_DONE = 0x100c0"
definition FG_MACROS_SIZE :: nat where "FG_MACROS_SIZE = 256"
definition SWI_SCAN :: u32 where "SWI_SCAN = 0x00040000"

record firmware =
  ff_path :: string
  ff_fgb :: u64
  ff_version :: u32
  ff_have :: bool
  ff_addons :: "(string \<times> (string \<times> string) list) list"
  ff_owned :: owned

record fg_host = fg_drivers +
  dh_firmware :: firmware

type_synonym ('z, 'a) host_op = "('z fg_host_scheme, 'a) op"

text \<open>
  The environment of a scan: the bus and the slots, the registration of an interrupt, the capacity of
  a queue, whether there is a container, the generated service classes, and what the uninitialised
  members of a master hold.
\<close>

record 'w scan_env =
  se_fg :: "'w fg_env"
  se_irq :: "('w, u32) op"
  se_capacity :: nat
  se_container :: bool
  se_master_service :: "fg_callback service"
  se_channel_service :: "fg_callback service"
  se_tag :: u32
  se_pointer :: bool

type_synonym 'z host_env = "('z fg_host_scheme) scan_env"

section \<open>Construction\<close>

text \<open>The memories of all microcontrollers are tried in turn.\<close>

fun probe_firmware :: "hardware \<Rightarrow> u64 list \<Rightarrow> (bus_op list, (u64 \<times> u32) option) op" where
  "probe_firmware hw [] = ret None"
| "probe_firmware hw (fgb # rest) =
     bnd (close_cycle hw [BusRead (fgb + SHM_BASE + FG_MAGIC_NUMBER), BusRead (fgb + SHM_BASE + FG_VERSION)]) (\<lambda>rs.
     if rs ! 0 = 0xdeadbeef \<and> (rs ! 1 = 3 \<or> rs ! 1 = 4) then ret (Some (fgb, rs ! 1))
     else probe_firmware hw rest)"

definition new_firmware :: "hardware \<Rightarrow> bool \<Rightarrow> string \<Rightarrow> u64 list \<Rightarrow> (bus_op list, firmware) op" where
  "new_firmware hw container tr_path memories =
     bnd (probe_firmware hw memories) (\<lambda>found.
     case found of
       None \<Rightarrow> raise (SaftbusError FAILED ''no FunctionGeneratorFirmware found'')
     | Some (fgb, version) \<Rightarrow>
         ret \<lparr>ff_path = tr_path @ ''/fg_firmware'', ff_fgb = fgb, ff_version = version, ff_have = True,
              ff_addons = [], ff_owned = new_owned container\<rparr>)"

section \<open>Removal of the objects\<close>

text \<open>
  An exception that leaves a destructor ends the daemon. The allocation goes with the last channel.
\<close>

definition in_destructor :: "('w, unit) op \<Rightarrow> ('w, unit) op" where
  "in_destructor m = (\<lambda>w. case m w of
      (Inl e, w') \<Rightarrow> (Inl (if catchable e then Terminate (what e) else e), w')
    | (Inr x, w') \<Rightarrow> (Inr x, w'))"

definition destroy_drivers :: "'z host_env \<Rightarrow> ('z, unit) host_op" where
  "destroy_drivers env =
     bnd (gets dw_fgs) (\<lambda>ns.
     bnd (gets dw_master) (\<lambda>mo.
     thn (for_each (\<lambda>n. in_destructor (destroy_fg (se_fg env) (fn_impl (snd n)))) ns)
    (thn (modify (\<lambda>w. w\<lparr>dw_fgs := []\<rparr>))
    (thn (for_each (\<lambda>k. in_destructor (destroy_fg (se_fg env) k)) (case mo of None \<Rightarrow> [] | Some m \<Rightarrow> ma_all m))
         (modify (\<lambda>w. w\<lparr>dw_master := None, fw_fgs := [], fw_alloc := [],
            dh_firmware := (dh_firmware w)\<lparr>ff_addons := []\<rparr>\<rparr>))))))"

definition remove_paths :: "string list \<Rightarrow> ('z, unit) host_op" where
  "remove_paths = for_each (\<lambda>p. bnd (remove_object p) (\<lambda>_. ret ()))"

text \<open>Everything is in one \<open>try\<close> block: the first object that is not removed ends the removal.\<close>

definition clear_drivers :: "'z host_env \<Rightarrow> ('z, unit) host_op" where
  "clear_drivers env =
     try_catch
       (bnd (gets (\<lambda>w. map (fn_path \<circ> snd) (dw_fgs w))) (\<lambda>fg_names.
        bnd (gets (\<lambda>w. case dw_master w of None \<Rightarrow> [] | Some m \<Rightarrow> ma_path m)) (\<lambda>mfg_name.
        thn (destroy_drivers env)
            (if se_container env
             then thn (remove_paths fg_names) (if mfg_name \<noteq> [] then remove_paths [mfg_name] else ret ())
             else ret ()))))
       (\<lambda>_. ret ())"

section \<open>Scanning\<close>

definition nothing_runs :: "('z, bool) host_op" where
  "nothing_runs =
     bnd (gets dw_fgs) (\<lambda>ns.
     bnd (collect fg_running (map (fn_impl \<circ> snd) ns)) (\<lambda>rs.
     if list_ex id rs then ret False
     else bnd (gets dw_master) (\<lambda>mo.
       case mo of
         None \<Rightarrow> ret True
       | Some m \<Rightarrow> bnd (collect fg_running (ma_active m)) (\<lambda>rs. ret (\<not> list_ex id rs)))))"

definition busy_register :: "firmware \<Rightarrow> u64" where
  "busy_register fw = ff_fgb fw + SHM_BASE + (if ff_version fw = 3 then FG_SCAN_DONE else FG_BUSY)"

fun wait_scan :: "nat \<Rightarrow> 'z host_env \<Rightarrow> firmware \<Rightarrow> ('z, unit) host_op" where
  "wait_scan 0 env fw = raise (SaftbusError FAILED ''timeout while waiting for fg-firmware scan'')"
| "wait_scan (Suc n) env fw =
     bnd (fg_cycle (fe_hw (se_fg env)) [BusRead (busy_register fw)]) (\<lambda>rs.
     if hd rs = 0 then ret ()
     else if n = 0 then raise (SaftbusError FAILED ''timeout while waiting for fg-firmware scan'')
     else wait_scan n env fw)"

text \<open>The flag is polled at most 201 times.\<close>

definition firmware_rescan :: "'z host_env \<Rightarrow> u32 \<Rightarrow> ('z, unit) host_op" where
  "firmware_rescan env slot =
     bnd (gets dh_firmware) (\<lambda>fw.
     thn (bnd (fg_cycle (fe_hw (se_fg env)) [BusWrite (busy_register fw) 1]) (\<lambda>_. ret ()))
    (thn (UseSlot (se_fg env) slot SWI_SCAN)
         (wait_scan 201 env fw)))"

text \<open>
  What both scans begin with: slot of the mailbox, scan, configuration, a fresh allocation, and all
  channels disabled. The test of the slot number can never be true.
\<close>

definition read_configuration :: "'z host_env \<Rightarrow> ('z, u32 \<times> u32 \<times> u32 \<times> u32 list) host_op" where
  "read_configuration env =
     bnd (gets (\<lambda>w. ff_fgb (dh_firmware w) + SHM_BASE)) (\<lambda>shm.
     bnd (fg_cycle (fe_hw (se_fg env)) [BusRead (shm + FG_MB_SLOT)]) (\<lambda>rs.
     let mb_slot = hd rs in
     thn (throw_if (mb_slot < 0 \<and> mb_slot > 127) (invalid_args ''mailbox slot number not in range 0 to 127''))
    (thn (firmware_rescan env mb_slot)
    (bnd (fg_cycle (fe_hw (se_fg env))
            ([BusRead (shm + FG_NUM_CHANNELS), BusRead (shm + FG_BUFFER_SIZE)]
             @ map (\<lambda>j. BusRead (shm + FG_MACROS + of_nat j * 4)) [0..<FG_MACROS_SIZE])) (\<lambda>rs.
     thn (modify (\<lambda>w. w\<lparr>fw_alloc := replicate (unat (rs ! 0)) (- 1)\<rparr>))
    (thn (for_each (\<lambda>j. UseSlot (se_fg env) mb_slot (swi SWI_DISABLE j)) [0..<unat (rs ! 0)])
         (ret (mb_slot, rs ! 0, rs ! 1, drop 2 rs))))))))"

text \<open>A constructed channel: interrupt, mailbox slot, state. The result is its index.\<close>

definition construct_fg :: "'z host_env \<Rightarrow> u32 \<times> u32 \<times> u32 \<Rightarrow> nat \<Rightarrow> u32 \<Rightarrow> ('z, nat) host_op" where
  "construct_fg env cfg j macro = (case cfg of (mb_slot, num_channels, buffer_size) \<Rightarrow>
     bnd (se_irq env) (\<lambda>address.
     bnd (ConfigureSlot (se_fg env) address) (\<lambda>slot.
     bnd (gets (\<lambda>w. length (fw_fgs w))) (\<lambda>k.
     bnd (gets (\<lambda>w. ff_fgb (dh_firmware w))) (\<lambda>fgb.
     thn (modify (\<lambda>w. w\<lparr>fw_fgs := fw_fgs w
            @ [new_fg fgb mb_slot num_channels buffer_size (of_nat j) macro slot (se_capacity env)]\<rparr>))
         (ret k))))))"

fun construct_all :: "'z host_env \<Rightarrow> u32 \<times> u32 \<times> u32 \<Rightarrow> (nat \<times> u32) list \<Rightarrow> ('z, nat list) host_op" where
  "construct_all env cfg [] = ret []"
| "construct_all env cfg ((j, macro) # rest) =
     (if macro = 0 then construct_all env cfg rest
      else bnd (construct_fg env cfg j macro) (\<lambda>k. bnd (construct_all env cfg rest) (\<lambda>ks. ret (k # ks))))"

definition refuse_scan :: "('z, unit) host_op" where
  "refuse_scan =
     thn (bnd (gets (ff_owned \<circ> dh_firmware)) ownerOnly)
    (bnd nothing_runs (\<lambda>idle.
     throw_if (\<not> idle) (SaftbusError ACCESS_DENIED
       ''FunctionGeneratorFirmware::Scan is not allowed if any channel is active'')))"

definition set_addon :: "string \<Rightarrow> (string \<times> string) list \<Rightarrow> ('z, unit) host_op" where
  "set_addon name objs =
     modify (\<lambda>w. w\<lparr>dh_firmware := (dh_firmware w)\<lparr>ff_addons := omap_put name objs (ff_addons (dh_firmware w))\<rparr>\<rparr>)"

text \<open>The channels of a scan that fails on the way are destroyed with the vector that holds them.\<close>

definition drop_channels :: "'z host_env \<Rightarrow> ('z, unit) host_op" where
  "drop_channels env =
     bnd (gets (\<lambda>w. length (fw_fgs w))) (\<lambda>n.
     thn (for_each (\<lambda>k. in_destructor (destroy_fg (se_fg env) k)) [0..<n]) (modify (\<lambda>w. w\<lparr>fw_fgs := [], fw_alloc := []\<rparr>)))"

definition ScanMasterFg :: "'z host_env \<Rightarrow> ('z, (string \<times> string) list) host_op" where
  "ScanMasterFg env =
     thn refuse_scan
    (thn (clear_drivers env)
    (bnd (gets dh_firmware) (\<lambda>fw.
     bnd (if ff_have fw
          then bnd (read_configuration env) (\<lambda>(mb_slot, num_channels, buffer_size, macros).
               bnd (try_catch (construct_all env (mb_slot, num_channels, buffer_size) (zip [0..<FG_MACROS_SIZE] macros))
                     (\<lambda>e. thn (drop_channels env) (raise e))) (\<lambda>ks.
               let path = ff_path fw @ ''/masterfg'' in
               thn (modify (\<lambda>w. w\<lparr>dw_master := Some (new_master (se_container env) path ks (se_tag env) (se_pointer env))\<rparr>))
              (thn (if se_container env
                    then bnd (create_object path (se_master_service env)) (\<lambda>i.
                         modify_master (\<lambda>m. m\<lparr>ma_owned := set_service i (ma_owned m)\<rparr>))
                    else ret ())
                   (ret [(''masterfg'', path)]))))
          else ret []) (\<lambda>result.
     thn (set_addon ''MasterFunctionGenerator'' result) (ret result)))))"

text \<open>One channel of \<open>ScanFgChannels\<close>; the caller becomes the owner of the new object.\<close>

definition scan_channel ::
  "'z host_env \<Rightarrow> u32 \<times> u32 \<times> u32 \<Rightarrow> nat \<Rightarrow> u32 \<Rightarrow> (string \<times> string) list \<Rightarrow> ('z, (string \<times> string) list) host_op" where
  "scan_channel env cfg j macro result =
     bnd (gets (\<lambda>w. ff_path (dh_firmware w) @ ''/fg_'' @ show_nat j)) (\<lambda>path.
     bnd (construct_fg env cfg j macro) (\<lambda>k.
     bnd (deref_fg k) (\<lambda>f.
     let name = fg_GetName f; n = new_function_generator (se_container env) name path k in
     bnd (if se_container env
          then bnd (gets bs_calling) (\<lambda>caller.
               bnd (create_object path (set_owner caller (se_channel_service env))) (\<lambda>i.
               ret (n\<lparr>fn_owned := set_service i (fn_owned n)\<rparr>)))
          else ret n) (\<lambda>n.
     bnd (gets (\<lambda>w. map_of (dw_fgs w) name)) (\<lambda>old.
     thn (modify (\<lambda>w. w\<lparr>dw_fgs := omap_put name n (dw_fgs w)\<rparr>))
    (thn (case old of None \<Rightarrow> ret () | Some o' \<Rightarrow> in_destructor (destroy_fg (se_fg env) (fn_impl o')))
         (ret (omap_insert name path result))))))))"

fun scan_channels ::
  "'z host_env \<Rightarrow> u32 \<times> u32 \<times> u32 \<Rightarrow> (nat \<times> u32) list \<Rightarrow> (string \<times> string) list \<Rightarrow> ('z, (string \<times> string) list) host_op" where
  "scan_channels env cfg [] result = ret result"
| "scan_channels env cfg ((j, macro) # rest) result =
     (if macro = 0 then scan_channels env cfg rest result
      else bnd (scan_channel env cfg j macro result) (scan_channels env cfg rest))"

definition ScanFgChannels :: "'z host_env \<Rightarrow> ('z, (string \<times> string) list) host_op" where
  "ScanFgChannels env =
     thn refuse_scan
    (thn (clear_drivers env)
    (bnd (gets dh_firmware) (\<lambda>fw.
     bnd (if ff_have fw
          then bnd (read_configuration env) (\<lambda>(mb_slot, num_channels, buffer_size, macros).
               scan_channels env (mb_slot, num_channels, buffer_size) (zip [0..<FG_MACROS_SIZE] macros) [])
          else ret []) (\<lambda>result.
     thn (set_addon ''FunctionGenerator'' result) (ret result)))))"

definition Scan :: "'z host_env \<Rightarrow> ('z, (string \<times> string) list) host_op" where
  "Scan env = ScanMasterFg env"

text \<open>\<open>getObjects\<close>: reading a missing entry of the map creates it.\<close>

definition getObjects :: "firmware \<Rightarrow> (string \<times> (string \<times> string) list) list \<times> firmware" where
  "getObjects fw =
     (let entry = (\<lambda>name. case map_of (ff_addons fw) name of None \<Rightarrow> [] | Some objs \<Rightarrow> objs);
          fw1 = fw\<lparr>ff_addons := omap_insert ''MasterFunctionGenerator'' [] (omap_insert ''FunctionGenerator'' [] (ff_addons fw))\<rparr>;
          r1 = [(''FunctionGeneratorFirmware'', [(''fg_firmware'', ff_path fw)])];
          r2 = (if entry ''FunctionGenerator'' \<noteq> [] then omap_put ''FunctionGenerator'' (entry ''FunctionGenerator'') r1 else r1)
      in (omap_put ''MasterFunctionGenerator'' (entry ''MasterFunctionGenerator'') r2, fw1))"

end
