(* ===== verification/Function_Generator_Drivers.thy ===== *)
theory Function_Generator_Drivers
  imports Function_Generator_Queue Function_Generator_Firmware
begin

text \<open>
  The driver objects on top of the channels: their slots respect the contract the channels rely on,
  every operation keeps the channels consistent, and a scan establishes the invariant.
\<close>

section \<open>The slots of the drivers\<close>

definition leaves_fgs :: "('z fg_world_scheme, 'a) op \<Rightarrow> bool" where
  "leaves_fgs m \<longleftrightarrow> (\<forall>w. fw_fgs (snd (m w)) = fw_fgs w \<and> fw_alloc (snd (m w)) = fw_alloc w \<and>
     fw_log (snd (m w)) = fw_log w \<and> fw_loop (snd (m w)) = fw_loop w)"

lemma leaves_ret: "leaves_fgs (ret x)" and leaves_raise: "leaves_fgs (raise e)"
  and leaves_gets: "leaves_fgs (gets h)" and leaves_throw_if: "leaves_fgs (throw_if b e)"
  by (simp_all add: leaves_fgs_def op_simps)

lemma leaves_bnd: "leaves_fgs m \<Longrightarrow> (\<And>x. leaves_fgs (g x)) \<Longrightarrow> leaves_fgs (bnd m g)"
  by (auto simp: leaves_fgs_def bnd_def split: prod.splits sum.splits) (metis snd_conv)+

lemma leaves_thn: "leaves_fgs m \<Longrightarrow> leaves_fgs n \<Longrightarrow> leaves_fgs (thn m n)"
  unfolding thn_def by (rule leaves_bnd)

lemma leaves_if: "leaves_fgs m \<Longrightarrow> leaves_fgs n \<Longrightarrow> leaves_fgs (if b then m else n)" by simp

lemma leaves_for_each: "(\<And>x. leaves_fgs (h x)) \<Longrightarrow> leaves_fgs (for_each h xs)"
  by (induction xs) (simp_all add: leaves_ret leaves_thn)

lemma leaves_deref: "leaves_fgs (deref_fg k)"
  by (simp add: leaves_fgs_def deref_fg_def)

lemma leaves_collect: "leaves_fgs (collect h ks)"
  by (induction ks) (auto intro: leaves_bnd leaves_deref leaves_ret)

lemma leaves_send: "leaves_fgs (send_signal s)"
  by (simp add: leaves_fgs_def send_signal_def modify_def)

lemmas leaves_rules = leaves_ret leaves_raise leaves_gets leaves_throw_if leaves_bnd leaves_thn leaves_if
  leaves_for_each leaves_deref leaves_collect leaves_send

lemma leaves_master_slot: "leaves_fgs (master_slot m k ev)"
  by (cases ev)
    (auto simp: on_fg_running_def on_fg_refill_def on_fg_armed_def on_fg_enabled_def on_fg_started_def on_fg_stopped_def
      intro!: leaves_rules)

lemma leaves_deref_service: "leaves_fgs (deref_service i)"
  by (simp add: leaves_fgs_def deref_service_def split: option.split)

lemma leaves_channel_slot: "leaves_fgs (channel_slot n ev)"
  unfolding channel_slot_def getOwner_def with_service_def
  by (auto intro!: leaves_rules leaves_deref_service split: bool.split option.split)

lemma leaves_driver_slots: "leaves_fgs (driver_slots k ev)"
  unfolding driver_slots_def
  by (auto intro!: leaves_rules leaves_channel_slot leaves_master_slot split: option.split)

text \<open>An environment in which the drivers are connected and reading the clock touches no channel.\<close>

definition connected_drivers :: "'z driver_env \<Rightarrow> bool" where
  "connected_drivers env \<longleftrightarrow> fe_notify env = driver_slots \<and> leaves_fgs (fe_clock env)"

lemma leaves_ok: "leaves_fgs m \<Longrightarrow> fgs_ok w \<Longrightarrow> fgs_ok (snd (m w)) \<and> map view (fw_fgs (snd (m w))) = map view (fw_fgs w)"
  by (simp add: leaves_fgs_def fgs_ok_def)

lemma drivers_polite: "connected_drivers env \<Longrightarrow> polite_slots env"
  unfolding polite_slots_def connected_drivers_def
  using leaves_ok [OF leaves_driver_slots] leaves_ok by metis

section \<open>Every operation keeps the channels consistent\<close>

lemma keeps_leaves: "leaves_fgs m \<Longrightarrow> keeps fgs_ok m"
  by (rule keepsI) (simp add: leaves_ok)

lemma keeps_step: "polite_slots env \<Longrightarrow> (\<And>w. fg_step env w (snd (m w))) \<Longrightarrow> keeps fgs_ok m"
  by (rule keepsI) (blast intro: fg_step_ok)

lemma ownerOnly_leaves: "leaves_fgs (ownerOnly o')"
  unfolding ownerOnly_def with_service_def owner_check_def
  by (auto intro!: leaves_rules leaves_deref_service split: bool.split option.split)

lemma keeps_noting: "keeps P m \<Longrightarrow> keeps P (noting_error name m)"
  unfolding keeps_def noting_error_def
  by (auto split: prod.splits sum.splits exn.splits)

lemma append_tuples_ok: "append_tuples ts f = Inr f' \<Longrightarrow> list_all tuple_ok ts"
proof (induction ts f rule: append_tuples.induct)
  case (2 t ts f)
  then obtain f1 where f1: "append_tuple t f = Inr f1" "append_tuples ts f1 = Inr f'" by (auto split: sum.splits)
  have "tuple_ok t" using f1(1)
    by (simp add: append_tuple_def duration_def fg_samples_def fg_sample_len_def tuple_ok_def word_less_nat_alt
        split: if_splits)
  with 2(1) [OF f1] show ?case by simp
qed simp

lemma keeps_appendParameterTuples:
  assumes q: "polite_slots env"
  shows "keeps fgs_ok (appendParameterTuples env k ts)"
proof (rule keepsI)
  fix w :: "'a fg_world_scheme" assume ok: "fgs_ok w"
  show "fgs_ok (snd (appendParameterTuples env k ts w))"
  proof (cases "k < length (fw_fgs w)")
    case True
    then have at: "at_phase k (phase_of (fw_fgs w ! k), fg_index (fw_fgs w ! k)) w" using ok by (simp add: at_phase_def view_def)
    show ?thesis
    proof (cases "append_tuples ts (fw_fgs w ! k)")
      case (Inl e)
      then show ?thesis using True ok by (simp add: appendParameterTuples_def deref_here raise_def)
    next
      case (Inr f')
      then have "list_all tuple_ok ts" by (rule append_tuples_ok)
      from moves_step [OF moves_appendParameterTuples [OF q this] at] show ?thesis .
    qed
  qed (use ok in \<open>simp add: appendParameterTuples_def dangling\<close>)
qed

lemma keeps_tag: "keeps fgs_ok (modify_fg k (\<lambda>f. f\<lparr>fg_startTag := v\<rparr>))"
proof (rule keepsI)
  fix w :: "'a fg_world_scheme" assume ok: "fgs_ok w"
  show "fgs_ok (snd (modify_fg k (\<lambda>f. f\<lparr>fg_startTag := v\<rparr>) w))"
  proof (cases "k < length (fw_fgs w)")
    case True
    then have at: "at_phase k (phase_of (fw_fgs w ! k), fg_index (fw_fgs w ! k)) w" using ok by (simp add: at_phase_def view_def)
    have "moves k p (modify_fg k (\<lambda>f. f\<lparr>fg_startTag := v\<rparr>)) p" for p by (rule moves_tweak) (simp_all add: queue_ok_def)
    from moves_step [OF this at] show ?thesis .
  qed (use ok in \<open>simp add: modify_fg_def dangling\<close>)
qed

named_theorems keeps_fgs \<open>operations that keep the channels consistent\<close>

lemma keeps_base [keeps_fgs]:
  assumes "polite_slots env"
  shows "keeps fgs_ok (appendParameterSet env k ps)" "keeps fgs_ok (arm env k)"
    "keeps fgs_ok (fg_Reset env k)" "keeps fgs_ok (fg_irq_handler env k msi)" "keeps fgs_ok (ResetFailed env k)"
  by (rule keeps_step [OF assms]; rule fg_step.intros)+

lemma keeps_flush [keeps_fgs]: "keeps fgs_ok (flush k)"
proof (rule keepsI)
  fix w :: "'a fg_world_scheme" assume ok: "fgs_ok w"
  show "fgs_ok (snd (flush k w))"
  proof (cases "k < length (fw_fgs w)")
    case True
    then have at: "at_phase k (phase_of (fw_fgs w ! k), fg_index (fw_fgs w ! k)) w" using ok by (simp add: at_phase_def view_def)
    from moves_step [OF moves_flush at] show ?thesis .
  qed (use ok in \<open>simp add: flush_def dangling\<close>)
qed

lemma keeps_setStartTag [keeps_fgs]: "keeps fgs_ok (fg_setStartTag k v)"
  unfolding fg_setStartTag_def
  by (intro keeps_bnd keeps_thn keeps_throw_if keeps_leaves [OF leaves_deref] keeps_ret)
    (auto intro: keeps_tag keeps_ret)

lemma keeps_for_active [keeps_fgs]: "(\<And>k. keeps fgs_ok (body k)) \<Longrightarrow> keeps fgs_ok (for_active body ks msg)"
  by (induction ks arbitrary: msg)
    (auto simp: keeps_ret intro!: keeps_bnd [OF keeps_leaves [OF leaves_deref]] keeps_bnd [OF keeps_noting])

lemma keeps_append_sets: "polite_slots env \<Longrightarrow> keeps fgs_ok (append_sets env xs low)"
  by (induction env xs low rule: append_sets.induct) (auto intro: keeps_bnd keeps_base)

lemma keeps_append_from_map: "polite_slots env \<Longrightarrow> keeps fgs_ok (append_from_map env m bp i ks)"
  by (induction env m bp i ks rule: append_from_map.induct)
    (auto split: option.split intro: keeps_thn keeps_bnd keeps_appendParameterTuples)

lemma leaves_deref_master: "leaves_fgs deref_master"
  unfolding deref_master_def by (auto intro!: leaves_rules split: option.split)

lemma leaves_modify_master: "leaves_fgs (modify_master h)"
  by (simp add: leaves_fgs_def modify_master_def modify_def)

lemma keeps_master: "(\<And>m. keeps fgs_ok (g m)) \<Longrightarrow> keeps fgs_ok (bnd deref_master g)"
  by (rule keeps_bnd [OF keeps_leaves [OF leaves_deref_master]])

lemma keeps_owner: "keeps fgs_ok n \<Longrightarrow> keeps fgs_ok (thn (ownerOnly o') n)"
  by (rule keeps_thn [OF keeps_leaves [OF ownerOnly_leaves]])

section \<open>Histories of the drivers\<close>

text \<open>
  Calls of the clients on the master and on the single channels, the loss of an owner, messages of
  the microcontroller, and timeouts.
\<close>

inductive driver_step :: "'z driver_env \<Rightarrow> 'z fg_drivers_scheme \<Rightarrow> 'z fg_drivers_scheme \<Rightarrow> bool" for env where
  channel_append: "driver_step env w (snd (fn_AppendParameterSet env n ps w))"
| channel_flush: "driver_step env w (snd (fn_Flush n w))"
| channel_arm: "driver_step env w (snd (fn_Arm env n w))"
| channel_abort: "driver_step env w (snd (fn_Abort env n w))"
| channel_quit: "driver_step env w (snd (fn_ownerQuit env n w))"
| channel_tag: "driver_step env w (snd (fn_setStartTag n val w))"
| master_append: "driver_step env w (snd (AppendParameterSets env s w))"
| master_append_shm: "driver_step env w (snd (AppendParameterTuplesForBeamProcess env bp w))"
| master_shm: "driver_step env w (snd (InitializeSharedMemory opened w))"
| master_flush: "driver_step env w (snd (master_Flush w))"
| master_arm: "driver_step env w (snd (master_Arm env w))"
| master_abort: "driver_step env w (snd (master_Abort env w))"
| master_quit: "driver_step env w (snd (master_ownerQuit env w))"
| master_tag: "driver_step env w (snd (master_setStartTag val w))"
| master_individual: "driver_step env w (snd (setGenerateIndividualSignals b w))"
| master_active: "driver_step env w (snd (SetActiveFunctionGenerators names w))"
| master_reset_active: "driver_step env w (snd (ResetActiveFunctionGenerators w))"
| message: "driver_step env w (snd (fg_irq_handler env k msi w))"
| timeout: "driver_step env w (snd (ResetFailed env k w))"

lemma keeps_channel_ops [keeps_fgs]:
  assumes q: "polite_slots env"
  shows "keeps fgs_ok (fn_AppendParameterSet env n ps)" "keeps fgs_ok (fn_Flush n)" "keeps fgs_ok (fn_Arm env n)"
    "keeps fgs_ok (fn_Abort env n)" "keeps fgs_ok (fn_ownerQuit env n)" "keeps fgs_ok (fn_setStartTag n val)"
  by (simp_all add: fn_AppendParameterSet_def fn_Flush_def fn_Arm_def fn_Abort_def fn_Reset_def fn_ownerQuit_def
      fn_setStartTag_def keeps_owner keeps_base [OF q] keeps_flush keeps_setStartTag)

lemma keeps_reset_all: "polite_slots env \<Longrightarrow> keeps fgs_ok (reset_all env)"
  unfolding reset_all_def by (intro keeps_master keeps_for_each keeps_base)

lemma keeps_raise_noted: "keeps P (raise_noted msg)"
  unfolding raise_noted_def by (rule keeps_throw_if)

lemma keeps_master_ops [keeps_fgs]:
  assumes q: "polite_slots env"
  shows "keeps fgs_ok (AppendParameterSets env s)" "keeps fgs_ok (AppendParameterTuplesForBeamProcess env bp)"
    "keeps fgs_ok master_Flush" "keeps fgs_ok (master_Arm env)" "keeps fgs_ok (master_Abort env)"
    "keeps fgs_ok (master_ownerQuit env)"
proof -
  have a: "keeps fgs_ok (arm_if_filled env k)" for k
    unfolding arm_if_filled_def by (intro keeps_bnd keeps_leaves [OF leaves_deref]) (auto intro: keeps_base [OF q] keeps_ret)
  show "keeps fgs_ok (AppendParameterSets env s)"
    unfolding AppendParameterSets_def
    by (intro keeps_master keeps_owner)
      (auto split: option.split intro: keeps_thn keeps_throw_if keeps_append_sets [OF q] keeps_raise)
  show "keeps fgs_ok (AppendParameterTuplesForBeamProcess env bp)"
    unfolding AppendParameterTuplesForBeamProcess_def
    by (intro keeps_master) (auto split: option.split intro: keeps_thn keeps_throw_if keeps_append_from_map [OF q] keeps_raise)
  show "keeps fgs_ok master_Flush"
    unfolding master_Flush_def
    by (intro keeps_master keeps_owner keeps_bnd keeps_for_active keeps_flush keeps_raise_noted)
  show "keeps fgs_ok (master_Arm env)"
    unfolding master_Arm_def arm_all_def
    by (intro keeps_master keeps_owner keeps_bnd keeps_for_active a keeps_raise_noted)
  show "keeps fgs_ok (master_Abort env)"
    unfolding master_Abort_def by (intro keeps_master keeps_owner keeps_reset_all [OF q])
  show "keeps fgs_ok (master_ownerQuit env)"
    unfolding master_ownerQuit_def by (intro keeps_thn keeps_reset_all [OF q] keeps_leaves leaves_modify_master)
qed

lemma keeps_master_settings [keeps_fgs]:
  "keeps fgs_ok (master_setStartTag val)" "keeps fgs_ok (setGenerateIndividualSignals b)"
  "keeps fgs_ok (SetActiveFunctionGenerators names)" "keeps fgs_ok ResetActiveFunctionGenerators"
  "keeps fgs_ok (InitializeSharedMemory opened)"
proof -
  show "keeps fgs_ok (InitializeSharedMemory opened)"
    unfolding InitializeSharedMemory_def
    by (cases opened) (auto intro!: keeps_leaves leaves_rules leaves_modify_master)
  show "keeps fgs_ok (master_setStartTag val)"
    unfolding master_setStartTag_def
  proof (intro keeps_master keeps_owner keeps_thn keeps_for_each)
    show "keeps fgs_ok (bnd (deref_fg k) (\<lambda>f. throw_if (fg_enabled f) (invalid_args ''FG Enabled, cannot set StartTag'')))" for k
      by (intro keeps_leaves leaves_bnd leaves_deref leaves_throw_if)
    show "keeps fgs_ok (if val \<noteq> ma_startTag m then thn (modify_master (\<lambda>m. m\<lparr>ma_startTag := val\<rparr>))
        (for_each (\<lambda>k. modify_fg k (\<lambda>f. f\<lparr>fg_startTag := val\<rparr>)) (ma_active m)) else ret ())" for m
      by (simp add: keeps_ret keeps_thn keeps_for_each keeps_tag keeps_leaves leaves_modify_master)
  qed
  show "keeps fgs_ok (setGenerateIndividualSignals b)"
    unfolding setGenerateIndividualSignals_def by (intro keeps_leaves leaves_modify_master)
  show "keeps fgs_ok (SetActiveFunctionGenerators names)"
    unfolding SetActiveFunctionGenerators_def Let_def
    by (intro keeps_leaves leaves_rules leaves_deref_master ownerOnly_leaves leaves_modify_master)
  show "keeps fgs_ok ResetActiveFunctionGenerators"
    unfolding ResetActiveFunctionGenerators_def
    by (intro keeps_leaves leaves_rules leaves_deref_master ownerOnly_leaves leaves_modify_master)
qed

lemma driver_step_ok:
  assumes c: "connected_drivers env" and s: "driver_step env w w'" and ok: "fgs_ok w"
  shows "fgs_ok w'"
  using s by cases (auto intro: keepsD [where P = fgs_ok] keeps_fgs drivers_polite [OF c] ok)

lemma driver_steps_ok: "(driver_step env)\<^sup>*\<^sup>* w w' \<Longrightarrow> connected_drivers env \<Longrightarrow> fgs_ok w \<Longrightarrow> fgs_ok w'"
  by (induction rule: rtranclp_induct) (auto intro: driver_step_ok)

section \<open>A scan establishes the invariant\<close>

definition fresh :: "fg \<Rightarrow> bool" where
  "fresh f \<longleftrightarrow> fg_channel f = None \<and> \<not> fg_enabled f \<and> \<not> fg_armed f \<and> \<not> fg_running f \<and> fg_fifo f = [] \<and>
     fg_fillLevel f = 0 \<and> fg_filled f = 0 \<and> 0 < fg_capacity f \<and> fg_index f < 256"

definition all_fresh :: "'z fg_world_scheme \<Rightarrow> bool" where
  "all_fresh w \<longleftrightarrow> list_all fresh (fw_fgs w) \<and> list_all (\<lambda>a. a = - 1) (fw_alloc w)"

lemma all_fresh_ok:
  assumes "all_fresh w" shows "fgs_ok w"
proof -
  have f: "fresh (fw_fgs w ! k)" if "k < length (fw_fgs w)" for k using assms that by (simp add: all_fresh_def list_all_length)
  have "alloc_ok (fw_alloc w) (map holder (fw_fgs w))"
    unfolding alloc_ok_def
  proof (intro conjI allI impI)
    fix k assume "k < length (map holder (fw_fgs w))"
    then show "snd (map holder (fw_fgs w) ! k) \<noteq> - 1" using f [of k] by (auto simp: holder_def fresh_def)
  qed (use f assms in \<open>auto simp: holder_def fresh_def all_fresh_def list_all_length\<close>)
  with assms show ?thesis
    by (auto simp: fgs_ok_def all_fresh_def list_all_iff fresh_def flags_ok_def queue_ok_def)
qed

definition no_fgs :: "'z fg_world_scheme \<Rightarrow> bool" where
  "no_fgs w \<longleftrightarrow> fw_fgs w = [] \<and> fw_alloc w = []"

text \<open>Registering an interrupt does not touch the channels.\<close>

definition quiet_irq :: "'z host_env \<Rightarrow> bool" where
  "quiet_irq env \<longleftrightarrow> leaves_fgs (se_irq env)"

definition same_fgs :: "('z fg_world_scheme, 'a) op \<Rightarrow> bool" where
  "same_fgs m \<longleftrightarrow> (\<forall>w. fw_fgs (snd (m w)) = fw_fgs w \<and> fw_alloc (snd (m w)) = fw_alloc w)"

lemma same_leaves: "leaves_fgs m \<Longrightarrow> same_fgs m" by (simp add: leaves_fgs_def same_fgs_def)

lemma same_rules: "same_fgs (ret x)" "same_fgs (raise e)" "same_fgs (gets h)" "same_fgs (throw_if b e)"
  "same_fgs (fg_cycle hw ops)"
  by (simp_all add: same_fgs_def op_simps fg_cycle_def close_cycle_def split: option.split)

lemma same_bnd: "same_fgs m \<Longrightarrow> (\<And>x. same_fgs (g x)) \<Longrightarrow> same_fgs (bnd m g)"
  by (auto simp: same_fgs_def bnd_def split: prod.splits sum.splits) (metis snd_conv)+

lemma same_thn: "same_fgs m \<Longrightarrow> same_fgs n \<Longrightarrow> same_fgs (thn m n)"
  unfolding thn_def by (rule same_bnd)

lemma same_UseSlot: "same_fgs (UseSlot env s v)"
  unfolding UseSlot_def by (intro same_bnd same_rules)

lemma same_configure: "same_fgs (configure_slot_from env slot left a)"
  by (induction env slot left a rule: configure_slot_from.induct) (auto intro!: same_bnd same_rules)

lemma same_for_each: "(\<And>x. same_fgs (h x)) \<Longrightarrow> same_fgs (for_each h xs)"
  by (induction xs) (simp_all add: same_rules same_thn)

lemma same_destroy: "same_fgs (destroy_fg env k)"
  unfolding destroy_fg_def FreeSlot_def
  by (auto intro!: same_bnd same_thn same_rules same_leaves [OF leaves_deref] split: option.split)
    (simp add: same_fgs_def modify_def remove_timeout_def)

lemma same_wait: "same_fgs (wait_scan n env fw)"
  by (induction n env fw rule: wait_scan.induct) (auto intro!: same_bnd same_rules)

lemma same_triple:
  assumes "same_fgs m" "\<And>w w'. fw_fgs w' = fw_fgs w \<Longrightarrow> fw_alloc w' = fw_alloc w \<Longrightarrow> P w \<Longrightarrow> P w'"
  shows "triple P m (\<lambda>_. P) (\<lambda>_. True)"
  unfolding triple_def
proof (intro allI impI)
  fix w assume w: "P w"
  obtain r w' where r: "m w = (r, w')" by fastforce
  then have "fw_fgs w' = fw_fgs w" "fw_alloc w' = fw_alloc w" using assms(1) unfolding same_fgs_def by (metis snd_conv)+
  then have "P w'" using assms(2) w by blast
  then show "case m w of (Inl _, w') \<Rightarrow> True | (Inr x, w') \<Rightarrow> P w'" by (simp add: r split: sum.split)
qed

lemma same_remove: "same_fgs (remove_object p)"
  unfolding same_fgs_def
proof
  fix w :: "'a fg_world_scheme"
  obtain r w' where r: "remove_object p w = (r, w')" by fastforce
  show "fw_fgs (snd (remove_object p w)) = fw_fgs w \<and> fw_alloc (snd (remove_object p w)) = fw_alloc w"
  proof (cases r)
    case (Inl e) then show ?thesis using r remove_object_Inl by fastforce
  next
    case (Inr b)
    then obtain i where "w' = erase_object p i w" using r by (auto simp: remove_object_Inr)
    then show ?thesis by (simp add: r erase_object_def)
  qed
qed

lemma same_create: "same_fgs (create_object p s)"
  by (simp add: same_fgs_def create_object_cases split: option.split)

text \<open>Whatever the removal of the objects throws, the channels are gone.\<close>

lemma clear_drops:
  fixes w :: "'a fg_host_scheme"
  assumes "clear_drivers env w = (Inr (), w')"
  shows "no_fgs w'"
proof -
  have rm: "same_fgs (remove_paths ps)" for ps
    unfolding remove_paths_def by (intro same_for_each same_bnd same_remove same_rules)
  have dd: "in_destructor m w1 = (Inl e, w2) \<Longrightarrow> \<not> catchable e" for m :: "('b, unit) op" and w1 e w2
    by (auto simp: in_destructor_def split: prod.splits sum.splits if_splits)
  have fe: "for_each (\<lambda>x. in_destructor (m x)) xs w1 = (Inl e, w2) \<Longrightarrow> \<not> catchable e" for m :: "'c \<Rightarrow> ('b, unit) op" and xs w1 e w2
    by (induction xs arbitrary: w1) (auto simp: op_simps split: prod.splits sum.splits dest: dd)
  have d: "(case destroy_drivers env w1 of (Inl e, w2) \<Rightarrow> \<not> catchable e | (Inr _, w2) \<Rightarrow> no_fgs w2)" for w1
    by (auto simp: no_fgs_def destroy_drivers_def thn_def gets_def modify_def bnd_def split: prod.splits sum.splits dest: fe)
  let ?names = "map (fn_path \<circ> snd) (dw_fgs w)" and ?mfg = "case dw_master w of None \<Rightarrow> [] | Some m \<Rightarrow> ma_path m"
  define rest :: "('a, unit) host_op" where "rest = (if se_container env
    then thn (remove_paths ?names) (if ?mfg \<noteq> [] then remove_paths [?mfg] else ret ()) else ret ())"
  have s: "same_fgs rest" unfolding rest_def by (auto intro!: same_thn rm same_rules)
  have eq: "clear_drivers env w = try_catch (thn (destroy_drivers env) rest) (\<lambda>_. ret ()) w"
    by (simp add: clear_drivers_def try_catch_def bnd_def [of "gets _"] gets_def rest_def)
  obtain r w2 where r: "destroy_drivers env w = (r, w2)" by fastforce
  show ?thesis
  proof (cases r)
    case (Inl e)
    then show ?thesis using d [of w] assms by (simp add: eq r try_catch_def thn_def bnd_def)
  next
    case (Inr u)
    obtain r3 w3 where r3: "rest w2 = (r3, w3)" by fastforce
    have "no_fgs w2" using d [of w] by (simp add: r Inr)
    moreover have "fw_fgs (snd (rest w2)) = fw_fgs w2" "fw_alloc (snd (rest w2)) = fw_alloc w2"
      using s unfolding same_fgs_def by blast+
    ultimately have "no_fgs w3" by (simp add: r3 no_fgs_def)
    moreover have "w' = w3" using assms by (cases r3) (simp_all add: eq r Inr r3 try_catch_def thn_def bnd_def ret_def split: if_splits)
    ultimately show ?thesis by simp
  qed
qed

text \<open>Constructed channels are fresh, whatever happens between two of them.\<close>

lemma new_fg_fresh: "0 < cap \<Longrightarrow> j < 256 \<Longrightarrow> fresh (new_fg fgb mb n b (of_nat j) macro slot cap)"
  by (simp add: fresh_def new_fg_def word_less_nat_alt unat_u32_of_nat)

lemma triple_stateless:
  "same_fgs m \<Longrightarrow> triple all_fresh m (\<lambda>_. all_fresh) (\<lambda>_. True)"
  by (rule same_triple) (simp_all add: all_fresh_def)

lemma triple_no_fgs: "same_fgs m \<Longrightarrow> triple no_fgs m (\<lambda>_. no_fgs) (\<lambda>_. True)"
  by (rule same_triple) (simp_all add: no_fgs_def)

lemma construct_fresh:
  assumes q: "quiet_irq env" and c: "0 < se_capacity env" and j: "j < 256"
  shows "triple all_fresh (construct_fg env cfg j macro) (\<lambda>_. all_fresh) (\<lambda>_. True)"
proof -
  obtain mb n b where cfg: "cfg = (mb, n, b)" by (cases cfg)
  have irq: "same_fgs (se_irq env)" using q same_leaves by (simp add: quiet_irq_def)
  have cs: "same_fgs (ConfigureSlot (se_fg env) a)" for a unfolding ConfigureSlot_def by (rule same_configure)
  show ?thesis unfolding construct_fg_def cfg prod.case
    by (intro triple_bnd [OF triple_stateless] irq cs same_rules triple_thn [OF triple_modify] triple_ret)
      (simp_all add: all_fresh_def new_fg_fresh [OF c j])
qed

lemma construct_all_fresh:
  assumes q: "quiet_irq env" and c: "0 < se_capacity env" and j: "\<forall>p \<in> set jms. fst p < 256"
  shows "triple all_fresh (construct_all env cfg jms) (\<lambda>_. all_fresh) (\<lambda>_. True)"
  using j
proof (induction jms)
  case (Cons p jms)
  obtain j m where p: "p = (j, m)" by (cases p)
  have ih: "triple all_fresh (construct_all env cfg jms) (\<lambda>_. all_fresh) (\<lambda>_. True)" using Cons by simp
  have "triple all_fresh (bnd (construct_fg env cfg j m) (\<lambda>k. bnd (construct_all env cfg jms) (\<lambda>ks. ret (k # ks))))
      (\<lambda>_. all_fresh) (\<lambda>_. True)"
    by (rule triple_bnd [OF construct_fresh [OF q c]], use Cons p in simp, rule triple_bnd [OF ih], rule triple_ret)
  with ih show ?case by (simp add: p)
qed (simp add: triple_ret)

lemma read_configuration_fresh:
  "triple no_fgs (read_configuration env) (\<lambda>_. all_fresh) (\<lambda>_. True)"
proof -
  have rescan: "same_fgs (firmware_rescan env slot)" for slot
    unfolding firmware_rescan_def by (intro same_bnd same_thn same_rules same_UseSlot same_wait)
  show ?thesis unfolding read_configuration_def Let_def
    by (rule triple_bnd [OF triple_no_fgs [OF same_rules(3)]], rule triple_bnd [OF triple_no_fgs [OF same_rules(5)]],
        rule triple_thn [OF triple_no_fgs [OF same_rules(4)]], rule triple_thn [OF triple_no_fgs [OF rescan]],
        rule triple_bnd [OF triple_no_fgs [OF same_rules(5)]], rule triple_thn [OF triple_modify [where Q = "\<lambda>_. all_fresh"]],
        simp add: no_fgs_def all_fresh_def list_all_iff, rule triple_thn [OF triple_stateless],
        intro same_for_each same_UseSlot, rule triple_ret)
qed

lemma triple_clear: "triple (\<lambda>_. True) (clear_drivers env) (\<lambda>_. no_fgs) (\<lambda>_. True)"
  by (auto simp: triple_def split: prod.splits sum.splits dest: clear_drops)

lemma no_fgs_fresh: "no_fgs w \<Longrightarrow> all_fresh w"
  by (simp add: no_fgs_def all_fresh_def)

lemma triple_any: "triple (\<lambda>_. True) m (\<lambda>_ _. True) (\<lambda>_. True)"
  by (simp add: triple_def split: prod.split sum.split)

lemma triple_split: "(\<And>a b c d. triple P (g a b c d) Q E) \<Longrightarrow> triple P (case x of (a, b, c, d) \<Rightarrow> g a b c d) Q E"
  by (simp split: prod.split)

lemma triple_if: "triple P m Q E \<Longrightarrow> triple P n Q E \<Longrightarrow> triple P (if b then m else n) Q E" by simp

lemma triple_catch: "triple P m Q (\<lambda>_. True) \<Longrightarrow> (\<And>e w x w'. h e w \<noteq> (Inr x, w')) \<Longrightarrow> triple P (try_catch m h) Q (\<lambda>_. True)"
  by (fastforce simp: triple_def try_catch_def split: prod.splits sum.splits)

lemma ScanMasterFg_fresh:
  assumes q: "quiet_irq env" and c: "0 < se_capacity env"
  shows "triple (\<lambda>_. True) (ScanMasterFg env) (\<lambda>_. all_fresh) (\<lambda>_. True)"
proof -
  have j: "\<forall>p \<in> set (zip [0..<FG_MACROS_SIZE] ms). fst p < 256" for ms :: "u32 list"
    by (auto simp: FG_MACROS_SIZE_def dest: set_zip_leftD)
  have raises: "thn (drop_channels env) (raise e) w \<noteq> (Inr x, w')" for e w and x :: "nat list" and w'
    by (simp add: op_simps split: prod.split sum.split)
  have m: "same_fgs (modify_master f)" "same_fgs (modify (\<lambda>w. w\<lparr>dw_master := mo\<rparr>))" "same_fgs (set_addon a b)" for f mo a b
    by (simp_all add: same_fgs_def modify_master_def set_addon_def modify_def)
  have some: "same_fgs (thn (modify (\<lambda>w. w\<lparr>dw_master := mo\<rparr>)) (thn (if b then bnd (create_object p s) (\<lambda>i. modify_master (f i)) else ret ()) (ret r)))"
    for mo b p s f and r :: "(string \<times> string) list"
    by (auto intro!: same_thn same_bnd same_rules same_create m)
  show ?thesis unfolding ScanMasterFg_def Let_def
  proof (rule triple_thn [OF triple_any], rule triple_thn [OF triple_clear], rule triple_bnd [OF triple_no_fgs [OF same_rules(3)]])
    fix fw :: firmware
    show "triple no_fgs (bnd (if ff_have fw
          then bnd (read_configuration env) (\<lambda>(mb_slot, num_channels, buffer_size, macros).
               bnd (try_catch (construct_all env (mb_slot, num_channels, buffer_size) (zip [0..<FG_MACROS_SIZE] macros))
                     (\<lambda>e. thn (drop_channels env) (raise e))) (\<lambda>ks.
               thn (modify (\<lambda>w. w\<lparr>dw_master := Some (new_master (se_container env) (ff_path fw @ ''/masterfg'') ks (se_tag env) (se_pointer env))\<rparr>))
              (thn (if se_container env
                    then bnd (create_object (ff_path fw @ ''/masterfg'') (se_master_service env)) (\<lambda>i.
                         modify_master (\<lambda>m. m\<lparr>ma_owned := set_service i (ma_owned m)\<rparr>))
                    else ret ())
                   (ret [(''masterfg'', ff_path fw @ ''/masterfg'')]))))
          else ret []) (\<lambda>result. thn (set_addon ''MasterFunctionGenerator'' result) (ret result)))
       (\<lambda>_. all_fresh) (\<lambda>_. True)"
      by (intro triple_bnd [where Q = "\<lambda>_. all_fresh"] triple_if triple_bnd [OF read_configuration_fresh] triple_split
          triple_bnd [OF triple_catch [OF construct_all_fresh [OF q c j]]] raises triple_stateless some same_thn m same_rules)
        (simp_all add: triple_ret no_fgs_fresh)
  qed
qed

end
