(* ===== verification/Function_Generator_Claims.thy ===== *)
theory Function_Generator_Claims
  imports Function_Generator_Properties Function_Generator_Drivers Container_Cleanup
begin

text \<open>
  The properties of the driver objects of the function generators: consistency from the first scan
  on, the signals of the master, and what the calls do when a part of them fails.
\<close>

section \<open>Instances\<close>

text \<open>
  A host with the firmware on one microcontroller: two channels, buffers of four tuples, macros at
  the positions 0 and 1. Every other word is 0.
\<close>

definition host_memory :: hardware where
  "host_memory = \<lparr>hw_answer = (\<lambda>log a.
     if a = 0x2500 + FG_NUM_CHANNELS then 2 else if a = 0x2500 + FG_BUFFER_SIZE then 4
     else if a = 0x2500 + FG_MACROS then 0x01020304 else if a = 0x2500 + FG_MACROS + 4 then 0x01030304
     else if a = 0x1000 then 0xffffffff else 0), hw_failure = (\<lambda>_ _. None)\<rparr>"

definition host_fg_env :: "'z driver_env" where
  "host_fg_env = \<lparr>fe_hw = host_memory, fe_mailbox = 0x1000, fe_clock = ret 7, fe_notify = driver_slots\<rparr>"


definition host_firmware :: firmware where
  "host_firmware = \<lparr>ff_path = ''/fw'', ff_fgb = 0x2000, ff_version = 4, ff_have = True, ff_addons = [],
     ff_owned = new_owned False\<rparr>"

definition host_world :: "int \<Rightarrow> fg_host" where
  "host_world caller = \<lparr>bs_objects = [], bs_lookup = [], bs_removed = [], bs_next_id = 1, bs_plugins = [],
     bs_info = [], bs_calling = caller, bs_clients = [], fw_log = [], fw_loop = new_loop 3 1 1, fw_time = 0,
     fw_rand = [3, 4, 5], fw_alloc = [], fw_fgs = [], fw_events = [], dw_master = None, dw_fgs = [], dw_signals = [],
     dh_firmware = host_firmware\<rparr>"

lemma host_connected: "connected_drivers host_fg_env"
  by (simp add: connected_drivers_def host_fg_env_def leaves_ret)


section \<open>The first scan\<close>































section \<open>Properties\<close>





text \<open>
  C12. When the microcontroller reports a generator as armed, the master sends its individual signal
  only if these are on, and then \<open>AllArmed\<close> exactly if every other active generator
  is armed or has nothing to play.
\<close>

theorem all_armed_is_exact:
  assumes "connected_drivers env" "fe_clock env = ret t" "dw_master w = Some m" "dw_fgs w = []"
    and "fgs_ok w" "k < length (fw_fgs w)" "k \<in> set (ma_all m)" "\<forall>j \<in> set (ma_active m). j < length (fw_fgs w)"
    and "phase_of (fw_fgs w ! k) = Waiting c"
  shows "\<exists>w'. fg_irq_handler env k IRQ_DAT_ARMED w = (Inr (), w') \<and>
    dw_signals w' = dw_signals w @ (if ma_individual m then [SigArmed (fg_GetName (fw_fgs w ! k)) True] else [])
      @ (if \<forall>j \<in> set (ma_active m). j = k \<or> fg_armed (fw_fgs w ! j) \<or> fg_fillLevel (fw_fgs w ! j) = 0 then [AllArmed] else [])"
proof -
  let ?f = "fw_fgs w ! k"
  have r: "reads (Waiting c, fg_index ?f) ?f"
    using at_phase_reads [of k "(Waiting c, fg_index ?f)" w] assms(5,6,9) by (simp add: at_phase_def view_def)
  let ?w1 = "w\<lparr>fw_fgs := (fw_fgs w)[k := ?f\<lparr>fg_armed := True\<rparr>]\<rparr>"
  let ?w2 = "?w1\<lparr>fw_events := fw_events w @ [(k, FgArmed True)]\<rparr>"
  have col: "collect h ks w2 = (Inr (map (\<lambda>j. h (fw_fgs w2 ! j)) ks), w2)" if "\<forall>j \<in> set ks. j < length (fw_fgs w2)"
    for h :: "fg \<Rightarrow> bool" and ks and w2 :: "'a fg_drivers_scheme"
    using that by (induction ks) (simp_all add: op_simps deref_fg_def)
  have all: "list_all id (map (\<lambda>j. armed_or_inactive ((fw_fgs w)[k := ?f\<lparr>fg_armed := True\<rparr>] ! j)) (ma_active m)) \<longleftrightarrow>
     (\<forall>j \<in> set (ma_active m). j = k \<or> fg_armed (fw_fgs w ! j) \<or> fg_fillLevel (fw_fgs w ! j) = 0)"
    using assms(6) by (auto simp: list_all_iff armed_or_inactive_def nth_list_update)
  have "fg_irq_handler env k IRQ_DAT_ARMED w = fg_emit env k (FgArmed True) ?w1"
    using reads_waiting [OF r] assms(2,6)
    by (simp add: fg_irq_handler_def deref_here op_simps modify_fg_def deref_fg_def IRQ_DAT_ARMED_def IRQ_DAT_REFILL_def)
  also have "\<dots> = on_fg_armed m k True ?w2"
    using assms(1,3,4,7) by (simp add: fg_emit_def connected_drivers_def driver_slots_def op_simps split: prod.split)
  finally have eq: "fg_irq_handler env k IRQ_DAT_ARMED w = on_fg_armed m k True ?w2" .
  show ?thesis unfolding eq
    using assms(6,8) col [of "ma_active m" ?w2 armed_or_inactive] all
    by (auto simp: on_fg_armed_def op_simps deref_fg_def send_signal_def col fg_GetName_def nth_list_update)
qed


text \<open>The master of two generators, the first of them active; \<open>f\<close> and \<open>g\<close> are their states.\<close>

definition two_master :: master where
  "two_master = (new_master False ''/fw/masterfg'' [0, 1] 9 False)\<lparr>ma_active := [0]\<rparr>"

definition two_world :: "fg \<Rightarrow> fg \<Rightarrow> fg_host" where
  "two_world f g = (host_world 5)\<lparr>fw_fgs := [f, g], fw_alloc := [- 1, - 1], dw_master := Some two_master\<rparr>"

definition waiting_fg :: fg where
  "waiting_fg = (example_fg 3)\<lparr>fg_channel := Some 0, fg_enabled := True\<rparr>"

definition waiting_world :: fg_host where
  "waiting_world = (two_world waiting_fg (example_fg 4))\<lparr>fw_alloc := [3, - 1]\<rparr>"

lemma waiting_world_ok: "fgs_ok waiting_world"
proof -
  have "list_all flags_ok (fw_fgs waiting_world)" "list_all queue_ok (fw_fgs waiting_world)" by code_simp+
  moreover have "alloc_ok [3, - 1] [(Some 0, 3), (None, 4)]"
    by (auto simp: alloc_ok_def less_Suc_eq)
  moreover have "fw_alloc waiting_world = [3, - 1]" "map holder (fw_fgs waiting_world) = [(Some 0, 3), (None, 4)]"
    by code_simp+
  ultimately show ?thesis by (simp add: fgs_ok_def)
qed

theorem all_armed_is_exact_witness:
  "\<exists>w'. fg_irq_handler host_fg_env 0 IRQ_DAT_ARMED waiting_world = (Inr (), w') \<and> dw_signals w' = [AllArmed]"
proof -
  have m: "dw_master waiting_world = Some two_master" by (simp add: waiting_world_def two_world_def)
  have w: "dw_fgs waiting_world = []" "0 < length (fw_fgs waiting_world)"
    "0 \<in> set (ma_all two_master)" "\<forall>j \<in> set (ma_active two_master). j < length (fw_fgs waiting_world)"
    "phase_of (fw_fgs waiting_world ! 0) = Waiting 0" "\<not> ma_individual two_master" "ma_active two_master = [0]"
    "dw_signals waiting_world = []"
    by code_simp+
  have c: "fe_clock host_fg_env = ret 7" by (simp add: host_fg_env_def)
  from all_armed_is_exact [OF host_connected c m w(1) waiting_world_ok w(2-5)] show ?thesis
    by (simp add: w)
qed

text \<open>
  The guard of a scan looks at the active generators only: a generator that is running but was
  removed from the active ones does not stop a scan, which destroys it while it plays.
\<close>

theorem scan_ignores_inactive_generators:
  assumes "dw_fgs w = []" "dw_master w = Some m" "\<forall>j \<in> set (ma_active m). j < length (fw_fgs w) \<and> \<not> fg_running (fw_fgs w ! j)"
    and "k \<in> set (ma_all m)" "k < length (fw_fgs w)" "fg_running (fw_fgs w ! k)" "\<not> ow_cont (ff_owned (dh_firmware w))"
  shows "refuse_scan w = (Inr (), w)"
proof -
  have "collect fg_running ks w = (Inr (map (\<lambda>j. fg_running (fw_fgs w ! j)) ks), w)" if "\<forall>j \<in> set ks. j < length (fw_fgs w)" for ks
    using that by (induction ks) (simp_all add: op_simps deref_fg_def)
  then show ?thesis using assms
    by (simp add: refuse_scan_def ownerOnly_def with_service_def nothing_runs_def op_simps list_ex_iff)
qed

theorem scan_ignores_inactive_generators_witness:
  "refuse_scan (two_world (example_fg 3) ((example_fg 4)\<lparr>fg_channel := Some 0, fg_enabled := True, fg_running := True\<rparr>)) =
   (Inr (), two_world (example_fg 3) ((example_fg 4)\<lparr>fg_channel := Some 0, fg_enabled := True, fg_running := True\<rparr>))"
  by (rule scan_ignores_inactive_generators [where m = two_master and k = 1])
    (simp_all add: two_world_def host_world_def two_master_def new_master_def host_firmware_def new_owned_def example_fg_def new_fg_def)





text \<open>
  Setting the start tag to the value the master remembers does nothing, so that generators which
  became active after the tag was set keep their own tag although the call succeeds.
\<close>

theorem start_tag_is_not_repeated:
  assumes "dw_master w = Some m" "\<not> ow_cont (ma_owned m)" "ma_startTag m = val"
    and "\<forall>j \<in> set (ma_active m). j < length (fw_fgs w) \<and> \<not> fg_enabled (fw_fgs w ! j)"
  shows "master_setStartTag val w = (Inr (), w)"
proof -
  have "for_each (\<lambda>k. bnd (deref_fg k) (\<lambda>f. throw_if (fg_enabled f) e)) ks w = (Inr (), w)"
    if "\<forall>j \<in> set ks. j < length (fw_fgs w) \<and> \<not> fg_enabled (fw_fgs w ! j)" for ks e
    using that by (induction ks) (simp_all add: op_simps deref_fg_def)
  then show ?thesis using assms
    by (simp add: master_setStartTag_def deref_master_def ownerOnly_def with_service_def op_simps)
qed

theorem start_tag_is_not_repeated_witness:
  "master_setStartTag 9 (two_world (example_fg 3) (example_fg 4)) = (Inr (), two_world (example_fg 3) (example_fg 4)) \<and>
   fg_startTag (fw_fgs (two_world (example_fg 3) (example_fg 4)) ! 0) = 0"
proof (rule conjI [OF start_tag_is_not_repeated [where m = two_master]])
  show "fg_startTag (fw_fgs (two_world (example_fg 3) (example_fg 4)) ! 0) = 0" by code_simp
qed (simp_all add: two_world_def host_world_def two_master_def new_master_def new_owned_def example_fg_def new_fg_def)




end
