(* ===== verification/Io.thy ===== *)
theory Io
  imports ECA_Setup
begin

text \<open>
  The pins of a timing receiver (src/Io.cpp, src/io_control_regs.h): driving and reading a pin, and
  the switches of a pin, one bit each in the registers of the control unit. The registers of a
  switch come in fours: set and reset, each for the pins 0 to 31 and for the pins 32 to 63.
\<close>

section \<open>Registers\<close>

definition eGPIO_Info :: u64 where "eGPIO_Info = 0x0104"
definition eLVDS_Info :: u64 where "eLVDS_Info = 0x0108"
definition eFIXED_Info :: u64 where "eFIXED_Info = 0x010c"
definition eGPIO_Oe_Set_low :: u64 where "eGPIO_Oe_Set_low = 0x0200"
definition eGPIO_Oe_Set_high :: u64 where "eGPIO_Oe_Set_high = 0x0204"
definition eGPIO_Oe_Reset_low :: u64 where "eGPIO_Oe_Reset_low = 0x0208"
definition eGPIO_Oe_Reset_high :: u64 where "eGPIO_Oe_Reset_high = 0x020c"
definition eLVDS_Oe_Set_low :: u64 where "eLVDS_Oe_Set_low = 0x0300"
definition eLVDS_Oe_Set_high :: u64 where "eLVDS_Oe_Set_high = 0x0304"
definition eLVDS_Oe_Reset_low :: u64 where "eLVDS_Oe_Reset_low = 0x0308"
definition eLVDS_Oe_Reset_high :: u64 where "eLVDS_Oe_Reset_high = 0x030c"
definition eGPIO_Term_Set_low :: u64 where "eGPIO_Term_Set_low = 0x0400"
definition eGPIO_Term_Set_high :: u64 where "eGPIO_Term_Set_high = 0x0404"
definition eGPIO_Term_Reset_low :: u64 where "eGPIO_Term_Reset_low = 0x0408"
definition eGPIO_Term_Reset_high :: u64 where "eGPIO_Term_Reset_high = 0x040c"
definition eLVDS_Term_Set_low :: u64 where "eLVDS_Term_Set_low = 0x0500"
definition eLVDS_Term_Set_high :: u64 where "eLVDS_Term_Set_high = 0x0504"
definition eLVDS_Term_Reset_low :: u64 where "eLVDS_Term_Reset_low = 0x0508"
definition eLVDS_Term_Reset_high :: u64 where "eLVDS_Term_Reset_high = 0x050c"
definition eGPIO_Spec_In_Set_low :: u64 where "eGPIO_Spec_In_Set_low = 0x0600"
definition eGPIO_Spec_In_Set_high :: u64 where "eGPIO_Spec_In_Set_high = 0x0604"
definition eGPIO_Spec_In_Reset_low :: u64 where "eGPIO_Spec_In_Reset_low = 0x0608"
definition eGPIO_Spec_In_Reset_high :: u64 where "eGPIO_Spec_In_Reset_high = 0x060c"
definition eGPIO_Spec_Out_Set_low :: u64 where "eGPIO_Spec_Out_Set_low = 0x0700"
definition eGPIO_Spec_Out_Set_high :: u64 where "eGPIO_Spec_Out_Set_high = 0x0704"
definition eGPIO_Spec_Out_Reset_low :: u64 where "eGPIO_Spec_Out_Reset_low = 0x0708"
definition eGPIO_Spec_Out_Reset_high :: u64 where "eGPIO_Spec_Out_Reset_high = 0x070c"
definition eLVDS_Spec_In_Set_low :: u64 where "eLVDS_Spec_In_Set_low = 0x0800"
definition eLVDS_Spec_In_Set_high :: u64 where "eLVDS_Spec_In_Set_high = 0x0804"
definition eLVDS_Spec_In_Reset_low :: u64 where "eLVDS_Spec_In_Reset_low = 0x0808"
definition eLVDS_Spec_In_Reset_high :: u64 where "eLVDS_Spec_In_Reset_high = 0x080c"
definition eLVDS_Spec_Out_Set_low :: u64 where "eLVDS_Spec_Out_Set_low = 0x0900"
definition eLVDS_Spec_Out_Set_high :: u64 where "eLVDS_Spec_Out_Set_high = 0x0904"
definition eLVDS_Spec_Out_Reset_low :: u64 where "eLVDS_Spec_Out_Reset_low = 0x0908"
definition eLVDS_Spec_Out_Reset_high :: u64 where "eLVDS_Spec_Out_Reset_high = 0x090c"
definition eGPIO_Mux_Set_low :: u64 where "eGPIO_Mux_Set_low = 0x0a00"
definition eGPIO_Mux_Set_high :: u64 where "eGPIO_Mux_Set_high = 0x0a04"
definition eGPIO_Mux_Reset_low :: u64 where "eGPIO_Mux_Reset_low = 0x0a08"
definition eGPIO_Mux_Reset_high :: u64 where "eGPIO_Mux_Reset_high = 0x0a0c"
definition eLVDS_Mux_Set_low :: u64 where "eLVDS_Mux_Set_low = 0x0b00"
definition eLVDS_Mux_Set_high :: u64 where "eLVDS_Mux_Set_high = 0x0b04"
definition eLVDS_Mux_Reset_low :: u64 where "eLVDS_Mux_Reset_low = 0x0b08"
definition eLVDS_Mux_Reset_high :: u64 where "eLVDS_Mux_Reset_high = 0x0b0c"
definition eGPIO_Gate_In_Set_low :: u64 where "eGPIO_Gate_In_Set_low = 0x1000"
definition eGPIO_Gate_In_Set_high :: u64 where "eGPIO_Gate_In_Set_high = 0x1004"
definition eGPIO_Gate_In_Reset_low :: u64 where "eGPIO_Gate_In_Reset_low = 0x1008"
definition eGPIO_Gate_In_Reset_high :: u64 where "eGPIO_Gate_In_Reset_high = 0x100c"
definition eLVDS_Gate_In_Set_low :: u64 where "eLVDS_Gate_In_Set_low = 0x2000"
definition eLVDS_Gate_In_Set_high :: u64 where "eLVDS_Gate_In_Set_high = 0x2004"
definition eLVDS_Gate_In_Reset_low :: u64 where "eLVDS_Gate_In_Reset_low = 0x2008"
definition eLVDS_Gate_In_Reset_high :: u64 where "eLVDS_Gate_In_Reset_high = 0x200c"
definition eGPIO_Gate_Out_Set_low :: u64 where "eGPIO_Gate_Out_Set_low = 0x3000"
definition eGPIO_Gate_Out_Set_high :: u64 where "eGPIO_Gate_Out_Set_high = 0x3004"
definition eGPIO_Gate_Out_Reset_low :: u64 where "eGPIO_Gate_Out_Reset_low = 0x3008"
definition eGPIO_Gate_Out_Reset_high :: u64 where "eGPIO_Gate_Out_Reset_high = 0x300c"
definition eLVDS_Gate_Out_Set_low :: u64 where "eLVDS_Gate_Out_Set_low = 0x4000"
definition eLVDS_Gate_Out_Set_high :: u64 where "eLVDS_Gate_Out_Set_high = 0x4004"
definition eLVDS_Gate_Out_Reset_low :: u64 where "eLVDS_Gate_Out_Reset_low = 0x4008"
definition eLVDS_Gate_Out_Reset_high :: u64 where "eLVDS_Gate_Out_Reset_high = 0x400c"
definition eSet_GPIO_Out_Begin :: u64 where "eSet_GPIO_Out_Begin = 0xa000"
definition eSet_LVDS_Out_Begin :: u64 where "eSet_LVDS_Out_Begin = 0xb000"
definition eGet_GPIO_In_Begin :: u64 where "eGet_GPIO_In_Begin = 0xc000"
definition eGet_LVDS_In_Begin :: u64 where "eGet_LVDS_In_Begin = 0xd000"
definition eGPIO_PPS_Mux_Set_low :: u64 where "eGPIO_PPS_Mux_Set_low = 0x0e00"
definition eGPIO_PPS_Mux_Set_high :: u64 where "eGPIO_PPS_Mux_Set_high = 0x0e04"
definition eGPIO_PPS_Mux_Reset_low :: u64 where "eGPIO_PPS_Mux_Reset_low = 0x0e08"
definition eGPIO_PPS_Mux_Reset_high :: u64 where "eGPIO_PPS_Mux_Reset_high = 0x0e0c"
definition eLVDS_PPS_Mux_Set_low :: u64 where "eLVDS_PPS_Mux_Set_low = 0x0f00"
definition eLVDS_PPS_Mux_Set_high :: u64 where "eLVDS_PPS_Mux_Set_high = 0x0f04"
definition eLVDS_PPS_Mux_Reset_low :: u64 where "eLVDS_PPS_Mux_Reset_low = 0x0f08"
definition eLVDS_PPS_Mux_Reset_high :: u64 where "eLVDS_PPS_Mux_Reset_high = 0x0f0c"
definition eIO_Map_Table_Begin :: u64 where "eIO_Map_Table_Begin = 0xe000"

definition IO_CFG_CHANNEL_GPIO :: u32 where "IO_CFG_CHANNEL_GPIO = 0"
definition IO_CFG_CHANNEL_LVDS :: u32 where "IO_CFG_CHANNEL_LVDS = 1"

definition IO_CFG_FIELD_DIR_OUTPUT :: u32 where "IO_CFG_FIELD_DIR_OUTPUT = 0"
definition IO_CFG_FIELD_DIR_INPUT :: u32 where "IO_CFG_FIELD_DIR_INPUT = 1"
definition IO_CFG_FIELD_DIR_INOUT :: u32 where "IO_CFG_FIELD_DIR_INOUT = 2"

definition IO_INFO_IN_COUNT_MASK :: u32 where "IO_INFO_IN_COUNT_MASK = 0x00ff0000"
definition IO_INFO_INOUT_COUNT_MASK :: u32 where "IO_INFO_INOUT_COUNT_MASK = 0x000000ff"
definition IO_INFO_IN_SHIFT :: nat where "IO_INFO_IN_SHIFT = 16"
definition IO_INFO_INOUT_SHIFT :: nat where "IO_INFO_INOUT_SHIFT = 0"

definition IO_LOGIC_LEVEL_TTL :: u32 where "IO_LOGIC_LEVEL_TTL = 0"
definition IO_LOGIC_LEVEL_LVTTL :: u32 where "IO_LOGIC_LEVEL_LVTTL = 1"
definition IO_LOGIC_LEVEL_LVDS :: u32 where "IO_LOGIC_LEVEL_LVDS = 2"
definition IO_LOGIC_LEVEL_NIM :: u32 where "IO_LOGIC_LEVEL_NIM = 3"
definition IO_LOGIC_LEVEL_CMOS :: u32 where "IO_LOGIC_LEVEL_CMOS = 4"
definition IO_SPECIAL_TTL_TO_NIM :: u32 where "IO_SPECIAL_TTL_TO_NIM = 1"

section \<open>State\<close>

text \<open>A pin does not change after its construction; the signal functions of a pin are never set.\<close>

record io =
  io_name :: string
  io_direction :: u32
  io_channel :: u32
  io_eca_in :: u32
  io_eca_out :: u32
  io_index :: u32
  io_special_purpose :: u32
  io_logic_level :: u32
  io_oe_available :: bool
  io_term_available :: bool
  io_spec_out_available :: bool
  io_spec_in_available :: bool
  io_control_addr :: u64

abbreviation unknown_channel :: exn where
  "unknown_channel \<equiv> invalid_args ''IO channel unknown!''"

text \<open>What is done for a pin of one of the two channels: \<open>None\<close> is any other channel.\<close>

definition by_channel :: "io \<Rightarrow> 'a \<Rightarrow> 'a \<Rightarrow> 'a option" where
  "by_channel io gpio lvds =
     (if io_channel io = IO_CFG_CHANNEL_GPIO then Some gpio
      else if io_channel io = IO_CFG_CHANNEL_LVDS then Some lvds else None)"

section \<open>Levels\<close>

definition pin_address :: "io \<Rightarrow> u64 \<Rightarrow> u64" where
  "pin_address io begin_address = io_control_addr io + begin_address + ucast (io_index io * 4)"

definition WriteOutput :: "hardware \<Rightarrow> io \<Rightarrow> bool \<Rightarrow> unit eca_op" where
  "WriteOutput hw io value =
     (case by_channel io (eSet_GPIO_Out_Begin, 0x01) (eSet_LVDS_Out_Begin, 0xff) of
        None \<Rightarrow> raise unknown_channel
      | Some (begin_address, high) \<Rightarrow>
          bnd (cycle hw [BusWrite (pin_address io begin_address) (if value then high else 0x00)]) (\<lambda>_. ret ()))"

definition read_pin :: "hardware \<Rightarrow> io \<Rightarrow> u64 \<Rightarrow> bool eca_op" where
  "read_pin hw io a = bnd (cycle hw [BusRead a]) (\<lambda>rs. ret (hd rs \<noteq> 0))"

definition ReadOutput :: "hardware \<Rightarrow> io \<Rightarrow> bool eca_op" where
  "ReadOutput hw io =
     (case by_channel io eSet_GPIO_Out_Begin eSet_LVDS_Out_Begin of
        None \<Rightarrow> raise unknown_channel
      | Some b \<Rightarrow> read_pin hw io (pin_address io b))"

definition ReadInput :: "hardware \<Rightarrow> io \<Rightarrow> bool eca_op" where
  "ReadInput hw io =
     (case by_channel io eGet_GPIO_In_Begin eGet_LVDS_In_Begin of
        None \<Rightarrow> raise unknown_channel
      | Some b \<Rightarrow> read_pin hw io (pin_address io b))"

text \<open>The combined outputs follow the inputs in the register area.\<close>

definition total_inputs :: "u32 \<Rightarrow> u32" where
  "total_inputs info =
     drop_bit IO_INFO_IN_SHIFT (info AND IO_INFO_IN_COUNT_MASK)
     + drop_bit IO_INFO_INOUT_SHIFT (info AND IO_INFO_INOUT_COUNT_MASK)"

definition ReadCombinedOutput :: "hardware \<Rightarrow> io \<Rightarrow> bool eca_op" where
  "ReadCombinedOutput hw io =
     (case by_channel io (eGPIO_Info, eGet_GPIO_In_Begin) (eLVDS_Info, eGet_LVDS_In_Begin) of
        None \<Rightarrow> raise unknown_channel
      | Some (info, b) \<Rightarrow>
          bnd (cycle hw [BusRead (io_control_addr io + info)]) (\<lambda>rs.
          read_pin hw io (io_control_addr io + b + ucast (total_inputs (hd rs) * 4) + ucast (io_index io * 4))))"

section \<open>Switches\<close>

text \<open>
  \<open>internal_id\<close> and \<open>access_position\<close>. The number of the bit is used as the distance of a shift of
  an \<open>int\<close>, which is undefined from 32 on.
\<close>

definition internal_id :: "io \<Rightarrow> u32" where
  "internal_id io = (if io_index io > 31 then io_index io - 31 else io_index io)"

definition access_position :: "io \<Rightarrow> nat" where
  "access_position io = (if io_index io > 31 then 1 else 0)"

definition shifted_one :: "u32 \<Rightarrow> u32 eca_op" where
  "shifted_one n = (if unat n < 32 then ret (push_bit (unat n) 1) else raise (Undefined ''1<<internal_id''))"

text \<open>The registers of a switch: set low, set high, reset low, reset high.\<close>

type_synonym switch_registers = "u64 \<times> u64 \<times> u64 \<times> u64"

fun set_register :: "nat \<Rightarrow> switch_registers \<Rightarrow> u64" where
  "set_register pos (set_low, set_high, reset_low, reset_high) = (if pos = 0 then set_low else set_high)"

fun reset_register :: "nat \<Rightarrow> switch_registers \<Rightarrow> u64" where
  "reset_register pos (set_low, set_high, reset_low, reset_high) = (if pos = 0 then reset_low else reset_high)"

text \<open>All switches are read in the same way, and all but one are written in the same way.\<close>

definition get_switch :: "hardware \<Rightarrow> io \<Rightarrow> switch_registers \<Rightarrow> switch_registers \<Rightarrow> bool eca_op" where
  "get_switch hw io gpio lvds =
     (case by_channel io gpio lvds of
        None \<Rightarrow> raise unknown_channel
      | Some regs \<Rightarrow>
          bnd (cycle hw [BusRead (io_control_addr io + set_register (access_position io) regs)]) (\<lambda>rs.
          bnd (shifted_one (internal_id io)) (\<lambda>mask.
          ret (drop_bit (unat (internal_id io)) (hd rs AND mask) \<noteq> 0))))"

definition set_switch :: "hardware \<Rightarrow> io \<Rightarrow> switch_registers \<Rightarrow> switch_registers \<Rightarrow> bool \<Rightarrow> unit eca_op" where
  "set_switch hw io gpio lvds val =
     (case by_channel io gpio lvds of
        None \<Rightarrow> bnd (cycle hw []) (\<lambda>_. ret ())
      | Some regs \<Rightarrow>
          bnd (shifted_one (internal_id io)) (\<lambda>mask.
          bnd (cycle hw [BusWrite (io_control_addr io
                 + (if val then set_register else reset_register) (access_position io) regs) mask]) (\<lambda>_.
          ret ())))"

text \<open>The tables of the switches.\<close>

definition oe_gpio :: switch_registers where
  "oe_gpio = (eGPIO_Oe_Set_low, eGPIO_Oe_Set_high, eGPIO_Oe_Reset_low, eGPIO_Oe_Reset_high)"

definition oe_lvds :: switch_registers where
  "oe_lvds = (eLVDS_Oe_Set_low, eLVDS_Oe_Set_high, eLVDS_Oe_Reset_low, eLVDS_Oe_Reset_high)"

definition termination_gpio :: switch_registers where
  "termination_gpio = (eGPIO_Term_Set_low, eGPIO_Term_Set_high, eGPIO_Term_Reset_low, eGPIO_Term_Reset_high)"

definition termination_lvds :: switch_registers where
  "termination_lvds = (eLVDS_Term_Set_low, eLVDS_Term_Set_high, eLVDS_Term_Reset_low, eLVDS_Term_Reset_high)"

definition special_in_gpio :: switch_registers where
  "special_in_gpio = (eGPIO_Spec_In_Set_low, eGPIO_Spec_In_Set_high, eGPIO_Spec_In_Reset_low, eGPIO_Spec_In_Reset_high)"

definition special_in_lvds :: switch_registers where
  "special_in_lvds = (eLVDS_Spec_In_Set_low, eLVDS_Spec_In_Set_high, eLVDS_Spec_In_Reset_low, eLVDS_Spec_In_Reset_high)"

definition special_out_gpio :: switch_registers where
  "special_out_gpio = (eGPIO_Spec_Out_Set_low, eGPIO_Spec_Out_Set_high, eGPIO_Spec_Out_Reset_low, eGPIO_Spec_Out_Reset_high)"

definition special_out_lvds :: switch_registers where
  "special_out_lvds = (eLVDS_Spec_Out_Set_low, eLVDS_Spec_Out_Set_high, eLVDS_Spec_Out_Reset_low, eLVDS_Spec_Out_Reset_high)"

definition butis_gpio :: switch_registers where
  "butis_gpio = (eGPIO_Mux_Set_low, eGPIO_Mux_Set_high, eGPIO_Mux_Reset_low, eGPIO_Mux_Reset_high)"

definition butis_lvds :: switch_registers where
  "butis_lvds = (eLVDS_Mux_Set_low, eLVDS_Mux_Set_high, eLVDS_Mux_Reset_low, eLVDS_Mux_Reset_high)"

definition gate_in_gpio :: switch_registers where
  "gate_in_gpio = (eGPIO_Gate_In_Set_low, eGPIO_Gate_In_Set_high, eGPIO_Gate_In_Reset_low, eGPIO_Gate_In_Reset_high)"

definition gate_in_lvds :: switch_registers where
  "gate_in_lvds = (eLVDS_Gate_In_Set_low, eLVDS_Gate_In_Set_high, eLVDS_Gate_In_Reset_low, eLVDS_Gate_In_Reset_high)"

definition gate_out_gpio :: switch_registers where
  "gate_out_gpio = (eGPIO_Gate_Out_Set_low, eGPIO_Gate_Out_Set_high, eGPIO_Gate_Out_Reset_low, eGPIO_Gate_Out_Reset_high)"

definition gate_out_lvds :: switch_registers where
  "gate_out_lvds = (eLVDS_Gate_Out_Set_low, eLVDS_Gate_Out_Set_high, eLVDS_Gate_Out_Reset_low, eLVDS_Gate_Out_Reset_high)"

definition pps_gpio :: switch_registers where
  "pps_gpio = (eGPIO_PPS_Mux_Set_low, eGPIO_PPS_Mux_Set_high, eGPIO_PPS_Mux_Reset_low, eGPIO_PPS_Mux_Reset_high)"

definition pps_lvds :: switch_registers where
  "pps_lvds = (eLVDS_PPS_Mux_Set_low, eLVDS_PPS_Mux_Set_high, eLVDS_PPS_Mux_Reset_low, eLVDS_PPS_Mux_Reset_high)"

definition getOutputEnable :: "hardware \<Rightarrow> io \<Rightarrow> bool eca_op" where
  "getOutputEnable hw io = get_switch hw io oe_gpio oe_lvds"

text \<open>The only switch that computes register and bit in another way.\<close>

definition setOutputEnable :: "hardware \<Rightarrow> io \<Rightarrow> bool \<Rightarrow> unit eca_op" where
  "setOutputEnable hw io val =
     (let id_low = io_index io mod 32; id_high = io_index io div 32; id_mask = push_bit (unat id_low) 1 in
      case by_channel io (if val then eGPIO_Oe_Set_low else eGPIO_Oe_Reset_low)
             (if val then eLVDS_Oe_Set_low else eLVDS_Oe_Reset_low) of
        None \<Rightarrow> raise unknown_channel
      | Some reg \<Rightarrow> device_write hw (io_control_addr io + reg + ucast (4 * id_high)) id_mask)"

definition getInputTermination :: "hardware \<Rightarrow> io \<Rightarrow> bool eca_op" where
  "getInputTermination hw io = get_switch hw io termination_gpio termination_lvds"

definition setInputTermination :: "hardware \<Rightarrow> io \<Rightarrow> bool \<Rightarrow> unit eca_op" where
  "setInputTermination hw io = set_switch hw io termination_gpio termination_lvds"

definition getSpecialPurposeOut :: "hardware \<Rightarrow> io \<Rightarrow> bool eca_op" where
  "getSpecialPurposeOut hw io = get_switch hw io special_out_gpio special_out_lvds"

definition setSpecialPurposeOut :: "hardware \<Rightarrow> io \<Rightarrow> bool \<Rightarrow> unit eca_op" where
  "setSpecialPurposeOut hw io = set_switch hw io special_out_gpio special_out_lvds"

definition getGateOut :: "hardware \<Rightarrow> io \<Rightarrow> bool eca_op" where
  "getGateOut hw io = get_switch hw io gate_out_gpio gate_out_lvds"

definition setGateOut :: "hardware \<Rightarrow> io \<Rightarrow> bool \<Rightarrow> unit eca_op" where
  "setGateOut hw io = set_switch hw io gate_out_gpio gate_out_lvds"

definition getSpecialPurposeIn :: "hardware \<Rightarrow> io \<Rightarrow> bool eca_op" where
  "getSpecialPurposeIn hw io = get_switch hw io special_in_gpio special_in_lvds"

definition setSpecialPurposeIn :: "hardware \<Rightarrow> io \<Rightarrow> bool \<Rightarrow> unit eca_op" where
  "setSpecialPurposeIn hw io = set_switch hw io special_in_gpio special_in_lvds"

definition getGateIn :: "hardware \<Rightarrow> io \<Rightarrow> bool eca_op" where
  "getGateIn hw io = get_switch hw io gate_in_gpio gate_in_lvds"

definition setGateIn :: "hardware \<Rightarrow> io \<Rightarrow> bool \<Rightarrow> unit eca_op" where
  "setGateIn hw io = set_switch hw io gate_in_gpio gate_in_lvds"

definition getBuTiSMultiplexer :: "hardware \<Rightarrow> io \<Rightarrow> bool eca_op" where
  "getBuTiSMultiplexer hw io = get_switch hw io butis_gpio butis_lvds"

definition setBuTiSMultiplexer :: "hardware \<Rightarrow> io \<Rightarrow> bool \<Rightarrow> unit eca_op" where
  "setBuTiSMultiplexer hw io = set_switch hw io butis_gpio butis_lvds"

definition getPPSMultiplexer :: "hardware \<Rightarrow> io \<Rightarrow> bool eca_op" where
  "getPPSMultiplexer hw io = get_switch hw io pps_gpio pps_lvds"

definition setPPSMultiplexer :: "hardware \<Rightarrow> io \<Rightarrow> bool \<Rightarrow> unit eca_op" where
  "setPPSMultiplexer hw io = set_switch hw io pps_gpio pps_lvds"

section \<open>Descriptions\<close>

text \<open>A level converter shows the other level while it is switched on; the reads are short-circuited.\<close>

definition converts :: "hardware \<Rightarrow> io \<Rightarrow> bool eca_op" where
  "converts hw io =
     bnd (if io_spec_out_available io then getSpecialPurposeOut hw io else ret False) (\<lambda>a.
     if a then ret True else if io_spec_in_available io then getSpecialPurposeIn hw io else ret False)"

definition convertible_level :: "hardware \<Rightarrow> io \<Rightarrow> string \<Rightarrow> string \<Rightarrow> string eca_op" where
  "convertible_level hw io level other =
     (if io_special_purpose io = IO_SPECIAL_TTL_TO_NIM
      then bnd (converts hw io) (\<lambda>c. ret (if c then other else level)) else ret level)"

definition getLogicLevel :: "hardware \<Rightarrow> io \<Rightarrow> string eca_op" where
  "getLogicLevel hw io =
     (if io_logic_level io = IO_LOGIC_LEVEL_TTL then convertible_level hw io ''TTL'' ''NIM''
      else if io_logic_level io = IO_LOGIC_LEVEL_LVTTL then ret ''LVTTL''
      else if io_logic_level io = IO_LOGIC_LEVEL_LVDS then ret ''LVDS''
      else if io_logic_level io = IO_LOGIC_LEVEL_NIM then convertible_level hw io ''NIM'' ''TTL''
      else if io_logic_level io = IO_LOGIC_LEVEL_CMOS then ret ''CMOS''
      else ret ''?'')"

definition getType :: "io \<Rightarrow> string eca_op" where
  "getType io =
     (case by_channel io ''8ns (GPIO)'' ''1ns (LVDS)'' of
        None \<Rightarrow> raise (invalid_args ''IO channel type unknown!'') | Some t \<Rightarrow> ret t)"

definition getResolution :: "io \<Rightarrow> u64 eca_op" where
  "getResolution io =
     (case by_channel io 8 1 of
        None \<Rightarrow> raise (invalid_args ''IO channel resolution unknown!'') | Some t \<Rightarrow> ret t)"

end
