(* ===== verification/Clock_Generator.thy ===== *)
theory Clock_Generator
  imports Complex_Main Io
begin

text \<open>
  The clock generator of the fast outputs (src/SerdesClockGen.cpp). Doubles are the rational numbers
  they stand for; every arithmetic operation rounds its exact result with \<open>rnd\<close>, the rounding of the
  machine. Infinities and NaN as arguments are outside of the model.
\<close>

definition IO_SER_CLK_GEN_BITS :: int where "IO_SER_CLK_GEN_BITS = 8"

definition eSCK_selr :: u64 where "eSCK_selr = 0x00"
definition eSCK_perr :: u64 where "eSCK_perr = 0x04"
definition eSCK_perhir :: u64 where "eSCK_perhir = 0x08"
definition eSCK_fracr :: u64 where "eSCK_fracr = 0x0c"
definition eSCK_normmaskr :: u64 where "eSCK_normmaskr = 0x10"
definition eSCK_skipmaskr :: u64 where "eSCK_skipmaskr = 0x14"
definition eSCK_phofslr :: u64 where "eSCK_phofslr = 0x18"
definition eSCK_phofshr :: u64 where "eSCK_phofshr = 0x1c"

record clock_control =
  cc_period_integer :: u32
  cc_period_high :: u32
  cc_period_fraction :: u32
  cc_normal :: u16
  cc_skip :: u16
  cc_phase_offset :: u64

section \<open>Conversions\<close>

text \<open>A conversion of a double whose value does not fit is undefined.\<close>

definition to_int :: "int \<Rightarrow> (exn + int)" where
  "to_int n = (if - (2 ^ 31) \<le> n \<and> n < 2 ^ 31 then Inr n else Inl (Undefined ''double to int''))"

definition to_uint32 :: "int \<Rightarrow> (exn + u32)" where
  "to_uint32 n = (if 0 \<le> n \<and> n < 2 ^ 32 then Inr (of_int n) else Inl (Undefined ''double to uint32_t''))"

text \<open>\<open>round\<close>: half away from zero.\<close>

definition round_away :: "rat \<Rightarrow> int" where
  "round_away x = (if x < 0 then - \<lfloor>1 / 2 - x\<rfloor> else \<lfloor>x + 1 / 2\<rfloor>)"

definition and_then :: "(exn + 'a) \<Rightarrow> ('a \<Rightarrow> exn + 'b) \<Rightarrow> (exn + 'b)" where
  "and_then m f = (case m of Inl e \<Rightarrow> Inl e | Inr x \<Rightarrow> f x)"

lemma and_then_simps [simp]: "and_then (Inr x) f = f x" "and_then (Inl e) f = Inl e"
  by (simp_all add: and_then_def)

section \<open>The bit patterns\<close>

text \<open>\<open>1 << n\<close>, as far as it stays inside of an \<open>int\<close>, into a \<open>uint16_t\<close>.\<close>

definition one_shifted_left :: "int \<Rightarrow> (exn + u16)" where
  "one_shifted_left n = (if 0 \<le> n \<and> n < 31 then Inr (push_bit (nat n) 1) else Inl (Undefined ''1 << n''))"

definition pattern_step :: "(rat \<Rightarrow> rat) \<Rightarrow> rat \<Rightarrow> int \<Rightarrow> int \<Rightarrow> u16 \<Rightarrow> (exn + u16)" where
  "pattern_step rnd cut_period cut_wide i pattern =
     and_then (to_int \<lceil>rnd (of_int i * cut_period)\<rceil>) (\<lambda>offset.
     and_then (if IO_SER_CLK_GEN_BITS - 1 \<ge> offset then one_shifted_left (IO_SER_CLK_GEN_BITS - 1 - offset) else Inr 0) (\<lambda>future.
     and_then (if cut_wide - offset \<le> IO_SER_CLK_GEN_BITS
               then one_shifted_left (IO_SER_CLK_GEN_BITS - 1 - offset + cut_wide) else Inr 0) (\<lambda>past.
     Inr (pattern OR future OR past))))"

fun pattern_loop :: "(rat \<Rightarrow> rat) \<Rightarrow> rat \<Rightarrow> int \<Rightarrow> int list \<Rightarrow> u16 \<Rightarrow> (exn + u16)" where
  "pattern_loop rnd cut_period cut_wide [] pattern = Inr pattern"
| "pattern_loop rnd cut_period cut_wide (i # is) pattern =
     and_then (pattern_step rnd cut_period cut_wide i pattern) (pattern_loop rnd cut_period cut_wide is)"

definition skip_pattern :: "int \<Rightarrow> u16 \<Rightarrow> (exn + u16)" where
  "skip_pattern cut_wide normal =
     and_then (if cut_wide \<ge> 16 then Inr 0
               else if 15 - cut_wide < 32 then Inr (drop_bit (nat (15 - cut_wide)) 0x8000 :: u16)
               else Inl (Undefined ''0x8000 >> n'')) (\<lambda>spot.
     let low_mask = spot - 1; high_mask = NOT low_mask
     in Inr ((normal AND high_mask) OR drop_bit 1 (normal AND low_mask)))"

text \<open>The division by a period of 0 gives an infinity, whose conversion to \<open>int\<close> is undefined.\<close>

definition CalcClockParameters :: "(rat \<Rightarrow> rat) \<Rightarrow> rat \<Rightarrow> rat \<Rightarrow> u64 \<Rightarrow> (exn + clock_control)" where
  "CalcClockParameters rnd high_time low_time phase =
     (let period = rnd (high_time + low_time) in
      if period = 0 then Inl (Undefined ''double to int'')
      else
        and_then (to_int \<lceil>rnd (of_int IO_SER_CLK_GEN_BITS / period)\<rceil>) (\<lambda>fill_factor.
        let wide_period = rnd (period * of_int fill_factor) in
        and_then (to_int \<lfloor>wide_period\<rfloor>) (\<lambda>cut_wide_period.
        let cut_period = rnd (of_int cut_wide_period / of_int fill_factor) in
        and_then (to_uint32 \<lfloor>wide_period\<rfloor>) (\<lambda>period_integer.
        and_then (to_uint32 \<lfloor>high_time\<rfloor>) (\<lambda>period_high.
        and_then (to_uint32 (round_away (rnd (rnd (wide_period - of_int \<lfloor>wide_period\<rfloor>) * 4294967296)))) (\<lambda>period_fraction.
        and_then (pattern_loop rnd cut_period cut_wide_period [0..fill_factor - 1] 0) (\<lambda>normal.
        and_then (skip_pattern cut_wide_period normal) (\<lambda>skip.
        Inr \<lparr>cc_period_integer = period_integer, cc_period_high = period_high, cc_period_fraction = period_fraction,
             cc_normal = normal, cc_skip = skip, cc_phase_offset = phase\<rparr>))))))))"

section \<open>Operations\<close>

text \<open>The pins of an output have an \<open>unsigned\<close> channel and index that are passed on as \<open>int\<close>.\<close>

definition ConfigureClock :: "(rat \<Rightarrow> rat) \<Rightarrow> hardware \<Rightarrow> u64 \<Rightarrow> u32 \<Rightarrow> u32 \<Rightarrow> rat \<Rightarrow> rat \<Rightarrow> u64 \<Rightarrow> bool eca_op" where
  "ConfigureClock rnd hw clkgen channel index high_phase low_phase phase_offset =
     (if channel \<noteq> IO_CFG_CHANNEL_LVDS
      then raise (invalid_args ''Clock generator is only available for LVDS outputs!'')
      else case CalcClockParameters rnd high_phase low_phase phase_offset of
        Inl e \<Rightarrow> raise e
      | Inr control \<Rightarrow>
          bnd (cycle hw [BusWrite (clkgen + eSCK_selr) index,
                         BusWrite (clkgen + eSCK_perr) (cc_period_integer control),
                         BusWrite (clkgen + eSCK_perhir) (cc_period_high control),
                         BusWrite (clkgen + eSCK_fracr) (cc_period_fraction control),
                         BusWrite (clkgen + eSCK_normmaskr) (ucast (cc_normal control)),
                         BusWrite (clkgen + eSCK_skipmaskr) (ucast (cc_skip control)),
                         BusWrite (clkgen + eSCK_phofslr) (ucast (cc_phase_offset control)),
                         BusWrite (clkgen + eSCK_phofshr) (ucast (drop_bit 32 (cc_phase_offset control)))]) (\<lambda>_.
          ret (\<not> (low_phase = 0 \<and> high_phase = 0 \<and> phase_offset = 0))))"

definition io_StartClock :: "(rat \<Rightarrow> rat) \<Rightarrow> hardware \<Rightarrow> u64 \<Rightarrow> io \<Rightarrow> rat \<Rightarrow> rat \<Rightarrow> u64 \<Rightarrow> bool eca_op" where
  "io_StartClock rnd hw clkgen io high_phase low_phase phase_offset =
     ConfigureClock rnd hw clkgen (io_channel io) (io_index io) high_phase low_phase phase_offset"

definition io_StopClock :: "(rat \<Rightarrow> rat) \<Rightarrow> hardware \<Rightarrow> u64 \<Rightarrow> io \<Rightarrow> bool eca_op" where
  "io_StopClock rnd hw clkgen io = ConfigureClock rnd hw clkgen (io_channel io) (io_index io) 0 0 0"

section \<open>The patterns of a whole-numbered period\<close>

text \<open>
  What is used of the rounding: whole numbers below \<open>2 ^ 53\<close> are doubles, the relative error is at
  most \<open>2 ^ - 53\<close>.
\<close>

definition rounds_to_double :: "(rat \<Rightarrow> rat) \<Rightarrow> bool" where
  "rounds_to_double rnd \<longleftrightarrow> (\<forall>n. \<bar>n\<bar> < 2 ^ 53 \<longrightarrow> rnd (of_int n) = of_int n) \<and> (\<forall>x. \<bar>rnd x - x\<bar> \<le> \<bar>x\<bar> / 2 ^ 53)"

lemma rounds_whole: "rounds_to_double rnd \<Longrightarrow> \<bar>n\<bar> < 2 ^ 53 \<Longrightarrow> rnd (of_int n) = of_int n"
  by (simp add: rounds_to_double_def)

lemma ceiling_of_quotient:
  assumes r: "rounds_to_double rnd" and p: "0 < p"
  shows "\<lceil>rnd (8 / of_int p)\<rceil> = \<lceil>8 / of_int p :: rat\<rceil>"
proof (cases "p dvd 8")
  case True
  then obtain k where k: "8 = p * k" unfolding dvd_def by blast
  then have q: "8 / of_int p = (of_int k :: rat)" using p by (simp add: field_simps flip: of_int_mult)
  have "0 < p * k" unfolding k [symmetric] by simp
  then have "0 < k" using p by (simp add: zero_less_mult_iff)
  moreover have "k dvd 8" unfolding k by simp
  then have "k \<le> 8" by (rule zdvd_imp_le) simp
  ultimately have "0 < k" "k \<le> 8" .
  then show ?thesis unfolding q using rounds_whole [OF r, of k] by simp
next
  case False
  let ?x = "8 / of_int p :: rat"
  define k where "k = 8 div p"
  have "8 mod p \<noteq> 0" using False by (simp add: dvd_eq_mod_eq_0)
  moreover have "0 \<le> 8 mod p" "8 mod p < p" using p by simp_all
  ultimately have m: "0 < 8 mod p" "8 mod p < p" by linarith+
  have e: "8 = k * p + 8 mod p" by (simp add: k_def)
  then have "(8 :: rat) = of_int k * of_int p + of_int (8 mod p)" by (metis of_int_add of_int_mult of_int_numeral)
  then have x: "?x = of_int k + of_int (8 mod p) / of_int p" using p by (simp add: field_simps)
  have lo': "of_int k + 1 / of_int p \<le> ?x" unfolding x using m(1) p by (simp add: field_simps)
  have "of_int (8 mod p) \<le> (of_int p - 1 :: rat)" using m(2) by (metis of_int_le_iff of_int_diff of_int_1 zle_diff1_eq)
  then have "of_int (8 mod p) / of_int p \<le> (of_int p - 1) / (of_int p :: rat)" using p by (intro divide_right_mono) simp_all
  then have hi': "?x \<le> of_int k + 1 - 1 / of_int p" unfolding x using p by (simp add: diff_divide_distrib)
  have pos: "0 < 1 / (of_int p :: rat)" using p by simp
  have "\<bar>rnd ?x - ?x\<bar> \<le> \<bar>?x\<bar> / 2 ^ 53" using r unfolding rounds_to_double_def by blast
  also have "\<dots> < 1 / of_int p" using p by (simp add: field_simps)
  finally have "of_int k < rnd ?x" "rnd ?x < of_int k + 1" "of_int k < ?x" "?x < of_int k + 1"
    using lo' hi' pos by (simp_all add: abs_less_iff)
  then have "\<lceil>rnd ?x\<rceil> = k + 1" "\<lceil>?x\<rceil> = k + 1" by (simp_all add: ceiling_eq_iff)
  then show ?thesis by simp
qed

text \<open>The number of periods that fill the window, and the length they have together.\<close>

definition fill_periods :: "int \<Rightarrow> int" where "fill_periods p = \<lceil>8 / of_int p :: rat\<rceil>"

lemma fill_periods:
  assumes "0 < p"
  shows "0 < fill_periods p" "8 \<le> p * fill_periods p" "p * fill_periods p < p + 8"
proof -
  have c: "8 / of_int p \<le> (of_int (fill_periods p) :: rat)" "of_int (fill_periods p) < (8 / of_int p :: rat) + 1"
    unfolding fill_periods_def by linarith+
  have "(8 :: rat) \<le> of_int (p * fill_periods p)" "(of_int (p * fill_periods p) :: rat) < of_int (p + 8)"
    using c assms by (simp_all add: field_simps)
  then show "8 \<le> p * fill_periods p" "p * fill_periods p < p + 8"
    by (metis of_int_le_iff of_int_numeral, metis of_int_less_iff)
  then have "0 < p * fill_periods p" by linarith
  then show "0 < fill_periods p" using assms by (simp add: zero_less_mult_iff)
qed

definition marks :: "int \<Rightarrow> int \<Rightarrow> int \<Rightarrow> nat \<Rightarrow> bool" where
  "marks p c i n \<longleftrightarrow> (i * p \<le> 7 \<and> int n = 7 - i * p) \<or> (c - i * p \<le> 8 \<and> int n = 7 - i * p + c)"

lemma pattern_step_whole:
  assumes r: "rounds_to_double rnd" and i: "0 \<le> i * p" "i * p \<le> c" "c < 2 ^ 31"
  shows "\<exists>q. pattern_step rnd (of_int p) c i pattern = Inr q \<and> (\<forall>n < 16. bit q n \<longleftrightarrow> bit pattern n \<or> marks p c i n)"
proof -
  have e: "rnd (of_int i * of_int p) = of_int (i * p)" using rounds_whole [OF r, of "i * p"] i by simp
  have o': "to_int \<lceil>rnd (of_int i * of_int p)\<rceil> = Inr (i * p)" unfolding e ceiling_of_int using i by (simp add: to_int_def)
  have b: "bit (push_bit (nat k) 1 :: u16) n \<longleftrightarrow> int n = k \<and> n < 16" if "0 \<le> k" for k n
    using that by (auto simp: bit_simps)
  show ?thesis using i
    by (auto simp: pattern_step_def o' IO_SER_CLK_GEN_BITS_def one_shifted_left_def marks_def bit_or_iff b simp del: push_bit_of_1)
qed

lemma pattern_loop_whole:
  assumes r: "rounds_to_double rnd" and c: "c < 2 ^ 31"
  shows "\<forall>i \<in> set xs. 0 \<le> i * p \<and> i * p \<le> c \<Longrightarrow>
    \<exists>q. pattern_loop rnd (of_int p) c xs pattern = Inr q \<and>
      (\<forall>n < 16. bit q n \<longleftrightarrow> bit pattern n \<or> (\<exists>i \<in> set xs. marks p c i n))"
proof (induction xs arbitrary: pattern)
  case (Cons i xs)
  obtain q where q: "pattern_step rnd (of_int p) c i pattern = Inr q" "\<forall>n < 16. bit q n \<longleftrightarrow> bit pattern n \<or> marks p c i n"
    using pattern_step_whole [OF r _ _ c, of i p pattern] Cons.prems by auto
  from Cons.IH [of q] Cons.prems show ?case by (auto simp: q)
qed simp

lemma marks_all:
  assumes "0 < p" "n < 16"
  shows "(\<exists>i \<in> set [0..fill_periods p - 1]. marks p (p * fill_periods p) i n) \<longleftrightarrow> p dvd 7 - int n"
proof
  assume "\<exists>i \<in> set [0..fill_periods p - 1]. marks p (p * fill_periods p) i n"
  then obtain i where "7 - int n = p * i \<or> 7 - int n = p * (i - fill_periods p)"
    unfolding marks_def right_diff_distrib mult.commute [of _ p] by fastforce
  then show "p dvd 7 - int n" by auto
next
  assume "p dvd 7 - int n"
  then obtain q where q: "7 - int n = p * q" unfolding dvd_def by blast
  note f = fill_periods [OF assms(1)]
  show "\<exists>i \<in> set [0..fill_periods p - 1]. marks p (p * fill_periods p) i n"
  proof (cases "n \<le> 7")
    case True
    then have "0 \<le> p * q" using q by simp
    then have "0 \<le> q" using assms(1) by (simp add: zero_le_mult_iff)
    moreover have "p * q < p * fill_periods p" using q f(2) by linarith
    then have "q < fill_periods p" using assms(1) by simp
    ultimately show ?thesis using q by (intro bexI [of _ q]) (auto simp: marks_def mult.commute)
  next
    case False
    then have "p * q < 0" using q by simp
    then have "q < 0" using assms(1) by (simp add: mult_less_0_iff)
    moreover have "p * (- q) \<le> p * fill_periods p" using q f(2) assms(2) by simp
    then have "- q \<le> fill_periods p" using assms(1) by (simp only: mult_le_cancel_left_pos)
    ultimately show ?thesis using q assms(2)
      by (intro bexI [of _ "q + fill_periods p"]) (auto simp: marks_def algebra_simps)
  qed
qed

lemma parameters_of_whole_period:
  assumes r: "rounds_to_double rnd" and s: "high_time + low_time = of_int p" and p: "0 < p" "p \<le> 2 ^ 31 - 8"
    and h: "0 \<le> high_time" "0 \<le> low_time"
  shows "\<exists>control. CalcClockParameters rnd high_time low_time phase = Inr control \<and>
    cc_period_integer control = of_int (p * fill_periods p) \<and> cc_period_high control = of_int \<lfloor>high_time\<rfloor> \<and>
    cc_period_fraction control = 0 \<and> cc_phase_offset control = phase \<and>
    (\<forall>n < 16. bit (cc_normal control) n \<longleftrightarrow> p dvd 7 - int n) \<and>
    skip_pattern (p * fill_periods p) (cc_normal control) = Inr (cc_skip control)"
proof -
  note f = fill_periods [OF p(1)]
  let ?F = "fill_periods p"
  have z: "\<lceil>rnd (of_int IO_SER_CLK_GEN_BITS / of_int p)\<rceil> = ?F"
    using ceiling_of_quotient [OF r p(1)] by (simp add: fill_periods_def IO_SER_CLK_GEN_BITS_def)
  have "?F \<le> p * ?F" using p(1) f(1) by (simp add: mult_le_cancel_right1)
  then have "?F < 2 ^ 31" using f p(2) by linarith
  then have F: "to_int ?F = Inr ?F" using f(1) by (simp add: to_int_def)
  have w: "rnd (of_int p * of_int ?F) = of_int (p * ?F)" using rounds_whole [OF r, of "p * ?F"] f p by simp
  have d: "rnd (of_int (p * ?F) / of_int ?F) = of_int p" using rounds_whole [OF r, of p] f(1) p by simp
  have c: "to_int (p * ?F) = Inr (p * ?F)" "to_uint32 (p * ?F) = Inr (of_int (p * ?F))"
    using f p by (simp_all add: to_int_def to_uint32_def)
  have "of_int \<lfloor>high_time\<rfloor> \<le> (of_int p :: rat)" using s h(2) of_int_floor_le [of high_time] by linarith
  then have "\<lfloor>high_time\<rfloor> \<le> p" by simp
  moreover have "0 \<le> \<lfloor>high_time\<rfloor>" using h(1) by simp
  moreover have "to_uint32 n = Inr (of_int n)" if "0 \<le> n" "n \<le> p" for n using that p(2) by (simp add: to_uint32_def)
  ultimately have hh: "to_uint32 \<lfloor>high_time\<rfloor> = Inr (of_int \<lfloor>high_time\<rfloor>)" by blast
  have zero: "rnd 0 = 0" using rounds_whole [OF r, of 0] by simp
  have s': "rnd (high_time + low_time) = of_int p" unfolding s using rounds_whole [OF r, of p] p by simp
  have "\<forall>i \<in> set [0..?F - 1]. 0 \<le> i * p \<and> i * p \<le> p * ?F"
  proof
    fix i assume "i \<in> set [0..?F - 1]"
    then have "0 \<le> i" "i \<le> ?F" by auto
    then have "0 \<le> i * p" "i * p \<le> ?F * p" using p(1) by simp_all
    then show "0 \<le> i * p \<and> i * p \<le> p * ?F" by (simp add: mult.commute)
  qed
  moreover have "p * ?F < 2 ^ 31" using f p by linarith
  ultimately obtain q where q: "pattern_loop rnd (of_int p) (p * ?F) [0..?F - 1] 0 = Inr q"
    "\<forall>n < 16. bit q n \<longleftrightarrow> p dvd 7 - int n"
    using pattern_loop_whole [OF r, of "p * ?F" "[0..?F - 1]" p 0] marks_all [OF p(1)] by auto
  have "\<exists>k. skip_pattern (p * ?F) q = Inr k" using f(2) by (simp add: skip_pattern_def Let_def)
  then obtain k where k: "skip_pattern (p * ?F) q = Inr k" by blast
  have ne: "(of_int p :: rat) \<noteq> 0" using p by simp
  have "\<lfloor>1 / 2 :: rat\<rfloor> = 0" by (simp add: floor_eq_iff)
  then have fr: "to_uint32 (round_away 0) = Inr 0" by (simp add: round_away_def to_uint32_def)
  show ?thesis
    unfolding CalcClockParameters_def Let_def s' z F and_then_simps w floor_of_int c d hh if_not_P [OF ne]
    by (simp add: zero fr q k)
qed

section \<open>The pattern with a bit less\<close>

lemma spot_is_power:
  assumes "c < 16"
  shows "drop_bit (15 - c) 0x8000 = (2 ^ c :: u16)"
proof -
  have "c \<in> set [0..<16]" using assms by simp
  then show ?thesis by (simp add: upt_rec) (elim disjE; simp)
qed

lemma skip_pattern_bits:
  assumes "0 \<le> c" "skip_pattern c q = Inr k"
  shows "bit k n \<longleftrightarrow> (if int n < c - 1 then bit q (Suc n) else if int n < c then False else bit q n)"
proof (cases "c \<ge> 16")
  case True
  have "drop_bit 1 q AND mask 15 = drop_bit 1 q" by (rule bit_word_eqI) (auto simp: bit_simps dest: bit_imp_le_length)
  then have "k = drop_bit 1 q" using True assms(2) by (simp add: skip_pattern_def Let_def)
  then show ?thesis using True bit_imp_le_length [of q "Suc n"] bit_imp_le_length [of q n] by (auto simp: bit_simps)
next
  case False
  define m where "m = nat c"
  have m: "c = int m" "m < 16" using False assms(1) by (simp_all add: m_def)
  then have "nat (15 - c) = 15 - m" by (simp add: nat_diff_distrib)
  then have "k = (q AND NOT (mask m)) OR drop_bit 1 (q AND mask m)"
    using assms(2) False m spot_is_power [OF m(2)] by (simp add: skip_pattern_def Let_def mask_eq_exp_minus_1)
  then show ?thesis using bit_imp_le_length [of q "Suc n"] bit_imp_le_length [of q n] m by (auto simp: bit_simps)
qed

end
