(* ===== verification/Other_Sinks.thy ===== *)
theory Other_Sinks
  imports ECA_Changes
begin

text \<open>
  The action sinks of the hardware channels: outputs (src/Output.cpp, src/OutputCondition.cpp), the
  wishbone master (src/WbmActionSink.cpp), the SCU bus (src/SCUbusActionSink.cpp) and the embedded
  processors (src/EmbeddedCPUActionSink.cpp), with their conditions. All are the action sinks of
  the unit; here are the operations they add.
\<close>

section \<open>New conditions\<close>

text \<open>Unlike a software action sink they do not check the owner.\<close>

definition output_NewCondition ::
  "hardware \<Rightarrow> string list \<Rightarrow> place \<Rightarrow> bool \<Rightarrow> u64 \<Rightarrow> u64 \<Rightarrow> u64 \<Rightarrow> bool \<Rightarrow> string eca_op" where
  "output_NewCondition hw ifs p active i m offset on =
     NewConditionHelper hw ifs p active i m offset (\<lambda>_. if on then 2 else 1)"

definition wbm_NewCondition ::
  "hardware \<Rightarrow> string list \<Rightarrow> place \<Rightarrow> bool \<Rightarrow> u64 \<Rightarrow> u64 \<Rightarrow> u64 \<Rightarrow> u32 \<Rightarrow> string eca_op" where
  "wbm_NewCondition hw ifs p active i m offset tag = NewConditionHelper hw ifs p active i m offset (\<lambda>_. tag)"

definition scubus_NewCondition ::
  "hardware \<Rightarrow> string list \<Rightarrow> place \<Rightarrow> bool \<Rightarrow> u64 \<Rightarrow> u64 \<Rightarrow> u64 \<Rightarrow> u32 \<Rightarrow> string eca_op" where
  "scubus_NewCondition hw ifs p active i m offset tag = NewConditionHelper hw ifs p active i m offset (\<lambda>_. tag)"

definition ecpu_NewCondition ::
  "hardware \<Rightarrow> string list \<Rightarrow> place \<Rightarrow> bool \<Rightarrow> u64 \<Rightarrow> u64 \<Rightarrow> u64 \<Rightarrow> u32 \<Rightarrow> string eca_op" where
  "ecpu_NewCondition hw ifs p active i m offset tag = NewConditionHelper hw ifs p active i m offset (\<lambda>_. tag)"

section \<open>The tag of a condition\<close>

definition condition_ownerOnly :: "place \<Rightarrow> u32 \<Rightarrow> unit eca_op" where
  "condition_ownerOnly p n = bnd (deref_condition p n) (\<lambda>c. bnd (gets (\<lambda>w. condition_owned w c)) ownerOnly)"

text \<open>What the three setters do after the check of the owner.\<close>

definition change_tag :: "hardware \<Rightarrow> place \<Rightarrow> u32 \<Rightarrow> u32 \<Rightarrow> unit eca_op" where
  "change_tag hw p n val =
     bnd (deref_condition p n) (\<lambda>c.
     if val = c_tag c then ret ()
     else guarded_change hw p n (\<lambda>c. c\<lparr>c_tag := val\<rparr>) (\<lambda>c'. c'\<lparr>c_tag := c_tag c\<rparr>))"

definition scubus_setTag :: "hardware \<Rightarrow> place \<Rightarrow> u32 \<Rightarrow> u32 \<Rightarrow> unit eca_op" where
  "scubus_setTag hw p n val = thn (condition_ownerOnly p n) (change_tag hw p n val)"

definition ecpu_setTag :: "hardware \<Rightarrow> place \<Rightarrow> u32 \<Rightarrow> u32 \<Rightarrow> unit eca_op" where
  "ecpu_setTag hw p n val = thn (condition_ownerOnly p n) (change_tag hw p n val)"

definition setOn :: "hardware \<Rightarrow> place \<Rightarrow> u32 \<Rightarrow> bool \<Rightarrow> unit eca_op" where
  "setOn hw p n v = thn (condition_ownerOnly p n) (change_tag hw p n (if v then 2 else 1))"

definition getOn :: "condition \<Rightarrow> bool" where
  "getOn c \<longleftrightarrow> c_tag c = 2"

section \<open>Macros of the wishbone master\<close>

definition SLAVE_STATUS_GET :: u64 where "SLAVE_STATUS_GET = 0x00"
definition SLAVE_MAX_MACROS_GET :: u64 where "SLAVE_MAX_MACROS_GET = 0x04"
definition SLAVE_MAX_SPACE_GET :: u64 where "SLAVE_MAX_SPACE_GET = 0x08"
definition SLAVE_ENABLE_GET :: u64 where "SLAVE_ENABLE_GET = 0x0c"
definition SLAVE_ENABLE_SET :: u64 where "SLAVE_ENABLE_SET = 0x10"
definition SLAVE_ENABLE_CLR :: u64 where "SLAVE_ENABLE_CLR = 0x14"
definition SLAVE_EXEC_OWR :: u64 where "SLAVE_EXEC_OWR = 0x18"
definition SLAVE_LAST_EXEC_GET :: u64 where "SLAVE_LAST_EXEC_GET = 0x1c"
definition SLAVE_REC_OWR :: u64 where "SLAVE_REC_OWR = 0x20"
definition SLAVE_LAST_REC_GET :: u64 where "SLAVE_LAST_REC_GET = 0x24"
definition SLAVE_CLEAR_ALL_OWR :: u64 where "SLAVE_CLEAR_ALL_OWR = 0x30"
definition SLAVE_CLEAR_IDX_OWR :: u64 where "SLAVE_CLEAR_IDX_OWR = 0x34"
definition SLAVE_REC_FIFO_OWR :: u64 where "SLAVE_REC_FIFO_OWR = 0x38"

record wbm_command =
  wc_adr :: u32
  wc_data :: u32
  wc_flags :: u32

definition ExecuteMacro :: "hardware \<Rightarrow> u64 \<Rightarrow> u32 \<Rightarrow> unit eca_op" where
  "ExecuteMacro hw acwbm idx = device_write hw (acwbm + SLAVE_EXEC_OWR) idx"

text \<open>
  Every failure of the first access is reported as an occupied index; the accesses of the cycle are
  the words of the commands, then the end of the recording.
\<close>

definition command_ops :: "u64 \<Rightarrow> wbm_command list \<Rightarrow> bus_op list" where
  "command_ops acwbm commands =
     concat (map (\<lambda>c. map (BusWrite (acwbm + SLAVE_REC_FIFO_OWR)) [wc_adr c, wc_data c, wc_flags c]) commands)"

definition occupied :: "u32 \<Rightarrow> exn" where
  "occupied idx = invalid_args (''Recording failed. Macro idx '' @ [CHR 0x27] @ show_nat (unat idx) @ [CHR 0x27]
     @ '' is occupied or wbm-as out of macro memory. Choose a free index or delete macro(s)'')"

fun is_etherbone :: "exn \<Rightarrow> bool" where
  "is_etherbone (EbException _ _) = True"
| "is_etherbone _ = False"

definition RecordMacro :: "hardware \<Rightarrow> u64 \<Rightarrow> u32 \<Rightarrow> wbm_command list \<Rightarrow> unit eca_op" where
  "RecordMacro hw acwbm idx commands =
     thn (try_catch (device_write hw (acwbm + SLAVE_REC_OWR) idx)
            (\<lambda>e. raise (if is_etherbone e then occupied idx else e)))
         (bnd (cycle hw (command_ops acwbm commands @ [BusWrite (acwbm + SLAVE_REC_OWR) idx])) (\<lambda>_. ret ()))"

definition ClearMacro :: "hardware \<Rightarrow> u64 \<Rightarrow> u32 \<Rightarrow> unit eca_op" where
  "ClearMacro hw acwbm idx = device_write hw (acwbm + SLAVE_CLEAR_IDX_OWR) idx"

definition ClearAllMacros :: "hardware \<Rightarrow> u64 \<Rightarrow> unit eca_op" where
  "ClearAllMacros hw acwbm = device_write hw (acwbm + SLAVE_CLEAR_ALL_OWR) 1"

definition getStatus :: "hardware \<Rightarrow> u64 \<Rightarrow> u8 eca_op" where
  "getStatus hw acwbm = bnd (device_read hw (acwbm + SLAVE_STATUS_GET)) (\<lambda>d. ret (ucast d))"

definition getMaxMacros :: "hardware \<Rightarrow> u64 \<Rightarrow> u32 eca_op" where
  "getMaxMacros hw acwbm = device_read hw (acwbm + SLAVE_MAX_MACROS_GET)"

definition getMaxSpace :: "hardware \<Rightarrow> u64 \<Rightarrow> u32 eca_op" where
  "getMaxSpace hw acwbm = device_read hw (acwbm + SLAVE_MAX_SPACE_GET)"

definition wbm_getEnable :: "hardware \<Rightarrow> u64 \<Rightarrow> bool eca_op" where
  "wbm_getEnable hw acwbm = bnd (device_read hw (acwbm + SLAVE_ENABLE_GET)) (\<lambda>d. ret (d \<noteq> 0))"

definition getLastExecutedIdx :: "hardware \<Rightarrow> u64 \<Rightarrow> u32 eca_op" where
  "getLastExecutedIdx hw acwbm = device_read hw (acwbm + SLAVE_LAST_EXEC_GET)"

definition getLastRecordedIdx :: "hardware \<Rightarrow> u64 \<Rightarrow> u32 eca_op" where
  "getLastRecordedIdx hw acwbm = device_read hw (acwbm + SLAVE_LAST_REC_GET)"

text \<open>The value for switching off is 0.\<close>

definition wbm_setEnable :: "hardware \<Rightarrow> u64 \<Rightarrow> bool \<Rightarrow> unit eca_op" where
  "wbm_setEnable hw acwbm val =
     (if val then device_write hw (acwbm + SLAVE_ENABLE_SET) 1 else device_write hw (acwbm + SLAVE_ENABLE_CLR) 0)"

section \<open>The SCU bus\<close>

definition SCUB_SOFTWARE_TAG_LO :: u64 where "SCUB_SOFTWARE_TAG_LO = 0x20"
definition SCUB_SOFTWARE_TAG_HI :: u64 where "SCUB_SOFTWARE_TAG_HI = 0x24"

definition InjectTag :: "hardware \<Rightarrow> u64 \<Rightarrow> place \<Rightarrow> u32 \<Rightarrow> unit eca_op" where
  "InjectTag hw scubus p tag =
     thn (sink_ownerOnly p)
         (bnd (cycle hw [BusWrite (scubus + SCUB_SOFTWARE_TAG_LO) (tag AND 0xFFFF),
                         BusWrite (scubus + SCUB_SOFTWARE_TAG_HI) (drop_bit 16 tag AND 0xFFFF)]) (\<lambda>_. ret ()))"

section \<open>Facts\<close>

interpretation tag_field: condition_field c_tag "\<lambda>v. c_tag_update (\<lambda>_. v)" change_tag
  by unfold_locales (simp_all add: change_tag_def bnd_def deref_condition_eq ret_def)

lemma keeps_deref_service: "keeps P (deref_service i)"
  by (auto simp: keeps_def deref_service_def split: option.split)

lemma keeps_readers: "keeps P (deref_sink p)" "keeps P (deref_condition p n)"
proof -
  show s: "keeps P (deref_sink p)" by (auto simp: keeps_def deref_sink_def split: option.split)
  show "keeps P (deref_condition p n)" unfolding deref_condition_def
    by (intro keeps_bnd s) (auto split: option.split)
qed

lemma keeps_check_owner: "keeps P (ownerOnly o')"
proof -
  have c: "keeps P (owner_check s)" for s
    unfolding owner_check_def by (intro keeps_bnd keeps_gets keeps_throw_if)
  show ?thesis unfolding ownerOnly_def with_service_def
    by (cases "ow_cont o'"; cases "ow_service o'") (simp_all add: keeps_bnd [OF keeps_deref_service c])
qed

lemma keeps_condition_ownerOnly: "keeps P (condition_ownerOnly p n)"
  unfolding condition_ownerOnly_def by (intro keeps_bnd keeps_readers keeps_gets keeps_check_owner)

lemma condition_ownerOnly_state: "condition_ownerOnly p n w = (x, w') \<Longrightarrow> w' = w"
  using keepsD [OF keeps_condition_ownerOnly [of "\<lambda>v. v = w" p n], of w] by simp

text \<open>A setter behind a check of the owner either stops there or is the setter.\<close>

lemma owned_setter_cases:
  assumes "thn (condition_ownerOnly p n) m w = (r, w')"
  obtains e where "condition_ownerOnly p n w = (Inl e, w)" "r = Inl e" "w' = w"
  | "condition_ownerOnly p n w = (Inr (), w)" "m w = (r, w')"
proof -
  obtain x w1 where "condition_ownerOnly p n w = (x, w1)" by fastforce
  moreover from this have "w1 = w" by (rule condition_ownerOnly_state)
  ultimately have o: "condition_ownerOnly p n w = (x, w)" by simp
  show thesis
  proof (cases x)
    case (Inl e)
    with assms o have "r = Inl e" "w' = w" by (simp_all add: thn_def bnd_def)
    with o Inl show thesis using that(1) by metis
  next
    case (Inr u)
    with assms o have "m w = (r, w')" by (simp add: thn_def bnd_def)
    with o Inr show thesis using that(2) by simp
  qed
qed

end
