(* ===== verification/Inputs_Outputs.thy ===== *)
theory Inputs_Outputs
  imports Clock_Generator Other_Sinks
begin

text \<open>
  The inputs and outputs of a timing receiver: the objects of the pins (src/Input.cpp, src/Output.cpp,
  src/EventSource.cpp), the timestamp latch unit behind the inputs (src/ECA_TLU.cpp) and the control
  unit that lists the pins (src/IoControl.cpp).
\<close>

section \<open>State\<close>

definition ECA_TLU_INPUT_SELECT_RW :: u64 where "ECA_TLU_INPUT_SELECT_RW = 0x04"
definition ECA_TLU_ENABLE_RW :: u64 where "ECA_TLU_ENABLE_RW = 0x08"
definition ECA_TLU_STABLE_RW :: u64 where "ECA_TLU_STABLE_RW = 0x0c"
definition ECA_TLU_EVENT_HI_RW :: u64 where "ECA_TLU_EVENT_HI_RW = 0x10"
definition ECA_TLU_EVENT_LO_RW :: u64 where "ECA_TLU_EVENT_LO_RW = 0x14"
definition ECA_TLU_WRITE_OWR :: u64 where "ECA_TLU_WRITE_OWR = 0x18"

record input =
  in_path :: string
  in_partner :: string
  in_io :: io
  in_channel :: u32
  in_enable :: bool
  in_event :: u64
  in_stable :: u32
  in_owned :: owned

text \<open>What an output has beside the action sink, which is at \<open>ou_place\<close> in the unit.\<close>

record out_object =
  ou_place :: place
  ou_partner :: string
  ou_io :: io
  ou_low :: rat
  ou_high :: rat
  ou_offset :: u64

text \<open>
  The part of a timing receiver that is modelled here: the event condition action unit with the bus
  and the container, the addresses of the other units, the pins, the inputs and the outputs.
\<close>

record board =
  bo_eca :: eca
  bo_tlu :: u64
  bo_clkgen :: u64
  bo_control :: u64
  bo_ios :: "io list"
  bo_inputs :: "input list"
  bo_outputs :: "out_object list"

type_synonym ('z, 'a) board_op = "('z board_scheme, 'a) op"

definition on_eca :: "'a eca_op \<Rightarrow> ('z, 'a) board_op" where
  "on_eca m = (\<lambda>w. case m (bo_eca w) of (r, e) \<Rightarrow> (r, w\<lparr>bo_eca := e\<rparr>))"

definition deref_input :: "nat \<Rightarrow> ('z, input) board_op" where
  "deref_input k = (\<lambda>w. if k < length (bo_inputs w) then (Inr (bo_inputs w ! k), w)
     else (Inl (Undefined ''dangling Input*''), w))"

definition modify_input :: "nat \<Rightarrow> (input \<Rightarrow> input) \<Rightarrow> ('z, unit) board_op" where
  "modify_input k f = modify (\<lambda>w. w\<lparr>bo_inputs := (bo_inputs w)[k := f (bo_inputs w ! k)]\<rparr>)"

definition deref_output :: "nat \<Rightarrow> ('z, out_object) board_op" where
  "deref_output k = (\<lambda>w. if k < length (bo_outputs w) then (Inr (bo_outputs w ! k), w)
     else (Inl (Undefined ''dangling Output*''), w))"

definition modify_output :: "nat \<Rightarrow> (out_object \<Rightarrow> out_object) \<Rightarrow> ('z, unit) board_op" where
  "modify_output k f = modify (\<lambda>w. w\<lparr>bo_outputs := (bo_outputs w)[k := f (bo_outputs w ! k)]\<rparr>)"

section \<open>The timestamp latch unit\<close>

definition config_ops :: "u64 \<Rightarrow> u32 \<Rightarrow> bool \<Rightarrow> u64 \<Rightarrow> u32 \<Rightarrow> bus_op list" where
  "config_ops tlu channel enable event stable_time =
     [BusWrite (tlu + ECA_TLU_INPUT_SELECT_RW) channel,
      BusWrite (tlu + ECA_TLU_ENABLE_RW) (if enable then 1 else 0),
      BusWrite (tlu + ECA_TLU_STABLE_RW) (stable_time div 8 - 1),
      BusWrite (tlu + ECA_TLU_EVENT_HI_RW) (ucast (drop_bit 32 event)),
      BusWrite (tlu + ECA_TLU_EVENT_LO_RW) (ucast event),
      BusWrite (tlu + ECA_TLU_WRITE_OWR) 1]"

definition configInput :: "hardware \<Rightarrow> u32 \<Rightarrow> bool \<Rightarrow> u64 \<Rightarrow> u32 \<Rightarrow> ('z, unit) board_op" where
  "configInput hw channel enable event stable_time =
     bnd (gets bo_tlu) (\<lambda>tlu.
     bnd (on_eca (cycle hw (config_ops tlu channel enable event stable_time))) (\<lambda>_. ret ()))"

definition addInput :: "input \<Rightarrow> ('z, unit) board_op" where
  "addInput i = modify (\<lambda>w. w\<lparr>bo_inputs := bo_inputs w @ [i]\<rparr>)"

definition getInputs :: "'z board_scheme \<Rightarrow> (string \<times> string) list" where
  "getInputs w = fold (\<lambda>i. omap_put (io_name (in_io i)) (in_path i)) (bo_inputs w) []"

text \<open>The destructor removes the services of the inputs; a refused removal is ignored.\<close>

definition destroy_tlu :: "('z, unit) board_op" where
  "destroy_tlu =
     bnd (gets (ec_container \<circ> bo_eca)) (\<lambda>container.
     if \<not> container then ret ()
     else bnd (gets (\<lambda>w. length (bo_inputs w))) (\<lambda>n.
          for_each (\<lambda>k.
            bnd (deref_input k) (\<lambda>i.
            thn (on_eca (eca_emit (DestroyedSignal (in_path i))))
           (thn (modify_input k (in_owned_update release_service))
                (on_eca (try_catch (thn (remove_object (in_path i)) (ret ()))
                   (\<lambda>e. if is_saftbus_error e then ret () else raise e)))))) [0..<n]))"

section \<open>Inputs\<close>

definition new_input :: "hardware \<Rightarrow> string \<Rightarrow> string \<Rightarrow> u32 \<Rightarrow> io \<Rightarrow> ('z, input) board_op" where
  "new_input hw path partner channel io =
     bnd (gets (ec_container \<circ> bo_eca)) (\<lambda>container.
     thn (configInput hw channel False 0 80)
         (ret \<lparr>in_path = path, in_partner = partner, in_io = io, in_channel = channel, in_enable = False,
               in_event = 0, in_stable = 80, in_owned = new_owned container\<rparr>))"

definition input_ownerOnly :: "nat \<Rightarrow> ('z, unit) board_op" where
  "input_ownerOnly k = bnd (deref_input k) (\<lambda>i. on_eca (ownerOnly (in_owned i)))"

text \<open>The fields of an input as they are, sent to the latch unit.\<close>

definition send_config :: "hardware \<Rightarrow> nat \<Rightarrow> ('z, unit) board_op" where
  "send_config hw k =
     bnd (deref_input k) (\<lambda>i. configInput hw (in_channel i) (in_enable i) (in_event i) (in_stable i))"

definition setEventEnable :: "hardware \<Rightarrow> nat \<Rightarrow> bool \<Rightarrow> ('z, unit) board_op" where
  "setEventEnable hw k val =
     thn (input_ownerOnly k)
    (bnd (deref_input k) (\<lambda>i.
     if in_enable i = val then ret ()
     else thn (modify_input k (\<lambda>i. i\<lparr>in_enable := val\<rparr>)) (send_config hw k)))"

definition setEventPrefix :: "hardware \<Rightarrow> nat \<Rightarrow> u64 \<Rightarrow> ('z, unit) board_op" where
  "setEventPrefix hw k val =
     thn (input_ownerOnly k)
    (thn (throw_if (val mod 2 \<noteq> 0) (invalid_args ''EventPrefix cannot have lowest bit set (EventBits=1)''))
    (bnd (deref_input k) (\<lambda>i.
     if in_event i = val then ret ()
     else thn (modify_input k (\<lambda>i. i\<lparr>in_event := val\<rparr>)) (send_config hw k))))"

definition setStableTime :: "hardware \<Rightarrow> nat \<Rightarrow> u32 \<Rightarrow> ('z, unit) board_op" where
  "setStableTime hw k val =
     thn (input_ownerOnly k)
    (thn (throw_if (val mod 8 \<noteq> 0) (invalid_args ''StableTime must be a multiple of 8ns''))
    (thn (throw_if (val < 16) (invalid_args ''StableTime must be at least 16ns''))
    (bnd (deref_input k) (\<lambda>i.
     if in_stable i = val then ret ()
     else thn (modify_input k (\<lambda>i. i\<lparr>in_stable := val\<rparr>)) (send_config hw k)))))"

text \<open>What is passed on to the pin; the switches need the owner, reading does not.\<close>

definition input_pin :: "(io \<Rightarrow> 'a eca_op) \<Rightarrow> nat \<Rightarrow> ('z, 'a) board_op" where
  "input_pin f k = bnd (deref_input k) (\<lambda>i. on_eca (f (in_io i)))"

definition input_ReadInput :: "hardware \<Rightarrow> nat \<Rightarrow> ('z, bool) board_op" where
  "input_ReadInput hw k = input_pin (ReadInput hw) k"

definition input_setInputTermination :: "hardware \<Rightarrow> nat \<Rightarrow> bool \<Rightarrow> ('z, unit) board_op" where
  "input_setInputTermination hw k val = thn (input_ownerOnly k) (input_pin (\<lambda>io. setInputTermination hw io val) k)"

definition input_setSpecialPurposeIn :: "hardware \<Rightarrow> nat \<Rightarrow> bool \<Rightarrow> ('z, unit) board_op" where
  "input_setSpecialPurposeIn hw k val = thn (input_ownerOnly k) (input_pin (\<lambda>io. setSpecialPurposeIn hw io val) k)"

definition input_setGateIn :: "hardware \<Rightarrow> nat \<Rightarrow> bool \<Rightarrow> ('z, unit) board_op" where
  "input_setGateIn hw k val = thn (input_ownerOnly k) (input_pin (\<lambda>io. setGateIn hw io val) k)"

section \<open>Outputs\<close>

definition new_output :: "hardware \<Rightarrow> io \<Rightarrow> string \<Rightarrow> string \<Rightarrow> u32 \<Rightarrow> ('z, action_sink \<times> (place \<Rightarrow> out_object)) board_op" where
  "new_output hw io path partner channel =
     bnd (on_eca (new_action_sink hw Output path (io_name io) channel (io_eca_out io))) (\<lambda>s.
     ret (s, \<lambda>p. \<lparr>ou_place = p, ou_partner = partner, ou_io = io, ou_low = 0, ou_high = 0, ou_offset = 0\<rparr>))"

definition output_ownerOnly :: "nat \<Rightarrow> ('z, unit) board_op" where
  "output_ownerOnly k = bnd (deref_output k) (\<lambda>ou. on_eca (sink_ownerOnly (ou_place ou)))"

definition output_pin :: "(io \<Rightarrow> 'a eca_op) \<Rightarrow> nat \<Rightarrow> ('z, 'a) board_op" where
  "output_pin f k = bnd (deref_output k) (\<lambda>ou. on_eca (f (ou_io ou)))"

text \<open>An operation on the pin of an output that only its owner may call.\<close>

definition owned_pin :: "(io \<Rightarrow> unit eca_op) \<Rightarrow> nat \<Rightarrow> ('z, unit) board_op" where
  "owned_pin f k = thn (output_ownerOnly k) (output_pin f k)"

definition output_WriteOutput :: "hardware \<Rightarrow> nat \<Rightarrow> bool \<Rightarrow> ('z, unit) board_op" where
  "output_WriteOutput hw k value = owned_pin (\<lambda>io. WriteOutput hw io value) k"

definition output_ReadOutput :: "hardware \<Rightarrow> nat \<Rightarrow> ('z, bool) board_op" where
  "output_ReadOutput hw k = output_pin (ReadOutput hw) k"

definition output_setOutputEnable :: "hardware \<Rightarrow> nat \<Rightarrow> bool \<Rightarrow> ('z, unit) board_op" where
  "output_setOutputEnable hw k val = owned_pin (\<lambda>io. setOutputEnable hw io val) k"

definition output_setSpecialPurposeOut :: "hardware \<Rightarrow> nat \<Rightarrow> bool \<Rightarrow> ('z, unit) board_op" where
  "output_setSpecialPurposeOut hw k val = owned_pin (\<lambda>io. setSpecialPurposeOut hw io val) k"

definition output_setGateOut :: "hardware \<Rightarrow> nat \<Rightarrow> bool \<Rightarrow> ('z, unit) board_op" where
  "output_setGateOut hw k val = owned_pin (\<lambda>io. setGateOut hw io val) k"

definition output_setBuTiSMultiplexer :: "hardware \<Rightarrow> nat \<Rightarrow> bool \<Rightarrow> ('z, unit) board_op" where
  "output_setBuTiSMultiplexer hw k val = owned_pin (\<lambda>io. setBuTiSMultiplexer hw io val) k"

definition output_setPPSMultiplexer :: "hardware \<Rightarrow> nat \<Rightarrow> bool \<Rightarrow> ('z, unit) board_op" where
  "output_setPPSMultiplexer hw k val = owned_pin (\<lambda>io. setPPSMultiplexer hw io val) k"

text \<open>The parameters of the clock are stored before the generator accepts them.\<close>

definition set_clock_fields :: "nat \<Rightarrow> rat \<Rightarrow> rat \<Rightarrow> u64 \<Rightarrow> ('z, unit) board_op" where
  "set_clock_fields k high low offset =
     modify_output k (\<lambda>ou. ou\<lparr>ou_high := high, ou_low := low, ou_offset := offset\<rparr>)"

definition clock_pin :: "(u64 \<Rightarrow> io \<Rightarrow> bool eca_op) \<Rightarrow> nat \<Rightarrow> ('z, bool) board_op" where
  "clock_pin f k = bnd (gets bo_clkgen) (\<lambda>c. output_pin (f c) k)"

definition StartClock :: "(rat \<Rightarrow> rat) \<Rightarrow> hardware \<Rightarrow> nat \<Rightarrow> rat \<Rightarrow> rat \<Rightarrow> u64 \<Rightarrow> ('z, bool) board_op" where
  "StartClock rnd hw k high_phase low_phase phase_offset =
     thn (output_ownerOnly k)
    (thn (set_clock_fields k high_phase low_phase phase_offset)
         (clock_pin (\<lambda>c io. io_StartClock rnd hw c io high_phase low_phase phase_offset) k))"

definition StopClock :: "(rat \<Rightarrow> rat) \<Rightarrow> hardware \<Rightarrow> nat \<Rightarrow> ('z, bool) board_op" where
  "StopClock rnd hw k =
     thn (output_ownerOnly k)
    (thn (set_clock_fields k 0 0 0) (clock_pin (\<lambda>c io. io_StopClock rnd hw c io) k))"

definition ClockStatus :: "out_object \<Rightarrow> rat \<times> rat \<times> u64 \<times> bool" where
  "ClockStatus ou = (ou_high ou, ou_low ou, ou_offset ou, \<not> (ou_low ou = 0 \<and> ou_high ou = 0 \<and> ou_offset ou = 0))"

section \<open>The list of the pins\<close>

definition IO_INFO_TOTAL_COUNT_MASK :: u32 where "IO_INFO_TOTAL_COUNT_MASK = 0xff000000"
definition IO_INFO_TOTAL_SHIFT :: nat where "IO_INFO_TOTAL_SHIFT = 24"
definition IO_GPIO_MAX :: nat where "IO_GPIO_MAX = 64"
definition IO_LVDS_MAX :: nat where "IO_LVDS_MAX = 64"
definition IO_FIXED_MAX :: nat where "IO_FIXED_MAX = 64"

definition IO_CFG_FIELD_DIR_MASK :: u8 where "IO_CFG_FIELD_DIR_MASK = 0xc0"
definition IO_CFG_FIELD_DIR_SHIFT :: nat where "IO_CFG_FIELD_DIR_SHIFT = 6"
definition IO_CFG_FIELD_INFO_CHAN_MASK :: u8 where "IO_CFG_FIELD_INFO_CHAN_MASK = 0x38"
definition IO_CFG_FIELD_INFO_CHAN_SHIFT :: nat where "IO_CFG_FIELD_INFO_CHAN_SHIFT = 3"
definition IO_CFG_FIELD_OE_MASK :: u8 where "IO_CFG_FIELD_OE_MASK = 0x04"
definition IO_CFG_FIELD_TERM_MASK :: u8 where "IO_CFG_FIELD_TERM_MASK = 0x02"
definition IO_SPECIAL_PURPOSE_MASK :: u8 where "IO_SPECIAL_PURPOSE_MASK = 0xfc"
definition IO_SPECIAL_PURPOSE_SHIFT :: nat where "IO_SPECIAL_PURPOSE_SHIFT = 2"
definition IO_SPECIAL_OUT_MASK :: u8 where "IO_SPECIAL_OUT_MASK = 0x02"
definition IO_SPECIAL_IN_MASK :: u8 where "IO_SPECIAL_IN_MASK = 0x01"
definition IO_LOGIC_RES_FIELD_LL_MASK :: u8 where "IO_LOGIC_RES_FIELD_LL_MASK = 0xf0"
definition IO_LOGIC_RES_FIELD_LL_SHIFT :: nat where "IO_LOGIC_RES_FIELD_LL_SHIFT = 4"

record setup_field =
  sf_name :: "u8 list"
  sf_special :: u8
  sf_index :: u8
  sf_cfg :: u8
  sf_logic :: u8

text \<open>The four bytes of a word, the most significant first.\<close>

definition bytes_of :: "u32 \<Rightarrow> u8 list" where
  "bytes_of x = [ucast (drop_bit 24 x), ucast (drop_bit 16 x), ucast (drop_bit 8 x), ucast x]"

text \<open>
  Every word of the table is a bus cycle of its own; entry number \<open>i\<close> is written to the array on
  the stack, which has \<open>IO_GPIO_MAX+IO_LVDS_MAX+IO_FIXED_MAX\<close> elements.
\<close>

definition table_word :: "hardware \<Rightarrow> u64 \<Rightarrow> nat \<Rightarrow> u32 eca_op" where
  "table_word hw control i =
     bnd (cycle hw [BusRead (control + ucast (ucast eIO_Map_Table_Begin + of_nat i * 4 :: u32))]) (\<lambda>rs. ret (hd rs))"

definition table_entry :: "hardware \<Rightarrow> u64 \<Rightarrow> nat \<Rightarrow> setup_field eca_op" where
  "table_entry hw control i =
     bnd (table_word hw control (4 * i)) (\<lambda>a.
     if i \<ge> IO_GPIO_MAX + IO_LVDS_MAX + IO_FIXED_MAX then raise (Undefined ''s_aIOCONTROL_SetupField'')
     else bnd (table_word hw control (4 * i + 1)) (\<lambda>b.
          bnd (table_word hw control (4 * i + 2)) (\<lambda>c.
          bnd (table_word hw control (4 * i + 3)) (\<lambda>d.
          ret \<lparr>sf_name = bytes_of a @ bytes_of b @ bytes_of c, sf_special = bytes_of d ! 0,
               sf_index = bytes_of d ! 1, sf_cfg = bytes_of d ! 2, sf_logic = bytes_of d ! 3\<rparr>))))"

fun table_entries :: "hardware \<Rightarrow> u64 \<Rightarrow> nat \<Rightarrow> nat \<Rightarrow> setup_field list eca_op" where
  "table_entries hw control i 0 = ret []"
| "table_entries hw control i (Suc n) =
     bnd (table_entry hw control i) (\<lambda>f. bnd (table_entries hw control (Suc i) n) (\<lambda>fs. ret (f # fs)))"

text \<open>A name without a terminating zero is read beyond its end.\<close>

definition c_string :: "u8 list \<Rightarrow> string eca_op" where
  "c_string bs =
     (if 0 \<in> set bs then ret (map (\<lambda>b. char_of (unat b)) (takeWhile (\<lambda>b. b \<noteq> 0) bs)) else raise (Undefined ''uName''))"

definition masked :: "u8 \<Rightarrow> u8 \<Rightarrow> nat \<Rightarrow> u32" where
  "masked x m shift = ucast (drop_bit shift (x AND m))"

definition make_io :: "u64 \<Rightarrow> setup_field \<Rightarrow> u32 \<Rightarrow> u32 \<Rightarrow> io eca_op" where
  "make_io control f eca_in eca_out =
     bnd (c_string (sf_name f)) (\<lambda>name.
     ret \<lparr>io_name = name,
          io_direction = masked (sf_cfg f) IO_CFG_FIELD_DIR_MASK IO_CFG_FIELD_DIR_SHIFT,
          io_channel = masked (sf_cfg f) IO_CFG_FIELD_INFO_CHAN_MASK IO_CFG_FIELD_INFO_CHAN_SHIFT,
          io_eca_in = eca_in, io_eca_out = eca_out, io_index = ucast (sf_index f),
          io_special_purpose = masked (sf_special f) IO_SPECIAL_PURPOSE_MASK IO_SPECIAL_PURPOSE_SHIFT,
          io_logic_level = masked (sf_logic f) IO_LOGIC_RES_FIELD_LL_MASK IO_LOGIC_RES_FIELD_LL_SHIFT,
          io_oe_available = sf_cfg f AND IO_CFG_FIELD_OE_MASK \<noteq> 0,
          io_term_available = sf_cfg f AND IO_CFG_FIELD_TERM_MASK \<noteq> 0,
          io_spec_out_available = sf_special f AND IO_SPECIAL_OUT_MASK \<noteq> 0,
          io_spec_in_available = sf_special f AND IO_SPECIAL_IN_MASK \<noteq> 0,
          io_control_addr = control\<rparr>)"

definition is_output :: "io \<Rightarrow> bool" where
  "is_output io \<longleftrightarrow> io_direction io = IO_CFG_FIELD_DIR_OUTPUT \<or> io_direction io = IO_CFG_FIELD_DIR_INOUT"

definition is_input :: "io \<Rightarrow> bool" where
  "is_input io \<longleftrightarrow> io_direction io = IO_CFG_FIELD_DIR_INPUT \<or> io_direction io = IO_CFG_FIELD_DIR_INOUT"

text \<open>\<open>n\<close> entries are used; an entry that was not read is not initialised.\<close>

fun make_ios :: "u64 \<Rightarrow> setup_field list \<Rightarrow> nat \<Rightarrow> u32 \<Rightarrow> u32 \<Rightarrow> io list eca_op" where
  "make_ios control fs 0 eca_in eca_out = ret []"
| "make_ios control [] (Suc n) eca_in eca_out = raise (Undefined ''uninitialised setup field'')"
| "make_ios control (f # fs) (Suc n) eca_in eca_out =
     bnd (make_io control f eca_in eca_out) (\<lambda>io.
     bnd (make_ios control fs n (if is_input io then eca_in + 1 else eca_in) (if is_output io then eca_out + 1 else eca_out))
         (\<lambda>ios. ret (io # ios)))"

text \<open>The number of words in the table is computed with 32 bits; the fixed pins are not masked.\<close>

definition pin_total :: "u32 \<Rightarrow> u32" where
  "pin_total info = drop_bit IO_INFO_TOTAL_SHIFT (info AND IO_INFO_TOTAL_COUNT_MASK)"

definition table_words :: "u32 list \<Rightarrow> u32" where
  "table_words rs = pin_total (rs ! 0) * 4 + pin_total (rs ! 1) * 4 + rs ! 2 * 4"

definition IoControl :: "hardware \<Rightarrow> u64 \<Rightarrow> io list eca_op" where
  "IoControl hw control =
     bnd (cycle hw [BusRead (control + eGPIO_Info), BusRead (control + eLVDS_Info), BusRead (control + eFIXED_Info)]) (\<lambda>rs.
     bnd (table_entries hw control 0 (unat (table_words rs) div 4)) (\<lambda>fs.
     make_ios control fs (unat (pin_total (rs ! 0) + pin_total (rs ! 1))) 0 0))"

end
