(* ===== verification/Io_Switches.thy ===== *)
theory Io_Switches
  imports Io
begin

text \<open>
  What the switches of the pins do to the hardware. The register bank behind a switch is documented
  by the names of its registers: ones written to a set register switch bits on, ones written to a
  reset register switch them off, and a read of a set register gives the state.
\<close>

section \<open>The register bank\<close>

fun bank_step :: "u64 \<Rightarrow> u64 \<Rightarrow> bus_op \<Rightarrow> u32 \<Rightarrow> u32" where
  "bank_step s r (BusWrite a d) x = (if a = s then x OR d else if a = r then x AND NOT d else x)"
| "bank_step s r (BusRead a) x = x"

definition bank_word :: "u64 \<Rightarrow> u64 \<Rightarrow> bus_op list \<Rightarrow> u32" where
  "bank_word s r log = fold (bank_step s r) log 0"

lemma bank_word_snoc [simp]: "bank_word s r (log @ [x]) = bank_step s r x (bank_word s r log)"
  by (simp add: bank_word_def)

text \<open>The state of pin \<open>p\<close> of a channel: bit \<open>p mod 32\<close> of the word \<open>p div 32\<close>.\<close>

fun pin :: "u64 \<Rightarrow> switch_registers \<Rightarrow> bus_op list \<Rightarrow> nat \<Rightarrow> bool" where
  "pin base (sl, sh, rl, rh) log p =
     (if p < 32 then bit (bank_word (base + sl) (base + rl) log) p
      else if p < 64 then bit (bank_word (base + sh) (base + rh) log) (p - 32) else False)"

fun answers_as_bank :: "hardware \<Rightarrow> u64 \<Rightarrow> switch_registers \<Rightarrow> bool" where
  "answers_as_bank hw base (sl, sh, rl, rh) \<longleftrightarrow>
     (\<forall>log. hw_answer hw log (base + sl) = bank_word (base + sl) (base + rl) log \<and>
            hw_answer hw log (base + sh) = bank_word (base + sh) (base + rh) log)"

fun distinct_registers :: "switch_registers \<Rightarrow> bool" where
  "distinct_registers (sl, sh, rl, rh) \<longleftrightarrow> distinct [sl, sh, rl, rh]"

lemma pin_read [simp]: "pin base regs (log @ [BusRead a]) = pin base regs log"
  by (cases regs) (simp add: fun_eq_iff)

lemma bit_one_shifted: "bit (push_bit n 1 :: u32) m \<longleftrightarrow> m = n \<and> n < 32"
  by (auto simp: bit_simps)

lemma bank_step_bit:
  assumes "n < 32"
  shows "bit (bank_step s r (BusWrite a (push_bit n 1)) x) m \<longleftrightarrow>
    (if a = s then m = n \<or> bit x m else if a = r then m \<noteq> n \<and> bit x m else bit x m)"
proof -
  have "bit (x OR push_bit n 1) m \<longleftrightarrow> m = n \<or> bit x m" "bit (x AND NOT (push_bit n 1)) m \<longleftrightarrow> m \<noteq> n \<and> bit x m"
    using assms bit_imp_le_length [of x m] by (auto simp only: bit_or_iff bit_and_iff bit_not_iff_eq bit_one_shifted) (auto)
  then show ?thesis by (simp del: push_bit_of_1)
qed

lemma pin_write:
  assumes "distinct_registers regs" "n < 32"
  shows "pin base regs (log @ [BusWrite (base + (if v then set_register pos regs else reset_register pos regs)) (push_bit n 1)])
    = (pin base regs log)((if pos = 0 then n else n + 32) := v)"
proof -
  obtain sl sh rl rh where r: "regs = (sl, sh, rl, rh)" by (cases regs)
  have d: "sl \<noteq> sh" "sl \<noteq> rl" "sl \<noteq> rh" "sh \<noteq> rl" "sh \<noteq> rh" "rl \<noteq> rh" using assms(1) by (simp_all add: r)
  note d' = d d [symmetric]
  have "k - 32 \<noteq> n" if "\<not> k < 32" "k \<noteq> n + 32" for k using that by arith
  then show ?thesis
    by (cases v; cases "pos = 0")
      (simp_all add: r fun_eq_iff bank_step_bit [OF assms(2)] d' assms(2) del: bank_step.simps push_bit_of_1)
qed
section \<open>The pin a switch addresses\<close>

text \<open>From pin 32 on it is the next one.\<close>

definition addressed_pin :: "io \<Rightarrow> nat" where
  "addressed_pin io = (if unat (io_index io) > 31 then unat (io_index io) + 1 else unat (io_index io))"

lemma internal_id_nat:
  "unat (internal_id io) = (if unat (io_index io) > 31 then unat (io_index io) - 31 else unat (io_index io))"
  by (simp add: internal_id_def word_less_nat_alt unat_sub word_le_nat_alt)

lemma access_nat: "access_position io = (if unat (io_index io) > 31 then 1 else 0)"
  by (simp add: access_position_def word_less_nat_alt)

text \<open>The two branches of a switch on a channel, with the table of the channel.\<close>

definition table_of_channel :: "io \<Rightarrow> switch_registers \<Rightarrow> switch_registers \<Rightarrow> switch_registers \<Rightarrow> bool" where
  "table_of_channel io gpio lvds regs \<longleftrightarrow> by_channel io gpio lvds = Some regs"

lemma set_switch_effect:
  assumes "table_of_channel io gpio lvds regs" "distinct_registers regs" "unat (io_index io) < 63"
    and "\<And>log ops. hw_failure hw log ops = None"
  shows "\<exists>w'. set_switch hw io gpio lvds v w = (Inr (), w') \<and>
    pin (io_control_addr io) regs (ec_log w') = (pin (io_control_addr io) regs (ec_log w))(addressed_pin io := v)"
proof -
  let ?n = "unat (internal_id io)" and ?b = "io_control_addr io"
  have n: "?n < 32" using assms(3) unfolding internal_id_nat by arith
  let ?op = "BusWrite (?b + (if v then set_register (access_position io) regs else reset_register (access_position io) regs)) (push_bit ?n 1)"
  have "set_switch hw io gpio lvds v w = (Inr (), w\<lparr>ec_log := ec_log w @ [?op]\<rparr>)"
    using assms(1,4) n by (simp add: set_switch_def table_of_channel_def shifted_one_def cycle_def close_cycle_def op_simps)
  moreover have "(if access_position io = 0 then ?n else ?n + 32) = addressed_pin io"
    by (simp add: internal_id_nat access_nat addressed_pin_def)
  ultimately show ?thesis using pin_write [OF assms(2) n, of ?b "ec_log w" v "access_position io"] by simp
qed

lemma get_switch_effect:
  assumes "table_of_channel io gpio lvds regs" "answers_as_bank hw (io_control_addr io) regs" "unat (io_index io) < 63"
    and "\<And>log ops. hw_failure hw log ops = None"
  shows "\<exists>w'. get_switch hw io gpio lvds w = (Inr (pin (io_control_addr io) regs (ec_log w) (addressed_pin io)), w') \<and>
    pin (io_control_addr io) regs (ec_log w') = pin (io_control_addr io) regs (ec_log w)"
proof -
  let ?n = "unat (internal_id io)"
  have n: "?n < 32" using assms(3) unfolding internal_id_nat by arith
  have z: "drop_bit ?n (x AND push_bit ?n 1) \<noteq> 0 \<longleftrightarrow> bit x ?n" for x :: u32
  proof -
    have "drop_bit ?n (x AND push_bit ?n 1) = (if bit x ?n then 1 else 0)"
      by (rule bit_word_eqI) (use n in \<open>auto simp: bit_simps intro!: gr0I\<close>)
    then show ?thesis by simp
  qed
  obtain sl sh rl rh where r: "regs = (sl, sh, rl, rh)" by (cases regs)
  have "hw_answer hw (ec_log w) (io_control_addr io + set_register (access_position io) regs) =
      (if access_position io = 0 then bank_word (io_control_addr io + sl) (io_control_addr io + rl) (ec_log w)
       else bank_word (io_control_addr io + sh) (io_control_addr io + rh) (ec_log w))"
    using assms(2) by (simp add: r)
  then have "bit (hw_answer hw (ec_log w) (io_control_addr io + set_register (access_position io) regs)) ?n
      = pin (io_control_addr io) regs (ec_log w) (addressed_pin io)"
    using assms(3) by (auto simp: r internal_id_nat access_nat addressed_pin_def)
  then show ?thesis using assms(1,4) n
    by (simp add: get_switch_def table_of_channel_def shifted_one_def cycle_def close_cycle_def op_simps z del: push_bit_of_1 drop_bit_and)
qed

end
