(* ===== verification/Inputs_Facts.thy ===== *)
theory Inputs_Facts
  imports Inputs_Outputs Io_Switches
begin

text \<open>
  The latch unit as its register comments describe it, the agreement between it and the input
  objects, and the numbers the control unit gives to the pins.
\<close>

section \<open>The latch unit\<close>

type_synonym latch_config = "u32 \<times> u32 \<times> u32 \<times> u32"

record latch_unit =
  tl_select :: u32
  tl_enable :: u32
  tl_stable :: u32
  tl_event_hi :: u32
  tl_event_lo :: u32
  tl_table :: "u32 \<Rightarrow> latch_config"

text \<open>A write to the last register stores the contents of the others for the selected input.\<close>

fun latch_step :: "u64 \<Rightarrow> bus_op \<Rightarrow> latch_unit \<Rightarrow> latch_unit" where
  "latch_step tlu (BusWrite a d) u =
     (if a = tlu + ECA_TLU_INPUT_SELECT_RW then u\<lparr>tl_select := d\<rparr>
      else if a = tlu + ECA_TLU_ENABLE_RW then u\<lparr>tl_enable := d\<rparr>
      else if a = tlu + ECA_TLU_STABLE_RW then u\<lparr>tl_stable := d\<rparr>
      else if a = tlu + ECA_TLU_EVENT_HI_RW then u\<lparr>tl_event_hi := d\<rparr>
      else if a = tlu + ECA_TLU_EVENT_LO_RW then u\<lparr>tl_event_lo := d\<rparr>
      else if a = tlu + ECA_TLU_WRITE_OWR
      then u\<lparr>tl_table := (tl_table u)(tl_select u := (tl_enable u, tl_stable u, tl_event_hi u, tl_event_lo u))\<rparr>
      else u)"
| "latch_step tlu (BusRead a) u = u"

definition latched :: "u64 \<Rightarrow> bus_op list \<Rightarrow> u32 \<Rightarrow> latch_config" where
  "latched tlu history = tl_table (fold (latch_step tlu) history
     \<lparr>tl_select = 0, tl_enable = 0, tl_stable = 0, tl_event_hi = 0, tl_event_lo = 0, tl_table = (\<lambda>_. (0, 0, 0, 0))\<rparr>)"

definition wanted :: "input \<Rightarrow> latch_config" where
  "wanted i = (if in_enable i then 1 else 0, in_stable i div 8 - 1, ucast (drop_bit 32 (in_event i)), ucast (in_event i))"

lemma latched_config:
  "latched tlu (history @ config_ops tlu channel enable event st) =
   (latched tlu history)(channel := (if enable then 1 else 0, st div 8 - 1, ucast (drop_bit 32 event), ucast event))"
  by (simp add: latched_def config_ops_def ECA_TLU_INPUT_SELECT_RW_def ECA_TLU_ENABLE_RW_def ECA_TLU_STABLE_RW_def
      ECA_TLU_EVENT_HI_RW_def ECA_TLU_EVENT_LO_RW_def ECA_TLU_WRITE_OWR_def)

section \<open>The inputs and the latch unit agree\<close>

text \<open>What the comments of the setters promise of the fields.\<close>

definition input_ok :: "input \<Rightarrow> bool" where
  "input_ok i \<longleftrightarrow> in_stable i mod 8 = 0 \<and> 16 \<le> in_stable i \<and> in_event i mod 2 = 0"

definition separate_channels :: "'z board_scheme \<Rightarrow> bool" where
  "separate_channels w \<longleftrightarrow> distinct (map in_channel (bo_inputs w))"

definition latch_agrees :: "'z board_scheme \<Rightarrow> bool" where
  "latch_agrees w \<longleftrightarrow> (\<forall>i \<in> set (bo_inputs w). latched (bo_tlu w) (ec_log (bo_eca w)) (in_channel i) = wanted i)"

definition inputs_ok :: "'z board_scheme \<Rightarrow> bool" where
  "inputs_ok w \<longleftrightarrow> list_all input_ok (bo_inputs w)"

lemma send_config_eq:
  assumes "k < length (bo_inputs w)"
  shows "send_config hw k w = (case hw_failure hw (ec_log (bo_eca w)) (config_ops (bo_tlu w) (in_channel (bo_inputs w ! k))
      (in_enable (bo_inputs w ! k)) (in_event (bo_inputs w ! k)) (in_stable (bo_inputs w ! k))) of
    Some e \<Rightarrow> (Inl e, w)
  | None \<Rightarrow> (Inr (), w\<lparr>bo_eca := (bo_eca w)\<lparr>ec_log := ec_log (bo_eca w) @ config_ops (bo_tlu w) (in_channel (bo_inputs w ! k))
      (in_enable (bo_inputs w ! k)) (in_event (bo_inputs w ! k)) (in_stable (bo_inputs w ! k))\<rparr>\<rparr>))"
  using assms
  by (simp add: send_config_def configInput_def deref_input_def on_eca_def cycle_def close_cycle_def op_simps split: option.split)

lemma input_ownerOnly_state: "input_ownerOnly k w = (x, w') \<Longrightarrow> w' = w"
proof -
  assume r: "input_ownerOnly k w = (x, w')"
  show ?thesis
  proof (cases "k < length (bo_inputs w)")
    case True
    let ?o = "in_owned (bo_inputs w ! k)"
    have "snd (ownerOnly ?o (bo_eca w)) = bo_eca w"
      using keepsD [OF keeps_check_owner [of "\<lambda>e. e = bo_eca w" ?o], of "bo_eca w"] by simp
    with r True show ?thesis
      by (auto simp: input_ownerOnly_def deref_input_def on_eca_def bnd_def split: prod.splits)
  qed (use r in \<open>simp add: input_ownerOnly_def deref_input_def bnd_def\<close>)
qed

text \<open>A setter that passes its checks changes one field and sends the fields to the latch unit.\<close>

definition change_input :: "hardware \<Rightarrow> nat \<Rightarrow> bool \<Rightarrow> (input \<Rightarrow> input) \<Rightarrow> ('z, unit) board_op" where
  "change_input hw k same f = (if same then ret () else thn (modify_input k f) (send_config hw k))"

lemma input_ownerOnly_cases:
  obtains e where "input_ownerOnly k w = (Inl e, w)"
  | "input_ownerOnly k w = (Inr (), w)" "k < length (bo_inputs w)"
proof -
  obtain x w1 where "input_ownerOnly k w = (x, w1)" by fastforce
  moreover from this have "w1 = w" by (rule input_ownerOnly_state)
  ultimately have o: "input_ownerOnly k w = (x, w)" by simp
  show thesis
  proof (cases x)
    case (Inl e)
    with o that(1) show thesis by simp
  next
    case (Inr u)
    then have "k < length (bo_inputs w)" using o by (cases "k < length (bo_inputs w)") (simp_all add: input_ownerOnly_def deref_input_def bnd_def)
    with o Inr that(2) show thesis by simp
  qed
qed

lemma owned_input_setter:
  assumes "thn (input_ownerOnly k) m w = (r, w')"
  obtains e where "r = Inl e" "w' = w"
  | "input_ownerOnly k w = (Inr (), w)" "k < length (bo_inputs w)" "m w = (r, w')"
proof (cases rule: input_ownerOnly_cases [of k w])
  case (1 e)
  with assms show thesis using that(1) [of e] by (simp add: thn_def bnd_def)
next
  case 2
  with assms show thesis using that(2) by (simp add: thn_def bnd_def)
qed

lemma checked_setter:
  assumes "thn (throw_if b e) m w = (r, w')"
  obtains "r = Inl e" "w' = w" | "\<not> b" "m w = (r, w')"
  using assms by (cases b) (auto simp: op_simps)

lemma field_setter:
  assumes "bnd (deref_input k) (\<lambda>i. if g i = v then ret () else thn (modify_input k f) (send_config hw k)) w = (r, w')"
    and "k < length (bo_inputs w)"
  shows "change_input hw k (g (bo_inputs w ! k) = v) f w = (r, w')"
  using assms by (simp add: bnd_def deref_input_def change_input_def)

lemma setEventEnable_cases:
  assumes "setEventEnable hw k v w = (r, w')"
  obtains e where "r = Inl e" "w' = w"
  | "input_ownerOnly k w = (Inr (), w)" "k < length (bo_inputs w)"
    "change_input hw k (in_enable (bo_inputs w ! k) = v) (\<lambda>i. i\<lparr>in_enable := v\<rparr>) w = (r, w')"
  using assms unfolding setEventEnable_def by (elim owned_input_setter) (auto dest: field_setter intro: that)

lemma setEventPrefix_cases:
  assumes "setEventPrefix hw k v w = (r, w')"
  obtains e where "r = Inl e" "w' = w"
  | "input_ownerOnly k w = (Inr (), w)" "k < length (bo_inputs w)" "v mod 2 = 0"
    "change_input hw k (in_event (bo_inputs w ! k) = v) (\<lambda>i. i\<lparr>in_event := v\<rparr>) w = (r, w')"
  using assms unfolding setEventPrefix_def
proof (elim owned_input_setter checked_setter)
  assume "input_ownerOnly k w = (Inr (), w)" "k < length (bo_inputs w)" "\<not> v mod 2 \<noteq> 0"
    and "bnd (deref_input k) (\<lambda>i. if in_event i = v then ret () else thn (modify_input k (in_event_update (\<lambda>_. v))) (send_config hw k)) w = (r, w')"
  note a = this
  show thesis by (rule that(2) [OF a(1,2) _ field_setter [where g = in_event, OF a(4) a(2)]]) (use a in simp_all)
qed (use that(1) in blast)+

lemma setStableTime_cases:
  assumes "setStableTime hw k v w = (r, w')"
  obtains e where "r = Inl e" "w' = w"
  | "input_ownerOnly k w = (Inr (), w)" "k < length (bo_inputs w)" "v mod 8 = 0" "16 \<le> v"
    "change_input hw k (in_stable (bo_inputs w ! k) = v) (\<lambda>i. i\<lparr>in_stable := v\<rparr>) w = (r, w')"
  using assms unfolding setStableTime_def
proof (elim owned_input_setter checked_setter)
  assume "input_ownerOnly k w = (Inr (), w)" "k < length (bo_inputs w)" "\<not> v mod 8 \<noteq> 0" "\<not> v < 16"
    and "bnd (deref_input k) (\<lambda>i. if in_stable i = v then ret () else thn (modify_input k (in_stable_update (\<lambda>_. v))) (send_config hw k)) w = (r, w')"
  note a = this
  show thesis by (rule that(2) [OF a(1,2) _ _ field_setter [where g = in_stable, OF a(5) a(2)]]) (use a in simp_all)
qed (use that(1) in blast)+

text \<open>Changing a field keeps the channel; what is sent is what the changed input wants.\<close>

lemma change_input_result:
  assumes "change_input hw k same f w = (r, w')" "k < length (bo_inputs w)" "same \<Longrightarrow> f (bo_inputs w ! k) = bo_inputs w ! k"
  shows "bo_inputs w' = (bo_inputs w)[k := f (bo_inputs w ! k)] \<and> bo_tlu w' = bo_tlu w"
proof (cases same)
  case True
  then show ?thesis using assms by (auto simp: change_input_def ret_def)
next
  case False
  let ?w1 = "w\<lparr>bo_inputs := (bo_inputs w)[k := f (bo_inputs w ! k)]\<rparr>"
  have "send_config hw k ?w1 = (r, w')" using assms(1) False by (simp add: change_input_def modify_input_def op_simps)
  moreover have "k < length (bo_inputs ?w1)" using assms(2) by simp
  ultimately show ?thesis unfolding send_config_eq [OF \<open>k < length (bo_inputs ?w1)\<close>]
    by (auto split: option.splits)
qed

lemma change_input_agrees:
  assumes "change_input hw k same f w = (Inr (), w')" "k < length (bo_inputs w)" "same \<Longrightarrow> f (bo_inputs w ! k) = bo_inputs w ! k"
    and "in_channel (f (bo_inputs w ! k)) = in_channel (bo_inputs w ! k)" "separate_channels w" "latch_agrees w"
  shows "latch_agrees w'"
proof (cases same)
  case True
  then show ?thesis using assms by (simp add: change_input_def ret_def)
next
  case False
  let ?i = "f (bo_inputs w ! k)"
  let ?w1 = "w\<lparr>bo_inputs := (bo_inputs w)[k := ?i]\<rparr>"
  have k: "k < length (bo_inputs ?w1)" using assms(2) by simp
  have s: "send_config hw k ?w1 = (Inr (), w')" using assms(1) False by (simp add: change_input_def modify_input_def op_simps)
  have log: "ec_log (bo_eca w') = ec_log (bo_eca w) @ config_ops (bo_tlu w) (in_channel ?i) (in_enable ?i) (in_event ?i) (in_stable ?i)"
    using s assms(2) unfolding send_config_eq [OF k] by (auto split: option.splits)
  have inp: "bo_inputs w' = (bo_inputs w)[k := ?i]" "bo_tlu w' = bo_tlu w"
    using change_input_result [OF assms(1-3)] by simp_all
  have eq: "latched (bo_tlu w') (ec_log (bo_eca w')) = (latched (bo_tlu w) (ec_log (bo_eca w)))(in_channel ?i := wanted ?i)"
    by (simp add: log inp latched_config wanted_def)
  show ?thesis unfolding latch_agrees_def eq unfolding inp(1)
  proof
    fix i assume "i \<in> set ((bo_inputs w)[k := ?i])"
    then obtain j where j: "j < length (bo_inputs w)" "i = (bo_inputs w)[k := ?i] ! j" by (auto simp: in_set_conv_nth)
    show "((latched (bo_tlu w) (ec_log (bo_eca w)))(in_channel ?i := wanted ?i)) (in_channel i) = wanted i"
    proof (cases "j = k")
      case True
      with j show ?thesis by simp
    next
      case False
      then have i: "i = bo_inputs w ! j" using j by simp
      then have "in_channel i \<noteq> in_channel ?i"
        using assms(2,4,5) j(1) False nth_eq_iff_index_eq [of "map in_channel (bo_inputs w)" j k]
        by (simp add: separate_channels_def)
      moreover have "latched (bo_tlu w) (ec_log (bo_eca w)) (in_channel i) = wanted i"
        using assms(6) i j(1) by (simp add: latch_agrees_def)
      ultimately show ?thesis by simp
    qed
  qed
qed

section \<open>Calls on the inputs\<close>

text \<open>One call of a setter, with its result.\<close>

inductive input_call :: "hardware \<Rightarrow> exn + unit \<Rightarrow> 'z board_scheme \<Rightarrow> 'z board_scheme \<Rightarrow> bool" for hw where
  enable: "setEventEnable hw k b w = (r, w') \<Longrightarrow> input_call hw r w w'"
| event: "setEventPrefix hw k v w = (r, w') \<Longrightarrow> input_call hw r w w'"
| stable_time: "setStableTime hw k s w = (r, w') \<Longrightarrow> input_call hw r w w'"

lemma change_input_ok:
  assumes "change_input hw k same f w = (r, w')" "k < length (bo_inputs w)" "same \<Longrightarrow> f (bo_inputs w ! k) = bo_inputs w ! k"
    and "inputs_ok w" "input_ok (f (bo_inputs w ! k))"
  shows "inputs_ok w'"
  using change_input_result [OF assms(1-3)] assms(2,4,5)
  by (auto simp: inputs_ok_def list_all_iff dest!: set_update_subset_insert [THEN subsetD])

lemma change_input_channels:
  assumes "change_input hw k same f w = (r, w')" "k < length (bo_inputs w)" "same \<Longrightarrow> f (bo_inputs w ! k) = bo_inputs w ! k"
    and "in_channel (f (bo_inputs w ! k)) = in_channel (bo_inputs w ! k)"
  shows "map in_channel (bo_inputs w') = map in_channel (bo_inputs w)"
  using change_input_result [OF assms(1-3)] assms(2,4) by (simp add: map_update list_update_same_conv)

lemma input_ok_nth: "inputs_ok w \<Longrightarrow> k < length (bo_inputs w) \<Longrightarrow> input_ok (bo_inputs w ! k)"
  by (simp add: inputs_ok_def list_all_length)

lemma input_call_ok:
  assumes "input_call hw r w w'" and ok: "inputs_ok w" shows "inputs_ok w'"
  using assms(1)
proof cases
  case (enable k b)
  from this show ?thesis
  proof (cases rule: setEventEnable_cases)
    case 2
    show ?thesis by (rule change_input_ok [OF 2(3,2) _ ok]) (use input_ok_nth [OF ok 2(2)] in \<open>simp_all add: input_ok_def\<close>)
  qed (simp add: ok)
next
  case (event k v)
  from this show ?thesis
  proof (cases rule: setEventPrefix_cases)
    case 2
    show ?thesis by (rule change_input_ok [OF 2(4,2) _ ok]) (use input_ok_nth [OF ok 2(2)] 2(3) in \<open>simp_all add: input_ok_def\<close>)
  qed (simp add: ok)
next
  case (stable_time k s)
  from this show ?thesis
  proof (cases rule: setStableTime_cases)
    case 2
    show ?thesis by (rule change_input_ok [OF 2(5,2) _ ok]) (use input_ok_nth [OF ok 2(2)] 2(3,4) in \<open>simp_all add: input_ok_def\<close>)
  qed (simp add: ok)
qed

lemma input_call_agrees:
  assumes "input_call hw (Inr ()) w w'" and s: "separate_channels w" and a: "latch_agrees w"
  shows "separate_channels w' \<and> latch_agrees w'"
  using assms(1)
proof cases
  case (enable k b)
  from this show ?thesis
  proof (cases rule: setEventEnable_cases)
    case 2
    show ?thesis using change_input_channels [OF 2(3,2)] change_input_agrees [OF 2(3,2) _ _ s a] s
      by (simp add: separate_channels_def)
  qed simp
next
  case (event k v)
  from this show ?thesis
  proof (cases rule: setEventPrefix_cases)
    case 2
    show ?thesis using change_input_channels [OF 2(4,2)] change_input_agrees [OF 2(4,2) _ _ s a] s
      by (simp add: separate_channels_def)
  qed simp
next
  case (stable_time k v)
  from this show ?thesis
  proof (cases rule: setStableTime_cases)
    case 2
    show ?thesis using change_input_channels [OF 2(5,2)] change_input_agrees [OF 2(5,2) _ _ s a] s
      by (simp add: separate_channels_def)
  qed simp
qed

lemma input_calls_ok: "(\<lambda>v v'. \<exists>r. input_call hw r v v')\<^sup>*\<^sup>* w w' \<Longrightarrow> inputs_ok w \<Longrightarrow> inputs_ok w'"
  by (induction rule: rtranclp_induct) (auto intro: input_call_ok)

lemma input_calls_agree:
  "(input_call hw (Inr ()))\<^sup>*\<^sup>* w w' \<Longrightarrow> separate_channels w \<Longrightarrow> latch_agrees w \<Longrightarrow> separate_channels w' \<and> latch_agrees w'"
  by (induction rule: rtranclp_induct) (auto dest: input_call_agrees)

section \<open>The numbers of the pins\<close>

lemma make_ios_numbers:
  "make_ios control fs n eca_in eca_out w = (Inr ios, w') \<Longrightarrow> length ios = n \<and>
   (\<forall>i < n. io_eca_in (ios ! i) = eca_in + of_nat (length (filter is_input (take i ios))) \<and>
            io_eca_out (ios ! i) = eca_out + of_nat (length (filter is_output (take i ios))))"
proof (induction control fs n eca_in eca_out arbitrary: w w' ios rule: make_ios.induct)
  case (3 control f fs n eca_in eca_out)
  obtain io w1 where io: "make_io control f eca_in eca_out w = (Inr io, w1)"
    using 3(2) by (cases "make_io control f eca_in eca_out w") (auto simp: bnd_def split: sum.splits)
  let ?ei = "if is_input io then eca_in + 1 else eca_in" and ?eo = "if is_output io then eca_out + 1 else eca_out"
  obtain rest w2 where rest: "make_ios control fs n ?ei ?eo w1 = (Inr rest, w2)" "ios = io # rest"
    using 3(2) io by (cases "make_ios control fs n ?ei ?eo w1") (auto simp: bnd_def ret_def split: sum.splits)
  have e: "io_eca_in io = eca_in" "io_eca_out io = eca_out"
    using io by (auto simp: make_io_def bnd_def ret_def split: prod.splits sum.splits)
  from 3(1) [OF rest(1)] show ?case by (auto simp: rest(2) e less_Suc_eq_0_disj)
qed (simp_all add: ret_def raise_def)

lemma table_entries_overflow:
  assumes "\<And>history ops. hw_failure hw history ops = None"
  shows "192 < i + n \<Longrightarrow> 0 < n \<Longrightarrow> \<exists>w'. table_entries hw control i n w = (Inl (Undefined ''s_aIOCONTROL_SetupField''), w')"
proof (induction n arbitrary: i w)
  case (Suc n)
  have word: "table_word hw control j x = (Inr (hw_answer hw (ec_log x) (control + ucast (ucast eIO_Map_Table_Begin + of_nat j * 4 :: u32))),
      x\<lparr>ec_log := ec_log x @ [BusRead (control + ucast (ucast eIO_Map_Table_Begin + of_nat j * 4 :: u32))]\<rparr>)" for j x
    using assms by (simp add: table_word_def cycle_def close_cycle_def op_simps)
  show ?case
  proof (cases "192 \<le> i")
    case True
    then show ?thesis by (simp add: table_entry_def word op_simps IO_GPIO_MAX_def IO_LVDS_MAX_def IO_FIXED_MAX_def)
  next
    case False
    then have "\<exists>f w1. table_entry hw control i w = (Inr f, w1)"
      by (simp add: table_entry_def word op_simps IO_GPIO_MAX_def IO_LVDS_MAX_def IO_FIXED_MAX_def)
    then obtain f w1 where f: "table_entry hw control i w = (Inr f, w1)" by blast
    have "192 < Suc i + n" "0 < n" using Suc.prems False by simp_all
    from Suc.IH [OF this, of w1] f show ?thesis by (auto simp: bnd_def)
  qed
qed simp

lemma IoControl_numbers:
  assumes "IoControl hw control w = (Inr ios, w')"
  shows "length ios < 2 ^ 32 \<and> (\<forall>i < length ios. io_eca_in (ios ! i) = of_nat (length (filter is_input (take i ios))) \<and>
    io_eca_out (ios ! i) = of_nat (length (filter is_output (take i ios))))"
proof -
  obtain rs fs w1 where m: "make_ios control fs (unat (pin_total (rs ! 0) + pin_total (rs ! 1))) 0 0 w1 = (Inr ios, w')"
    using assms unfolding IoControl_def by (auto simp: bnd_eq_Inr)
  have "length ios < 2 ^ 32" using make_ios_numbers [OF m] unsigned_less [of "pin_total (rs ! 0) + pin_total (rs ! 1)"] by simp
  with make_ios_numbers [OF m] show ?thesis by auto
qed

end
