(* ===== verification/Board_Properties.thy ===== *)
theory Board_Properties
  imports Inputs_Facts ECA_Properties
begin

text \<open>
  The properties of the pins, inputs, outputs and hardware action sinks of a timing receiver.
\<close>

section \<open>Instances\<close>

definition example_io :: "u32 \<Rightarrow> u32 \<Rightarrow> io" where
  "example_io channel index =
     \<lparr>io_name = ''IO1'', io_direction = 2, io_channel = channel, io_eca_in = 0, io_eca_out = 0, io_index = index,
      io_special_purpose = 0, io_logic_level = 0, io_oe_available = True, io_term_available = True,
      io_spec_out_available = False, io_spec_in_available = False, io_control_addr = 0\<rparr>"

text \<open>The tables of the switches, for both channels.\<close>

definition switch_tables :: "(switch_registers \<times> switch_registers) list" where
  "switch_tables =
     [(termination_gpio, termination_lvds), (special_out_gpio, special_out_lvds), (gate_out_gpio, gate_out_lvds),
      (special_in_gpio, special_in_lvds), (gate_in_gpio, gate_in_lvds), (butis_gpio, butis_lvds), (pps_gpio, pps_lvds)]"

lemmas register_defs =
  termination_gpio_def termination_lvds_def special_out_gpio_def special_out_lvds_def gate_out_gpio_def gate_out_lvds_def
  special_in_gpio_def special_in_lvds_def gate_in_gpio_def gate_in_lvds_def butis_gpio_def butis_lvds_def pps_gpio_def pps_lvds_def
  oe_gpio_def oe_lvds_def

lemma tables_distinct:
  "(gpio, lvds) \<in> set ((oe_gpio, oe_lvds) # switch_tables) \<Longrightarrow> distinct_registers gpio \<and> distinct_registers lvds"
proof -
  have "list_all (\<lambda>(g, l). distinct_registers g \<and> distinct_registers l) ((oe_gpio, oe_lvds) # switch_tables)" by code_simp
  then show "(gpio, lvds) \<in> set ((oe_gpio, oe_lvds) # switch_tables) \<Longrightarrow> distinct_registers gpio \<and> distinct_registers lvds"
    unfolding list_all_iff by blast
qed

definition bank_hardware :: "switch_registers \<Rightarrow> hardware" where
  "bank_hardware regs = (case regs of (sl, sh, rl, rh) \<Rightarrow>
     \<lparr>hw_answer = (\<lambda>history a. if a = sl then bank_word sl rl history else if a = sh then bank_word sh rh history else 0),
      hw_failure = (\<lambda>_ _. None)\<rparr>)"

lemma bank_hardware_answers: "distinct_registers regs \<Longrightarrow> answers_as_bank (bank_hardware regs) 0 regs"
  by (cases regs) (auto simp: bank_hardware_def)

lemma bank_hardware_works: "hw_failure (bank_hardware regs) history ops = None"
  by (cases regs) (simp add: bank_hardware_def)

definition blank_world :: "string \<Rightarrow> eca" where
  "blank_world path = blank_eca \<lparr>bs_objects = [], bs_lookup = [], bs_removed = [], bs_next_id = 1, bs_plugins = [],
     bs_info = [], bs_calling = 5, bs_clients = []\<rparr> False path 0 [] (new_loop 3 1 1) 0 [3, 4, 5]"

section \<open>Switches of the pins\<close>

text \<open>
  C15. For every switch of a pin (termination, special purpose in and out, gates, multiplexers), on a
  control unit whose set registers read back what was set and reset: after a successful set of the
  switch of one pin, reading the switch of any pin of the same channel gives the value set if it
  is the same pin, and what it gave before if it is another one.
\<close>

theorem switch_round_trip:
  assumes "(gpio, lvds) \<in> set switch_tables" "by_channel io gpio lvds = Some regs"
    and "by_channel io2 gpio lvds = Some regs" "io_control_addr io2 = io_control_addr io"
    and "unat (io_index io) < 63" "unat (io_index io2) < 63"
    and "answers_as_bank hw (io_control_addr io) regs" "\<And>history ops. hw_failure hw history ops = None"
    and "set_switch hw io gpio lvds v w = (Inr (), w')" "get_switch hw io2 gpio lvds w = (Inr before, w2)"
  shows "\<exists>w3. get_switch hw io2 gpio lvds w' = (Inr (if io_index io2 = io_index io then v else before), w3)"
proof -
  have d: "distinct_registers regs" using tables_distinct [of gpio lvds] assms(1,2) by (auto simp: by_channel_def split: if_splits)
  have t: "table_of_channel io gpio lvds regs" "table_of_channel io2 gpio lvds regs" using assms(2,3) by (simp_all add: table_of_channel_def)
  obtain w3 where w3: "get_switch hw io2 gpio lvds w' = (Inr (pin (io_control_addr io) regs (ec_log w') (addressed_pin io2)), w3)"
    using get_switch_effect [OF t(2) _ assms(6,8), of w'] assms(4,7) by auto
  have "before = pin (io_control_addr io) regs (ec_log w) (addressed_pin io2)"
    using get_switch_effect [OF t(2) _ assms(6,8), of w] assms(4,7,10) by auto
  moreover have "pin (io_control_addr io) regs (ec_log w') = (pin (io_control_addr io) regs (ec_log w))(addressed_pin io := v)"
    using set_switch_effect [OF t(1) d assms(5,8), of v w] assms(9) by auto
  moreover have "addressed_pin io2 = addressed_pin io \<longleftrightarrow> io_index io2 = io_index io"
    by (auto simp: addressed_pin_def word_unat_eq_iff split: if_splits)
  ultimately show ?thesis using w3 by auto
qed

theorem switch_round_trip_witness:
  "fst (getInputTermination (bank_hardware termination_gpio) (example_io 0 5)
     (snd (setInputTermination (bank_hardware termination_gpio) (example_io 0 5) True (blank_world ''/tr'')))) = Inr True"
proof -
  let ?hw = "bank_hardware termination_gpio" and ?io = "example_io 0 5" and ?w = "blank_world ''/tr''"
  have t: "(termination_gpio, termination_lvds) \<in> set switch_tables" by (simp add: switch_tables_def)
  have c: "by_channel ?io termination_gpio termination_lvds = Some termination_gpio" "unat (io_index ?io) < 63"
    by (simp_all add: by_channel_def example_io_def IO_CFG_CHANNEL_GPIO_def)
  have a: "answers_as_bank ?hw (io_control_addr ?io) termination_gpio"
    using bank_hardware_answers [of termination_gpio] tables_distinct [of termination_gpio termination_lvds] t by (simp add: example_io_def)
  have "fst (set_switch ?hw ?io termination_gpio termination_lvds True ?w) = Inr ()" by code_simp
  then have s: "set_switch ?hw ?io termination_gpio termination_lvds True ?w = (Inr (), snd (set_switch ?hw ?io termination_gpio termination_lvds True ?w))"
    by (metis prod.collapse)
  have "fst (get_switch ?hw ?io termination_gpio termination_lvds ?w) = Inr False" by code_simp
  then have g: "get_switch ?hw ?io termination_gpio termination_lvds ?w = (Inr False, snd (get_switch ?hw ?io termination_gpio termination_lvds ?w))"
    by (metis prod.collapse)
  from switch_round_trip [OF t c(1) c(1) refl c(2) c(2) a bank_hardware_works s g] show ?thesis
    unfolding getInputTermination_def setInputTermination_def by auto
qed

text \<open>
  C20. The index of the bit is computed with 31 instead of 32: setting a switch of pin \<open>n\<close>
  from 32 on changes the switch of the physical pin \<open>n + 1\<close> and of no other; the
  switch of pin \<open>n\<close> itself stays as it is.
\<close>

theorem upper_pins_are_shifted:
  assumes "(gpio, lvds) \<in> set switch_tables" "by_channel io gpio lvds = Some regs"
    and "31 < unat (io_index io)" "unat (io_index io) < 63" "\<And>history ops. hw_failure hw history ops = None"
  shows "\<exists>w'. set_switch hw io gpio lvds v w = (Inr (), w') \<and>
    pin (io_control_addr io) regs (ec_log w') =
      (pin (io_control_addr io) regs (ec_log w))(unat (io_index io) + 1 := v)"
proof -
  have d: "distinct_registers regs" using tables_distinct [of gpio lvds] assms(1,2) by (auto simp: by_channel_def split: if_splits)
  have "table_of_channel io gpio lvds regs" using assms(2) by (simp add: table_of_channel_def)
  from set_switch_effect [OF this d assms(4,5), of v w] show ?thesis using assms(3) by (simp add: addressed_pin_def)
qed

theorem upper_pins_are_shifted_witness:
  "\<exists>w'. setGateIn silent_hardware (example_io 1 40) True (blank_world ''/tr'') = (Inr (), w') \<and>
     pin 0 gate_in_lvds (ec_log w') = (pin 0 gate_in_lvds [])(41 := True)"
proof -
  have t: "(gate_in_gpio, gate_in_lvds) \<in> set switch_tables" by (simp add: switch_tables_def)
  have c: "by_channel (example_io 1 40) gate_in_gpio gate_in_lvds = Some gate_in_lvds" "31 < unat (io_index (example_io 1 40))"
    "unat (io_index (example_io 1 40)) < 63" "io_control_addr (example_io 1 40) = 0" "unat (io_index (example_io 1 40)) + 1 = 41"
    by (simp_all add: by_channel_def example_io_def IO_CFG_CHANNEL_GPIO_def IO_CFG_CHANNEL_LVDS_def)
  have l: "ec_log (blank_world ''/tr'') = []" by (simp add: blank_world_def blank_eca_def)
  from upper_pins_are_shifted [OF t c(1,2,3) silent_never_fails, of True "blank_world ''/tr''"] show ?thesis
    unfolding setGateIn_def c(4,5) l .
qed

text \<open>
  C21. The two ways to compute the bit do not fit together: for a pin from 32 on,
  \<open>setOutputEnable\<close> sets the bit of this pin, but \<open>getOutputEnable\<close>
  afterwards returns the unchanged bit of the next pin.
\<close>

theorem output_enable_reads_next_pin:
  assumes "31 < unat (io_index io)" "unat (io_index io) < 63" "by_channel io oe_gpio oe_lvds = Some regs"
    and "answers_as_bank hw (io_control_addr io) regs" "\<And>history ops. hw_failure hw history ops = None"
  shows "\<exists>w1 w2. setOutputEnable hw io v w = (Inr (), w1) \<and>
    pin (io_control_addr io) regs (ec_log w1) = (pin (io_control_addr io) regs (ec_log w))(unat (io_index io) := v) \<and>
    getOutputEnable hw io w1 = (Inr (pin (io_control_addr io) regs (ec_log w) (unat (io_index io) + 1)), w2)"
proof -
  let ?b = "io_control_addr io" and ?n = "unat (io_index io)"
  define reg where "reg = (if v then set_register 1 regs else reset_register 1 regs)"
  have u: "unat (32 :: u32) = 32" by simp
  have "unat (io_index io div 32) = ?n div 32" unfolding unat_div u ..
  also have "\<dots> = unat (1 :: u32)" using assms(1,2) by simp
  finally have div: "io_index io div 32 = 1" unfolding word_unat_eq_iff .
  have "unat (io_index io mod 32) = ?n mod 32" unfolding unat_mod u ..
  also have "\<dots> = ?n - 32" using assms(1,2) by (simp add: le_mod_geq)
  finally have md: "unat (io_index io mod 32) = ?n - 32" .
  let ?low = "if v then set_register 0 regs else reset_register 0 regs"
  have r: "regs = oe_gpio \<or> regs = oe_lvds" using assms(3) by (auto simp: by_channel_def split: if_splits)
  have "set_register 0 oe_gpio + 4 = set_register 1 oe_gpio" "set_register 0 oe_lvds + 4 = set_register 1 oe_lvds"
    "reset_register 0 oe_gpio + 4 = reset_register 1 oe_gpio" "reset_register 0 oe_lvds + 4 = reset_register 1 oe_lvds"
    by code_simp+
  then have up: "?low + 4 = reg" using r unfolding reg_def by auto
  have ch: "by_channel io (if v then eGPIO_Oe_Set_low else eGPIO_Oe_Reset_low) (if v then eLVDS_Oe_Set_low else eLVDS_Oe_Reset_low)
      = Some ?low"
    using assms(3) unfolding by_channel_def oe_gpio_def oe_lvds_def by (auto split: if_splits)
  have "ucast (4 * 1 :: u32) = (4 :: u64)" by simp
  then have "setOutputEnable hw io v w = device_write hw (?b + ?low + 4) (push_bit (?n - 32) 1) w"
    unfolding setOutputEnable_def Let_def div md ch option.case by metis
  then have "setOutputEnable hw io v w = device_write hw (?b + reg) (push_bit (?n - 32) 1) w"
    unfolding add.assoc up .
  then have s: "setOutputEnable hw io v w = (Inr (), w\<lparr>ec_log := ec_log w @ [BusWrite (?b + reg) (push_bit (?n - 32) 1)]\<rparr>)"
    using assms(5) by (simp add: device_write_def cycle_def close_cycle_def op_simps)
  let ?w1 = "w\<lparr>ec_log := ec_log w @ [BusWrite (?b + reg) (push_bit (?n - 32) 1)]\<rparr>"
  have d: "distinct_registers regs" using tables_distinct [of oe_gpio oe_lvds] assms(3) by (auto simp: by_channel_def split: if_splits)
  have p: "pin ?b regs (ec_log ?w1) = (pin ?b regs (ec_log w))(?n := v)"
    using pin_write [OF d, of "?n - 32" ?b "ec_log w" v 1] assms(1,2) by (simp add: reg_def)
  have t: "table_of_channel io oe_gpio oe_lvds regs" using assms(3) by (simp add: table_of_channel_def)
  from get_switch_effect [OF t assms(4,2,5), of ?w1] p assms(1) s show ?thesis
    by (auto simp: getOutputEnable_def addressed_pin_def)
qed

theorem output_enable_reads_next_pin_witness:
  "\<exists>w1 w2. setOutputEnable (bank_hardware oe_lvds) (example_io 1 40) True (blank_world ''/tr'') = (Inr (), w1) \<and>
     getOutputEnable (bank_hardware oe_lvds) (example_io 1 40) w1 = (Inr False, w2)"
proof -
  have c: "by_channel (example_io 1 40) oe_gpio oe_lvds = Some oe_lvds" "31 < unat (io_index (example_io 1 40))"
    "unat (io_index (example_io 1 40)) < 63" "io_control_addr (example_io 1 40) = 0"
    by (simp_all add: by_channel_def example_io_def IO_CFG_CHANNEL_GPIO_def IO_CFG_CHANNEL_LVDS_def)
  have "answers_as_bank (bank_hardware oe_lvds) (io_control_addr (example_io 1 40)) oe_lvds"
    unfolding c(4) using bank_hardware_answers [of oe_lvds] tables_distinct [of oe_gpio oe_lvds] by simp
  from output_enable_reads_next_pin [OF c(2,3,1) this bank_hardware_works, of True "blank_world ''/tr''"]
  have "\<exists>w1 w2. setOutputEnable (bank_hardware oe_lvds) (example_io 1 40) True (blank_world ''/tr'') = (Inr (), w1) \<and>
     getOutputEnable (bank_hardware oe_lvds) (example_io 1 40) w1 =
       (Inr (pin (io_control_addr (example_io 1 40)) oe_lvds (ec_log (blank_world ''/tr'')) (unat (io_index (example_io 1 40)) + 1)), w2)"
    by blast
  moreover have "pin (io_control_addr (example_io 1 40)) oe_lvds (ec_log (blank_world ''/tr'')) (unat (io_index (example_io 1 40)) + 1) = False"
    by code_simp
  ultimately show ?thesis by simp
qed

section \<open>The clock of an output\<close>

text \<open>
  C16. For a clock whose period is a whole number \<open>p\<close> of nanoseconds the generator is
  programmed with a window of whole periods of at least eight bits and no fractional part; bit
  \<open>n\<close> of the normal pattern is set exactly where a rising edge is a multiple of
  \<open>p\<close> away from bit 7, and the skip pattern is the same pattern with the last bit of
  the window left out.
\<close>

theorem whole_period_pattern:
  assumes "rounds_to_double rnd" "high_time + low_time = of_int p" "0 < p" "p \<le> 2 ^ 31 - 8" "0 \<le> high_time" "0 \<le> low_time"
  shows "\<exists>control. CalcClockParameters rnd high_time low_time phase = Inr control \<and>
    cc_period_integer control = of_int (p * fill_periods p) \<and> cc_period_fraction control = 0 \<and>
    (\<forall>n < 16. bit (cc_normal control) n \<longleftrightarrow> p dvd 7 - int n) \<and>
    (\<forall>n < 16. bit (cc_skip control) n \<longleftrightarrow>
       (if int n < p * fill_periods p - 1 then bit (cc_normal control) (Suc n)
        else p * fill_periods p \<le> int n \<and> bit (cc_normal control) n))"
proof -
  have f: "0 \<le> p * fill_periods p" using fill_periods(2) [OF assms(3)] by linarith
  obtain control where c: "CalcClockParameters rnd high_time low_time phase = Inr control"
    "cc_period_integer control = of_int (p * fill_periods p)" "cc_period_fraction control = 0"
    "\<forall>n < 16. bit (cc_normal control) n \<longleftrightarrow> p dvd 7 - int n"
    "skip_pattern (p * fill_periods p) (cc_normal control) = Inr (cc_skip control)"
    using parameters_of_whole_period [OF assms, of phase] by blast
  then show ?thesis using skip_pattern_bits [OF f c(5)] by auto
qed

theorem whole_period_pattern_witness:
  "\<exists>control. CalcClockParameters id 2 3 0 = Inr control \<and> bit (cc_normal control) 12 \<and> bit (cc_normal control) 7 \<and>
     \<not> bit (cc_normal control) 6"
proof -
  have r: "rounds_to_double id" by (simp add: rounds_to_double_def)
  have "(2 :: rat) + 3 = of_int 5" by simp
  from whole_period_pattern [OF r this, of 0]
  obtain control where "CalcClockParameters id 2 3 0 = Inr control" "\<forall>n < 16. bit (cc_normal control) n \<longleftrightarrow> 5 dvd 7 - int n"
    by auto
  then show ?thesis by (intro exI [of _ control]) simp
qed

text \<open>An output on a pin of the given channel, at the first place of a unit without a container.\<close>

definition example_board :: "u32 \<Rightarrow> board" where
  "example_board channel =
     \<lparr>bo_eca = example_eca 16 16 [], bo_tlu = 0x800, bo_clkgen = 0x900, bo_control = 0xa00, bo_ios = [example_io channel 1],
      bo_inputs = [\<lparr>in_path = ''/i'', in_partner = [], in_io = example_io channel 1, in_channel = 0, in_enable = False,
        in_event = 0, in_stable = 80, in_owned = new_owned False\<rparr>],
      bo_outputs = [\<lparr>ou_place = (0, 0), ou_partner = [], ou_io = example_io channel 1, ou_low = 0, ou_high = 0, ou_offset = 0\<rparr>]\<rparr>"

lemma example_board_owner: "output_ownerOnly 0 (example_board channel) = (Inr (), example_board channel)"
  by (simp add: output_ownerOnly_def deref_output_def on_eca_def sink_ownerOnly_def deref_sink_def op_simps ownerOnly_def
      with_service_def sink_owned_def example_board_def)

text \<open>
  Stopping the clock of a fast output always runs into undefined behaviour: the period is 0, the
  number of periods in the window is the infinity 8 / 0, and it is converted to an
  \<open>int\<close>.
\<close>

theorem stopping_a_clock_is_undefined:
  assumes "rnd 0 = 0" "k < length (bo_outputs w)" "output_ownerOnly k w = (Inr (), w)"
    and "io_channel (ou_io (bo_outputs w ! k)) = IO_CFG_CHANNEL_LVDS"
  shows "fst (StopClock rnd hw k w) = Inl (Undefined ''double to int'')"
  using assms
  by (simp add: StopClock_def set_clock_fields_def modify_output_def clock_pin_def output_pin_def deref_output_def on_eca_def
      io_StopClock_def ConfigureClock_def CalcClockParameters_def op_simps)

theorem stopping_a_clock_is_undefined_witness:
  "fst (StopClock id silent_hardware 0 (example_board 1)) = Inl (Undefined ''double to int'')"
  by (rule stopping_a_clock_is_undefined [OF _ _ example_board_owner])
    (simp_all add: example_board_def example_io_def IO_CFG_CHANNEL_LVDS_def)

text \<open>
  The parameters of a clock are stored before the generator has accepted them: on an output that
  is not a fast one, \<open>StartClock\<close> throws, and \<open>ClockStatus\<close> afterwards
  reports the refused clock as running.
\<close>

theorem refused_clock_is_reported_running:
  assumes "k < length (bo_outputs w)" "output_ownerOnly k w = (Inr (), w)"
    and "io_channel (ou_io (bo_outputs w ! k)) \<noteq> IO_CFG_CHANNEL_LVDS" "high_phase \<noteq> 0"
  shows "\<exists>w'. StartClock rnd hw k high_phase low_phase phase_offset w =
      (Inl (invalid_args ''Clock generator is only available for LVDS outputs!''), w') \<and>
    ClockStatus (bo_outputs w' ! k) = (high_phase, low_phase, phase_offset, True)"
  using assms
  by (simp add: StartClock_def set_clock_fields_def modify_output_def clock_pin_def output_pin_def deref_output_def on_eca_def
      io_StartClock_def ConfigureClock_def ClockStatus_def op_simps)

theorem refused_clock_is_reported_running_witness:
  "\<exists>w'. StartClock id silent_hardware 0 50 50 0 (example_board 0) =
      (Inl (invalid_args ''Clock generator is only available for LVDS outputs!''), w') \<and>
    ClockStatus (bo_outputs w' ! 0) = (50, 50, 0, True)"
  by (rule refused_clock_is_reported_running [OF _ example_board_owner])
    (simp_all add: example_board_def example_io_def IO_CFG_CHANNEL_LVDS_def)

section \<open>Inputs\<close>

text \<open>
  C17. Whatever calls of the setters, accepted or refused, on whatever bus: every input keeps a stable
  time that is a multiple of 8 ns of at least 16 ns, and an event prefix whose lowest bit is
  clear.
\<close>

theorem inputs_stay_valid:
  assumes "(\<lambda>v v'. \<exists>r. input_call hw r v v')\<^sup>*\<^sup>* w w'" "inputs_ok w"
  shows "inputs_ok w'"
  using assms by (rule input_calls_ok)

theorem inputs_stay_valid_witness:
  "inputs_ok (snd (setStableTime silent_hardware 0 24 (snd (setEventPrefix silent_hardware 0 3 (example_board 0)))))"
proof (rule inputs_stay_valid)
  let ?w = "snd (setEventPrefix silent_hardware 0 3 (example_board 0))"
  have "input_call silent_hardware (fst (setEventPrefix silent_hardware 0 3 (example_board 0))) (example_board 0) ?w"
    by (rule input_call.event) simp
  moreover have "input_call silent_hardware (fst (setStableTime silent_hardware 0 24 ?w)) ?w (snd (setStableTime silent_hardware 0 24 ?w))"
    by (rule input_call.stable_time) simp
  ultimately show "(\<lambda>v v'. \<exists>r. input_call silent_hardware r v v')\<^sup>*\<^sup>* (example_board 0) (snd (setStableTime silent_hardware 0 24 ?w))"
    by (intro rtranclp.rtrancl_into_rtrancl [OF r_into_rtranclp] exI)
qed (simp add: inputs_ok_def input_ok_def example_board_def)


text \<open>The board after the input was constructed on a bus that works.\<close>

definition latched_board :: board where
  "latched_board = snd (configInput silent_hardware 0 False 0 80 (example_board 0))"


text \<open>
  C22. An input stores a new event prefix before it is sent: when the bus fails the call throws but the
  new value stays, and a repetition of the call succeeds without any access to the bus, so the
  unit never gets it.
\<close>

theorem failed_input_setting_is_lost:
  assumes "setEventPrefix hw k v w = (Inl e, w1)" "input_ownerOnly k w = (Inr (), w)" "k < length (bo_inputs w)"
    and "v mod 2 = 0" "in_event (bo_inputs w ! k) \<noteq> v"
  shows "in_event (bo_inputs w1 ! k) = v \<and> bo_eca w1 = bo_eca w \<and> setEventPrefix hw k v w1 = (Inr (), w1)"
proof -
  let ?w1 = "w\<lparr>bo_inputs := (bo_inputs w)[k := (bo_inputs w ! k)\<lparr>in_event := v\<rparr>]\<rparr>"
  have k: "k < length (bo_inputs ?w1)" using assms(3) by simp
  have t: "throw_if (v mod 2 \<noteq> 0) x = (ret () :: ('b, unit) op)" for x using assms(4) by (simp only: throw_if_def simp_thms if_False)
  have "send_config hw k ?w1 = (Inl e, w1)"
    using assms(1,2,3,5) unfolding setEventPrefix_def t
    by (simp add: thn_def bnd_def ret_def deref_input_def modify_input_def modify_def)
  then have w1: "w1 = ?w1" unfolding send_config_eq [OF k] by (auto split: option.splits)
  have "fst (input_ownerOnly k ?w1) = Inr ()"
    using assms(2,3) by (simp add: input_ownerOnly_def deref_input_def on_eca_def bnd_def split: prod.splits)
  then have "input_ownerOnly k ?w1 = (Inr (), ?w1)" using input_ownerOnly_state by (metis prod.collapse)
  then have "setEventPrefix hw k v ?w1 = (Inr (), ?w1)"
    using k unfolding setEventPrefix_def t by (simp add: thn_def bnd_def ret_def deref_input_def)
  then show ?thesis using k by (simp add: w1)
qed

text \<open>A bus on which every cycle fails.\<close>

definition broken_hardware :: hardware where
  "broken_hardware = \<lparr>hw_answer = (\<lambda>_ _. 0), hw_failure = (\<lambda>_ _. Some (EbException True ''timeout''))\<rparr>"

theorem failed_input_setting_is_lost_witness:
  "in_event (bo_inputs (snd (setEventPrefix broken_hardware 0 4 latched_board)) ! 0) = 4 \<and>
   fst (setEventPrefix broken_hardware 0 4 (snd (setEventPrefix broken_hardware 0 4 latched_board))) = Inr ()"
proof -
  let ?r = "setEventPrefix broken_hardware 0 4 latched_board"
  have "fst ?r = Inl (EbException True ''timeout'')" by code_simp
  then have r: "?r = (Inl (EbException True ''timeout''), snd ?r)" by (simp add: prod_eq_iff)
  have o: "fst (input_ownerOnly 0 latched_board) = Inr ()" by code_simp
  then have o: "input_ownerOnly 0 latched_board = (Inr (), latched_board)"
    using input_ownerOnly_state [of 0 latched_board "Inr ()" "snd (input_ownerOnly 0 latched_board)"] by (simp add: prod_eq_iff)
  have p: "0 < length (bo_inputs latched_board)" "(4 :: u64) mod 2 = 0" "in_event (bo_inputs latched_board ! 0) \<noteq> 4" by code_simp+
  from failed_input_setting_is_lost [OF r o p] show ?thesis by simp
qed

section \<open>The list of the pins\<close>

text \<open>
  C19. The pins are numbered as the event condition action unit numbers its channels: the input number
  of a pin is the number of pins before it that are inputs, the output number that of pins before
  it that are outputs; a pin with both directions counts for both.
\<close>

theorem pins_are_numbered:
  assumes "IoControl hw control w = (Inr ios, w')" "i < length ios"
  shows "io_eca_in (ios ! i) = of_nat (length (filter is_input (take i ios))) \<and>
    io_eca_out (ios ! i) = of_nat (length (filter is_output (take i ios)))"
  using IoControl_numbers [OF assms(1)] assms(2) by blast

text \<open>Two pins, an input and an output that is also an input, and no fixed ones.\<close>

definition two_pins :: hardware where
  "two_pins = \<lparr>hw_answer = (\<lambda>_ a.
     if a = eGPIO_Info then 0x02000000
     else if a = eIO_Map_Table_Begin then 0x41000000 else if a = eIO_Map_Table_Begin + 12 then 0x00004000
     else if a = eIO_Map_Table_Begin + 16 then 0x42000000 else if a = eIO_Map_Table_Begin + 28 then 0x00018000
     else 0), hw_failure = (\<lambda>_ _. None)\<rparr>"

theorem pins_are_numbered_witness:
  "\<exists>ios w'. IoControl two_pins 0 (blank_world ''/tr'') = (Inr ios, w') \<and> length ios = 2 \<and> io_eca_in (ios ! 1) = 1"
proof -
  let ?r = "IoControl two_pins 0 (blank_world ''/tr'')"
  have "map_sum id (\<lambda>ios. (length ios, is_input (ios ! 0))) (fst ?r) = Inr (2, True)" by code_simp
  then obtain ios where i: "fst ?r = Inr ios" "length ios = 2" "is_input (ios ! 0)" by (cases "fst ?r") auto
  then have r: "?r = (Inr ios, snd ?r)" by (simp add: prod_eq_iff)
  have "take 1 ios = [ios ! 0]" using i(2) by (cases ios) auto
  then have "io_eca_in (ios ! 1) = 1" using pins_are_numbered [OF r, of 1] i(2,3) by simp
  with r i(2) show ?thesis by blast
qed

text \<open>
  The constructor trusts the counts of the hardware: when they sum up to more than the 192 entries
  of the array on the stack, reading the table writes beyond its end.
\<close>

theorem pin_table_overflows:
  assumes "\<And>history ops. hw_failure hw history ops = None"
    and "cycle hw [BusRead (control + eGPIO_Info), BusRead (control + eLVDS_Info), BusRead (control + eFIXED_Info)] w = (Inr rs, w1)"
    and "192 < unat (table_words rs) div 4"
  shows "fst (IoControl hw control w) = Inl (Undefined ''s_aIOCONTROL_SetupField'')"
proof -
  have "192 < 0 + unat (table_words rs) div 4" "0 < unat (table_words rs) div 4" using assms(3) by simp_all
  from table_entries_overflow [OF assms(1) this] obtain w2
    where "table_entries hw control 0 (unat (table_words rs) div 4) w1 = (Inl (Undefined ''s_aIOCONTROL_SetupField''), w2)" by blast
  then show ?thesis using assms(2) by (simp add: IoControl_def bnd_def)
qed

text \<open>A device that reports 193 fixed pins.\<close>

definition many_fixed :: hardware where
  "many_fixed = \<lparr>hw_answer = (\<lambda>_ a. if a = eFIXED_Info then 193 else 0), hw_failure = (\<lambda>_ _. None)\<rparr>"

theorem pin_table_overflows_witness:
  "fst (IoControl many_fixed 0 (blank_world ''/tr'')) = Inl (Undefined ''s_aIOCONTROL_SetupField'')"
proof -
  have f: "hw_failure many_fixed history ops = None" for history ops by (simp add: many_fixed_def)
  have "cycle many_fixed [BusRead (0 + eGPIO_Info), BusRead (0 + eLVDS_Info), BusRead (0 + eFIXED_Info)] (blank_world ''/tr'') =
      (Inr [0, 0, 193], (blank_world ''/tr'')\<lparr>ec_log := [BusRead (0 + eGPIO_Info), BusRead (0 + eLVDS_Info), BusRead (0 + eFIXED_Info)]\<rparr>)"
    by (simp add: cycle_def close_cycle_def many_fixed_def blank_world_def blank_eca_def eGPIO_Info_def eLVDS_Info_def eFIXED_Info_def)
  from pin_table_overflows [OF f this] show ?thesis
    by (simp add: table_words_def pin_total_def IO_INFO_TOTAL_COUNT_MASK_def)
qed

section \<open>Conditions of the hardware sinks\<close>

text \<open>
  A new condition of a software action sink needs the owner of the sink; on an output the same
  call by a client that is not the owner creates the condition.
\<close>

theorem outputs_do_not_check_the_owner:
  assumes "sink_at p w = Some s" "ec_container w" "as_service s = Some i" "the_service i w = Some sv"
    and "foreign_owned (bs_calling w) sv" "fresh_number (ec_rand w) (as_conditions s) = Some (n, rs)"
    and "new_condition (as_path s) (as_minOffset s) (as_maxOffset s) n False e m offset (if on then 2 else 1) = Inr c"
    and "length (bs_objects w) + 2 \<le> 2 ^ 32"
  shows "software_NewCondition hw ifs p False e m offset w = (Inl not_owner, w) \<and>
    (\<exists>w'. output_NewCondition hw ifs p False e m offset on w = (Inr (c_objectPath c), w'))"
proof
  have "is_owned sv \<and> bs_calling w \<noteq> get_owner sv" using assms(5) by (auto simp: foreign_owned_def is_owned_def get_owner_def)
  then have "sink_ownerOnly p w = (Inl not_owner, w)"
    using assms(1-4) by (simp add: sink_ownerOnly_def deref_sink_def sink_owned_def ownerOnly_def with_service_def
        deref_service_def owner_check_def op_simps)
  then show "software_NewCondition hw ifs p False e m offset w = (Inl not_owner, w)"
    by (simp add: software_NewCondition_def thn_def bnd_def)
  let ?w1 = "w\<lparr>ec_rand := rs\<rparr>"
  have num: "createConditionNumber p w = (Inr n, ?w1)"
    using assms(1,6) by (simp add: createConditionNumber_def deref_sink_def bnd_def)
  have s1: "deref_sink p ?w1 = (Inr s, ?w1)" using assms(1) sink_at_cong [of ?w1 w p] by (simp add: deref_sink_def)
  have "length (bs_objects ?w1) + 2 \<le> 2 ^ 32" using assms(8) by simp
  then obtain j where j: "next_free_id (length (bs_objects ?w1) + 2) (bs_next_id ?w1) (bs_objects ?w1) = Some j"
    using next_free_id_enough by blast
  have "\<exists>sid w2. create_object path x ?w1 = (Inr sid, w2) \<and> ec_sinks w2 = ec_sinks w" for path x
    unfolding create_object_cases j by simp
  then obtain sid w2 where cr: "create_object (c_objectPath c) (set_owner (bs_calling ?w1) (new_service ifs (Some (RemoveCondition p n)) True)) ?w1
      = (Inr sid, w2)" "ec_sinks w2 = ec_sinks w"
    by blast
  have "sink_at p w2 = Some s" using assms(1) sink_at_cong [OF cr(2)] by simp
  then have "\<exists>w3. modify_sink p f w2 = (Inr (), w3)" for f
    by (simp add: modify_sink_def deref_sink_def op_simps)
  then obtain w3 where "modify_sink p (\<lambda>s. s\<lparr>as_conditions := omap_insert n (c\<lparr>c_service := Some sid\<rparr>) (as_conditions s)\<rparr>) w2 = (Inr (), w3)"
    by blast
  then show "\<exists>w'. output_NewCondition hw ifs p False e m offset on w = (Inr (c_objectPath c), w')"
    using num s1 assms(2,7) cr(1)
    by (simp add: output_NewCondition_def NewConditionHelper_def bnd_def thn_def gets_def ret_def Let_def)
qed

text \<open>A sink whose service belongs to client 8; client 5 calls.\<close>

definition foreign_sink :: eca where
  "foreign_sink = (example_eca 16 16 [])\<lparr>ec_container := True, bs_calling := 5,
     ec_sinks := [[Some ((example_sink [])\<lparr>as_service := Some 1\<rparr>)]],
     bs_objects := [(1, Some ((new_service [] None True)\<lparr>sv_id := 1, sv_path := ''/s'', sv_owner := 8\<rparr>))],
     bs_lookup := [(''/s'', 1)], bs_next_id := 2\<rparr>"

theorem outputs_do_not_check_the_owner_witness:
  "software_NewCondition silent_hardware [] (0, 0) False 0 0 0 foreign_sink = (Inl not_owner, foreign_sink) \<and>
   (\<exists>path w'. output_NewCondition silent_hardware [] (0, 0) False 0 0 0 True foreign_sink = (Inr path, w'))"
proof -
  let ?s = "(example_sink [])\<lparr>as_service := Some 1\<rparr>"
  let ?sv = "(new_service [] None True)\<lparr>sv_id := 1, sv_path := ''/s'', sv_owner := 8\<rparr>"
  obtain c where c: "new_condition (as_path ?s) (as_minOffset ?s) (as_maxOffset ?s) 1 False 0 0 0 (if True then 2 else 1) = Inr c"
    by (simp add: new_condition_def example_sink_def word_sless_alt)
  have "sink_at (0, 0) foreign_sink = Some ?s" "ec_container foreign_sink" "as_service ?s = Some 1" "the_service 1 foreign_sink = Some ?sv"
    "foreign_owned (bs_calling foreign_sink) ?sv" "fresh_number (ec_rand foreign_sink) (as_conditions ?s) = Some (1, [2, 3])"
    "length (bs_objects foreign_sink) + 2 \<le> 2 ^ 32"
    by (simp_all add: foreign_sink_def sink_at_def the_service_def foreign_owned_def example_eca_def blank_eca_def example_sink_def)
  from outputs_do_not_check_the_owner [OF this(1-6) c this(7)] show ?thesis by blast
qed

end
