(* ===== verification/Device_Units.thy ===== *)
theory Device_Units
  imports Inputs_Outputs Time_Conversion
begin

text \<open>
  The small units of a timing receiver: how a unit is found on the bus (src/SdbDevice.cpp,
  src/MsiDevice.cpp), White Rabbit lock (src/WhiteRabbit.cpp), watchdog (src/Watchdog.cpp), reset
  controller (src/Reset.cpp), build information (src/BuildIdRom.cpp), temperature
  (src/TempSensor.cpp), event injection (src/ECA_Event.cpp) and the embedded processors
  (src/LM32Cluster.cpp).
\<close>

section \<open>State\<close>

record receiver = board +
  re_wr :: u64
  re_locked :: bool
  re_lock_signals :: "bool list"
  re_watchdog :: u64
  re_watchdog_value :: u32
  re_reset :: u64
  re_gateware :: "(string \<times> string) list"
  re_sensor :: u64
  re_temperature :: u32
  re_event :: u64
  re_rams :: "(u64 \<times> u64) list"
  re_cores :: u32

section \<open>Finding a unit\<close>

text \<open>
  What the bus directory lists for vendor and device: first and last address of the units, and
  the first address of the range in which a unit with interrupts reaches the host.
\<close>

record sdb =
  sd_units :: "u32 \<Rightarrow> u32 \<Rightarrow> (u64 \<times> u64) list"
  sd_msi :: "u32 \<Rightarrow> u32 \<Rightarrow> u64 list"

definition hex_digit :: "nat \<Rightarrow> char" where
  "hex_digit d = (if d < 10 then char_of (48 + d) else char_of (87 + d))"

text \<open>\<open>std::hex << std::setw(8) << std::setfill('0')\<close>.\<close>

definition hex8 :: "u32 \<Rightarrow> string" where
  "hex8 x = map (\<lambda>i. hex_digit (unat (drop_bit (4 * i) x AND 15))) [7, 6, 5, 4, 3, 2, 1, 0]"

definition not_listed :: "string \<Rightarrow> u32 \<Rightarrow> u32 \<Rightarrow> exn" where
  "not_listed kind vendor_id device_id =
     SaftbusError FAILED (''no '' @ kind @ '' device with VENDOR_ID=0x'' @ hex8 vendor_id
       @ '' and DEVICE_ID=0x'' @ hex8 device_id)"

definition SdbDevice :: "sdb \<Rightarrow> u32 \<Rightarrow> u32 \<Rightarrow> bool \<Rightarrow> ('w, u64) op" where
  "SdbDevice sdb vendor_id device_id throw_if_not_found =
     (case sd_units sdb vendor_id device_id of
        [] \<Rightarrow> if throw_if_not_found then raise (not_listed ''SDB'' vendor_id device_id) else ret 0
      | (first, end_adr) # others \<Rightarrow> ret first)"

definition MsiDevice :: "sdb \<Rightarrow> u32 \<Rightarrow> u32 \<Rightarrow> ('w, u64 \<times> u64) op" where
  "MsiDevice sdb vendor_id device_id =
     bnd (SdbDevice sdb vendor_id device_id True) (\<lambda>adr_first.
     case sd_msi sdb vendor_id device_id of
       [] \<Rightarrow> raise (not_listed ''SDB-MSI'' vendor_id device_id)
     | msi_first # others \<Rightarrow> ret (adr_first, msi_first))"

section \<open>White Rabbit\<close>

definition WR_PPS_GEN_ESCR_MASK :: u32 where "WR_PPS_GEN_ESCR_MASK = 0xc"
definition WR_PPS_GEN_ESCR :: u64 where "WR_PPS_GEN_ESCR = 0x1c"
definition WR_PPS_VENDOR_ID :: u32 where "WR_PPS_VENDOR_ID = 0xce42"
definition WR_PPS_DEVICE_ID :: u32 where "WR_PPS_DEVICE_ID = 0xde0d8ced"

definition getLocked :: "hardware \<Rightarrow> ('z receiver_scheme, bool) op" where
  "getLocked hw =
     bnd (gets re_wr) (\<lambda>adr.
     bnd (on_eca (device_read hw (adr + WR_PPS_GEN_ESCR))) (\<lambda>data.
     let newLocked = (data AND WR_PPS_GEN_ESCR_MASK = WR_PPS_GEN_ESCR_MASK) in
     thn (modify (\<lambda>w. if newLocked \<noteq> re_locked w
            then w\<lparr>re_locked := newLocked, re_lock_signals := re_lock_signals w @ [newLocked]\<rparr> else w))
         (ret newLocked)))"

text \<open>The constructor compares with a \<open>locked\<close> that is not initialised: whatever is there before.\<close>

definition WhiteRabbit :: "hardware \<Rightarrow> sdb \<Rightarrow> ('z receiver_scheme, unit) op" where
  "WhiteRabbit hw sdb =
     bnd (SdbDevice sdb WR_PPS_VENDOR_ID WR_PPS_DEVICE_ID True) (\<lambda>adr.
     thn (modify (\<lambda>w. w\<lparr>re_wr := adr\<rparr>)) (bnd (getLocked hw) (\<lambda>_. ret ())))"

section \<open>Watchdog\<close>

definition WATCHDOG_VENDOR_ID :: u32 where "WATCHDOG_VENDOR_ID = 0x00000651"
definition WATCHDOG_DEVICE_ID :: u32 where "WATCHDOG_DEVICE_ID = 0xb6232cd3"

definition aquire :: "hardware \<Rightarrow> ('z receiver_scheme, bool) op" where
  "aquire hw =
     bnd (gets re_watchdog) (\<lambda>adr.
     bnd (on_eca (device_read hw adr)) (\<lambda>v.
     thn (modify (\<lambda>w. w\<lparr>re_watchdog_value := v\<rparr>))
    (if v AND 0xFFFF \<noteq> 0 then ret False
     else thn (on_eca (device_write hw adr v))
          (bnd (on_eca (device_read hw adr)) (\<lambda>retry.
          ret (drop_bit 16 (retry XOR v) = 0))))))"

definition Watchdog :: "hardware \<Rightarrow> sdb \<Rightarrow> ('z receiver_scheme, unit) op" where
  "Watchdog hw sdb =
     bnd (SdbDevice sdb WATCHDOG_VENDOR_ID WATCHDOG_DEVICE_ID True) (\<lambda>adr.
     thn (modify (\<lambda>w. w\<lparr>re_watchdog := adr\<rparr>))
    (bnd (aquire hw) (\<lambda>ok. throw_if (\<not> ok) (RuntimeError ''cannot aquire Watchdog''))))"

definition watchdog_update :: "hardware \<Rightarrow> ('z receiver_scheme, unit) op" where
  "watchdog_update hw =
     bnd (gets re_watchdog) (\<lambda>adr. bnd (gets re_watchdog_value) (\<lambda>v. on_eca (device_write hw adr v)))"

section \<open>Reset controller\<close>

definition FPGA_RESET_VENDOR :: u32 where "FPGA_RESET_VENDOR = 0x0651"
definition FPGA_RESET_PRODUCT :: u32 where "FPGA_RESET_PRODUCT = 0x3a362063"
definition FPGA_RESET_USERLM32_GET :: u64 where "FPGA_RESET_USERLM32_GET = 0x0004"
definition FPGA_RESET_USERLM32_SET :: u64 where "FPGA_RESET_USERLM32_SET = 0x0008"
definition FPGA_RESET_USERLM32_CLEAR :: u64 where "FPGA_RESET_USERLM32_CLEAR = 0x000c"
definition FPGA_RESET_WATCHDOG_TRG :: u64 where "FPGA_RESET_WATCHDOG_TRG = 0x0010"
definition FPGA_RESET_WATCHDOG_TRG_VALUE :: u32 where "FPGA_RESET_WATCHDOG_TRG_VALUE = 0xcafebabe"

definition Reset_constructor :: "sdb \<Rightarrow> ('z receiver_scheme, unit) op" where
  "Reset_constructor sdb =
     bnd (SdbDevice sdb FPGA_RESET_VENDOR FPGA_RESET_PRODUCT True) (\<lambda>adr. modify (\<lambda>w. w\<lparr>re_reset := adr\<rparr>))"

definition WdRetrigger :: "hardware \<Rightarrow> ('z receiver_scheme, unit) op" where
  "WdRetrigger hw =
     bnd (gets re_reset) (\<lambda>adr. on_eca (device_write hw (adr + FPGA_RESET_WATCHDOG_TRG) FPGA_RESET_WATCHDOG_TRG_VALUE))"

definition CpuHalt :: "hardware \<Rightarrow> u32 \<Rightarrow> ('z receiver_scheme, unit) op" where
  "CpuHalt hw idx =
     bnd (gets re_reset) (\<lambda>adr.
     on_eca (bnd (shifted_one idx) (\<lambda>mask. device_write hw (adr + FPGA_RESET_USERLM32_SET) mask)))"

definition CpuReset :: "hardware \<Rightarrow> u32 \<Rightarrow> ('z receiver_scheme, unit) op" where
  "CpuReset hw idx =
     bnd (gets re_reset) (\<lambda>adr.
     on_eca (bnd (shifted_one idx) (\<lambda>mask. device_write hw (adr + FPGA_RESET_USERLM32_CLEAR) mask)))"

definition CpuHaltStatus :: "hardware \<Rightarrow> ('z receiver_scheme, u32) op" where
  "CpuHaltStatus hw = bnd (gets re_reset) (\<lambda>adr. on_eca (device_read hw (adr + FPGA_RESET_USERLM32_GET)))"

section \<open>Temperature\<close>

definition ATS_SDB_VENDOR_ID :: u32 where "ATS_SDB_VENDOR_ID = 0x00000651"
definition ATS_SDB_DEVICE_ID :: u32 where "ATS_SDB_DEVICE_ID = 0x7e3d5e25"
definition ALTERA_TEMP_DEGREE :: u64 where "ALTERA_TEMP_DEGREE = 0x04"

definition TempSensor :: "sdb \<Rightarrow> ('z receiver_scheme, unit) op" where
  "TempSensor sdb =
     bnd (SdbDevice sdb ATS_SDB_VENDOR_ID ATS_SDB_DEVICE_ID False) (\<lambda>adr.
     modify (\<lambda>w. w\<lparr>re_sensor := adr, re_temperature := 0\<rparr>))"

definition getTemperatureSensorAvail :: "'z receiver_scheme \<Rightarrow> bool" where
  "getTemperatureSensorAvail w \<longleftrightarrow> re_sensor w \<noteq> 0"

text \<open>A reading that says that there is none leaves the last temperature.\<close>

definition CurrentTemperature :: "hardware \<Rightarrow> ('z receiver_scheme, u32) op" where
  "CurrentTemperature hw =
     bnd (gets re_sensor) (\<lambda>adr.
     thn (if adr \<noteq> 0
          then bnd (on_eca (device_read hw (adr + ALTERA_TEMP_DEGREE))) (\<lambda>data.
               if data \<noteq> 0xDEADC0DE then modify (\<lambda>w. w\<lparr>re_temperature := data\<rparr>) else ret ())
          else ret ())
         (gets re_temperature))"

section \<open>Injected events\<close>

definition ECA_SDB_VENDOR_ID :: u32 where "ECA_SDB_VENDOR_ID = 0x00000651"
definition EVENT_SDB_DEVICE_ID :: u32 where "EVENT_SDB_DEVICE_ID = 0x8752bf45"

definition ECA_Event :: "sdb \<Rightarrow> ('z receiver_scheme, unit) op" where
  "ECA_Event sdb =
     bnd (SdbDevice sdb ECA_SDB_VENDOR_ID EVENT_SDB_DEVICE_ID True) (\<lambda>adr. modify (\<lambda>w. w\<lparr>re_event := adr\<rparr>))"

definition inject_words :: "u64 \<Rightarrow> u64 \<Rightarrow> u64 \<Rightarrow> u32 list" where
  "inject_words event param time =
     [ucast (drop_bit 32 event), ucast event, ucast (drop_bit 32 param), ucast param, 0, 0,
      ucast (drop_bit 32 time), ucast time]"

definition InjectEventRaw :: "hardware \<Rightarrow> u64 \<Rightarrow> u64 \<Rightarrow> u64 \<Rightarrow> ('z receiver_scheme, unit) op" where
  "InjectEventRaw hw event param time =
     bnd (gets re_event) (\<lambda>adr.
     bnd (on_eca (cycle hw (map (BusWrite adr) (inject_words event param time)))) (\<lambda>_. ret ()))"

section \<open>Build information\<close>

definition BUILD_ID_ROM_VENDOR_ID :: u32 where "BUILD_ID_ROM_VENDOR_ID = 0x00000651"
definition BUILD_ID_ROM_DEVICE_ID :: u32 where "BUILD_ID_ROM_DEVICE_ID = 0x2d39fa8b"

abbreviation newline :: char where "newline \<equiv> CHR 0x0A"
abbreviation blank :: char where "blank \<equiv> CHR 0x20"
abbreviation colon :: char where "colon \<equiv> CHR 0x3A"

fun split_lines :: "string \<Rightarrow> string list" where
  "split_lines [] = [[]]"
| "split_lines (c # cs) = (case split_lines cs of
     l # ls \<Rightarrow> if c = newline then [] # l # ls else (c # l) # ls
   | [] \<Rightarrow> [])"

text \<open>
  One line into the map. When the colon is the first character, the search for the end of the key
  starts at \<open>npos\<close>, which is the end of the line.
\<close>

definition drop_trailing :: "string \<Rightarrow> string" where
  "drop_trailing s = rev (dropWhile (\<lambda>c. c = blank) (rev s))"

definition parse_line :: "string \<Rightarrow> (string \<times> string) option" where
  "parse_line line =
     (if line = [] \<or> hd line = blank then None
      else if colon \<notin> set line then None
      else let offset = length (takeWhile (\<lambda>c. c \<noteq> colon) line) in
        if offset + 2 \<ge> length line then None
        else let value = drop (offset + 2) line;
                 key = drop_trailing (if offset = 0 then line else take offset line)
             in if key = [] then None else Some (key, value))"

definition store_line :: "string \<Rightarrow> (string \<times> string) list \<Rightarrow> (string \<times> string) list" where
  "store_line line info = (case parse_line line of None \<Rightarrow> info | Some (key, value) \<Rightarrow> omap_put key value info)"

definition parse_info :: "string \<Rightarrow> (string \<times> string) list" where
  "parse_info text = fold store_line (split_lines text) []"

definition word_text :: "u32 \<Rightarrow> string" where
  "word_text x = map (\<lambda>b. char_of (unat b)) (bytes_of x)"

text \<open>The address is an \<open>uint32_t\<close> here.\<close>

definition setupGatewareInfo :: "hardware \<Rightarrow> u32 \<Rightarrow> ('z receiver_scheme, unit) op" where
  "setupGatewareInfo hw address =
     bnd (on_eca (cycle hw (map (\<lambda>i. BusRead (ucast (address + of_nat i * 4))) [0..<256]))) (\<lambda>rs.
     modify (\<lambda>w. w\<lparr>re_gateware := parse_info (concat (map word_text rs))\<rparr>))"

definition BuildIdRom :: "hardware \<Rightarrow> sdb \<Rightarrow> ('z receiver_scheme, unit) op" where
  "BuildIdRom hw sdb =
     bnd (SdbDevice sdb BUILD_ID_ROM_VENDOR_ID BUILD_ID_ROM_DEVICE_ID True) (\<lambda>adr. setupGatewareInfo hw (ucast adr))"

text \<open>The first place where \<open>-v\<close> is found.\<close>

fun find_version :: "string \<Rightarrow> nat option" where
  "find_version (a # b # s) =
     (if a = CHR 0x2D \<and> b = CHR 0x76 then Some 0 else map_option Suc (find_version (b # s)))"
| "find_version s = None"

text \<open>The second entry of the map is taken to be the gateware version, whatever its key is.\<close>

definition getGatewareVersion :: "(string \<times> string) list \<Rightarrow> exn + string" where
  "getGatewareVersion info =
     (case info of
        date # (key, version) # others \<Rightarrow>
          Inr (case find_version version of
                 None \<Rightarrow> ''N/A''
               | Some pos \<Rightarrow> if pos = 0 \<or> pos + 2 \<ge> length version then ''N/A'' else drop (pos + 2) version)
      | _ \<Rightarrow> Inl (Undefined ''gatewareInfo.end()''))"

section \<open>Embedded processors\<close>

definition LM32_RAM_USER_VENDOR :: u32 where "LM32_RAM_USER_VENDOR = 0x0651"
definition LM32_RAM_USER_PRODUCT :: u32 where "LM32_RAM_USER_PRODUCT = 0x54111351"
definition LM32_CLUSTER_ROM_VENDOR :: u32 where "LM32_CLUSTER_ROM_VENDOR = 0x651"
definition LM32_CLUSTER_ROM_PRODUCT :: u32 where "LM32_CLUSTER_ROM_PRODUCT = 0x10040086"

definition LM32Cluster :: "hardware \<Rightarrow> sdb \<Rightarrow> ('z receiver_scheme, unit) op" where
  "LM32Cluster hw sdb =
     bnd (SdbDevice sdb LM32_CLUSTER_ROM_VENDOR LM32_CLUSTER_ROM_PRODUCT True) (\<lambda>adr.
     bnd (on_eca (device_read hw adr)) (\<lambda>cpus.
     let rams = sd_units sdb LM32_RAM_USER_VENDOR LM32_RAM_USER_PRODUCT in
     thn (modify (\<lambda>w. w\<lparr>re_rams := rams, re_cores := of_nat (length rams)\<rparr>))
         (throw_if (rams \<noteq> [] \<and> of_nat (length rams) \<noteq> cpus)
           (SaftbusError FAILED ''number of cpus in lm32 cluster rom differs from number of number of user rams''))))"

definition getCpuCount :: "'z receiver_scheme \<Rightarrow> u32" where
  "getCpuCount w = of_nat (length (re_rams w))"

definition user_ram :: "u32 \<Rightarrow> ('z receiver_scheme, u64 \<times> u64) op" where
  "user_ram cpu_idx =
     bnd (gets re_cores) (\<lambda>n.
     thn (throw_if (cpu_idx \<ge> n) (RuntimeError (''there is no user cpu core with index '' @ show_nat (unat cpu_idx))))
    (bnd (gets re_rams) (\<lambda>rams.
     if unat cpu_idx < length rams then ret (rams ! unat cpu_idx) else raise (Undefined ''dpram_lm32_adr_first''))))"

text \<open>
  A cycle writes at most 32 words. The outer loop ends when the end of the memory is reached; it
  would not end for a memory that ends with the address space, therefore it has fuel.
\<close>

fun halt_burst :: "nat \<Rightarrow> u64 \<Rightarrow> u64 \<Rightarrow> bus_op list" where
  "halt_burst 0 adr end_adr = []"
| "halt_burst (Suc n) adr end_adr =
     (if adr < end_adr then BusWrite adr 0xe0000000 # halt_burst n (adr + 4) end_adr else [])"

abbreviation out_of_fuel :: exn where "out_of_fuel \<equiv> Undefined ''endless loop''"

fun halt_loop :: "nat \<Rightarrow> hardware \<Rightarrow> u64 \<Rightarrow> u64 \<Rightarrow> unit eca_op" where
  "halt_loop 0 hw adr end_adr = raise out_of_fuel"
| "halt_loop (Suc fuel) hw adr end_adr =
     (if adr < end_adr
      then bnd (cycle hw (halt_burst 32 adr end_adr)) (\<lambda>_.
           halt_loop fuel hw (adr + 4 * of_nat (length (halt_burst 32 adr end_adr))) end_adr)
      else ret ())"

definition SafeHaltCpu :: "nat \<Rightarrow> hardware \<Rightarrow> u32 \<Rightarrow> ('z receiver_scheme, unit) op" where
  "SafeHaltCpu fuel hw cpu_idx =
     bnd (user_ram cpu_idx) (\<lambda>(adr, end_adr).
     thn (on_eca (halt_loop fuel hw adr end_adr)) (CpuHalt hw cpu_idx))"

text \<open>
  The bytes of the file; an instruction is read with the byte order of the host, which is little
  endian, and swapped. An incomplete last word is dropped. \<open>None\<close> stands for the end of the file.
\<close>

definition swapped :: "u32 \<Rightarrow> u32" where
  "swapped instr =
     drop_bit 24 instr OR drop_bit 8 (instr AND 0xff0000) OR push_bit 8 (instr AND 0x00ff00) OR push_bit 24 instr"

fun read_word :: "u8 list \<Rightarrow> (u32 \<times> u8 list) option" where
  "read_word (a # b # c # d # rest) =
     Some (ucast a OR push_bit 8 (ucast b) OR push_bit 16 (ucast c) OR push_bit 24 (ucast d), rest)"
| "read_word bs = None"

fun firmware_burst :: "nat \<Rightarrow> u64 \<Rightarrow> u64 \<Rightarrow> u8 list \<Rightarrow> bus_op list \<times> u8 list \<times> bool" where
  "firmware_burst 0 adr end_adr bs = ([], bs, False)"
| "firmware_burst (Suc n) adr end_adr bs =
     (if adr < end_adr
      then case read_word bs of
             None \<Rightarrow> ([], bs, True)
           | Some (instr, rest) \<Rightarrow>
               (case firmware_burst n (adr + 4) end_adr rest of
                  (ops, bs', end_of_file) \<Rightarrow> (BusWrite adr (swapped instr) # ops, bs', end_of_file))
      else ([], bs, False))"

fun firmware_loop :: "nat \<Rightarrow> hardware \<Rightarrow> u64 \<Rightarrow> u64 \<Rightarrow> u8 list \<Rightarrow> unit eca_op" where
  "firmware_loop 0 hw adr end_adr bs = raise out_of_fuel"
| "firmware_loop (Suc fuel) hw adr end_adr bs =
     (if adr < end_adr
      then case firmware_burst 32 adr end_adr bs of (ops, bs', end_of_file) \<Rightarrow>
           bnd (cycle hw ops) (\<lambda>_.
           if end_of_file then ret () else firmware_loop fuel hw (adr + 4 * of_nat (length ops)) end_adr bs')
      else ret ())"

definition WriteFirmware :: "nat \<Rightarrow> hardware \<Rightarrow> (string \<Rightarrow> u8 list option) \<Rightarrow> u32 \<Rightarrow> string \<Rightarrow> ('z receiver_scheme, unit) op" where
  "WriteFirmware fuel hw files cpu_idx filename =
     bnd (user_ram cpu_idx) (\<lambda>(adr, end_adr).
     case files filename of
       None \<Rightarrow> raise (RuntimeError (''cannot open firmware binary file '' @ filename))
     | Some bs \<Rightarrow> on_eca (firmware_loop fuel hw adr end_adr bs))"

end
