(* ===== verification/Interrupts.thy ===== *)
theory Interrupts
  imports Device_Units
begin

text \<open>
  Message signalled interrupts: the table of the handlers (\<open>SAFTd::irqs\<close>, \<open>IRQ\<close>, src/SAFTd.cpp),
  and an opened device that finds out whether its messages have to be polled, and polls them
  (src/OpenDevice.cpp). The mailbox (src/Mailbox.cpp) is used for the test message.
\<close>

section \<open>State\<close>

text \<open>What is attached to an address: the test of an opened device, or the handler of a driver.\<close>

datatype slot = CheckMsi | Slot nat

text \<open>An \<open>IRQ\<close> object; its destructor releases the address.\<close>

record irq =
  iq_addr :: u64
  iq_first :: u64

text \<open>
  The daemon with its attached devices. A pointer to a device may be null. \<open>sf_rand n\<close> is the
  number that the \<open>n\<close>th call of \<open>rand()\<close> will return.
\<close>

record device =
  dv_path :: string
  dv_forward :: string

record saftd = "string bus" +
  sf_container :: bool
  sf_attached :: "(string \<times> device option) list"
  sf_irqs :: "(u64 \<times> slot) list"
  sf_rand :: "nat \<Rightarrow> u32"
  sf_drawn :: nat

type_synonym ('z, 'a) saftd_op = "('z saftd_scheme, 'a) op"

section \<open>The table of the handlers\<close>

definition attach_irq :: "u64 \<Rightarrow> slot \<Rightarrow> ('z, bool) saftd_op" where
  "attach_irq address s =
     bnd (gets sf_irqs) (\<lambda>irqs.
     if map_of irqs address = None
     then thn (modify (\<lambda>w. w\<lparr>sf_irqs := omap_put address s irqs\<rparr>)) (ret True)
     else ret False)"

definition release_irq :: "u64 \<Rightarrow> ('z, unit) saftd_op" where
  "release_irq address =
     modify (\<lambda>w. if map_of (sf_irqs w) address \<noteq> None then w\<lparr>sf_irqs := omap_erase address (sf_irqs w)\<rparr> else w)"

definition IRQ :: "u64 \<Rightarrow> u64 \<Rightarrow> irq" where
  "IRQ a f = \<lparr>iq_addr = a + f, iq_first = f\<rparr>"

definition destroy_irq :: "irq \<Rightarrow> ('z, unit) saftd_op" where
  "destroy_irq q = release_irq (iq_addr q - iq_first q)"

definition draw :: "('z, u32) saftd_op" where
  "draw = (\<lambda>w. (Inr (sf_rand w (sf_drawn w)), w\<lparr>sf_drawn := Suc (sf_drawn w)\<rparr>))"

text \<open>At most 2000 addresses are tried.\<close>

fun try_addresses :: "nat \<Rightarrow> u64 \<Rightarrow> u64 \<Rightarrow> u64 \<Rightarrow> slot \<Rightarrow> ('z, irq option) saftd_op" where
  "try_addresses 0 first range_mask msi_first s = ret None"
| "try_addresses (Suc n) first range_mask msi_first s =
     bnd draw (\<lambda>r.
     let irq_adr = ((ucast r AND range_mask) + first) AND NOT 3 in
     bnd (attach_irq irq_adr s) (\<lambda>ok.
     if ok then ret (Some (IRQ irq_adr msi_first)) else try_addresses n first range_mask msi_first s))"

text \<open>\<open>first\<close> and \<open>last\<close> of the range are what the Etherbone library reports for the device.\<close>

definition request_irq :: "u64 \<times> u64 \<Rightarrow> u64 \<Rightarrow> slot \<Rightarrow> ('z, irq option) saftd_op" where
  "request_irq msi_range msi_first s = try_addresses 2000 (fst msi_range) (snd msi_range - fst msi_range) msi_first s"

text \<open>
  What the library calls when a message arrives; the status is always \<open>EB_OK\<close>. \<open>run\<close> is what a
  handler does with the data of a message.
\<close>

definition saftd_write :: "(slot \<Rightarrow> u32 \<Rightarrow> ('z, unit) saftd_op) \<Rightarrow> u64 \<Rightarrow> u32 \<Rightarrow> ('z, unit) saftd_op" where
  "saftd_write run address data =
     bnd (gets (\<lambda>w. map_of (sf_irqs w) address)) (\<lambda>found.
     case found of
       Some s \<Rightarrow> try_catch (run s data) (\<lambda>e. ret ())
     | None \<Rightarrow> ret ())"

definition saftd_read :: "u64 \<Rightarrow> u32" where
  "saftd_read address = 0"

section \<open>An opened device\<close>

text \<open>
  \<open>od_log\<close> is the history of the bus, \<open>od_polls\<close> the number of cycles on the configuration
  registers so far, \<open>od_loop\<close> the event loop with the polling sources; the callback of a source is
  the argument \<open>only_once\<close> of the polling function.
\<close>

record opened = saftd +
  od_log :: "bus_op list"
  od_polls :: nat
  od_loop :: "bool loop"
  od_time :: int
  od_first :: u64
  od_mask :: u64
  od_check_irq :: "irq option"
  od_check_phase :: bool
  od_needs_polling :: bool
  od_poll_source :: source_handle
  od_poll_once :: source_handle
  od_interval :: int
  od_forward_path :: string

type_synonym ('z, 'a) opened_op = "('z opened_scheme, 'a) op"

definition od_cycle :: "hardware \<Rightarrow> bus_op list \<Rightarrow> ('z, u32 list) opened_op" where
  "od_cycle hw ops = (\<lambda>w. case close_cycle hw ops (od_log w) of (r, history) \<Rightarrow> (r, w\<lparr>od_log := history\<rparr>))"

definition MSI_TEST_VALUE :: u32 where "MSI_TEST_VALUE = 0x12345678"

text \<open>\<open>check_irq.reset()\<close>.\<close>

definition reset_check_irq :: "('z, unit) opened_op" where
  "reset_check_irq =
     bnd (gets od_check_irq) (\<lambda>q.
     case q of
       None \<Rightarrow> ret ()
     | Some irq \<Rightarrow> thn (modify (\<lambda>w. w\<lparr>od_check_irq := None\<rparr>)) (destroy_irq irq))"

definition check_msi_callback :: "u32 \<Rightarrow> ('z, unit) opened_op" where
  "check_msi_callback v =
     thn (assert_that (v = MSI_TEST_VALUE) ''value == MSI_TEST_VALUE'')
    (thn (modify (\<lambda>w. w\<lparr>od_check_phase := False\<rparr>)) reset_check_irq)"

text \<open>The handlers: the test of this device, and what the drivers registered.\<close>

fun run_slot :: "(nat \<Rightarrow> u32 \<Rightarrow> ('z, unit) opened_op) \<Rightarrow> slot \<Rightarrow> u32 \<Rightarrow> ('z, unit) opened_op" where
  "run_slot drivers CheckMsi v = check_msi_callback v"
| "run_slot drivers (Slot n) v = drivers n v"

text \<open>
  \<open>config n\<close> is what the three configuration registers return in the \<open>n\<close>th cycle on them, or how
  the cycle fails: address, data and count of a message.
\<close>

type_synonym config_registers = "nat \<Rightarrow> exn + u32 \<times> u32 \<times> u32"

definition read_config :: "config_registers \<Rightarrow> ('z, u32 \<times> u32 \<times> u32) opened_op" where
  "read_config config = (\<lambda>w. (config (od_polls w), w\<lparr>od_polls := Suc (od_polls w)\<rparr>))"

fun poll_loop :: "(slot \<Rightarrow> u32 \<Rightarrow> ('z, unit) opened_op) \<Rightarrow> config_registers \<Rightarrow> nat \<Rightarrow> bool \<Rightarrow> u32 \<Rightarrow> ('z, bool \<times> u32) opened_op" where
  "poll_loop run config 0 found msi_cnt = ret (found, msi_cnt)"
| "poll_loop run config (Suc n) found msi_cnt =
     bnd (read_config config) (\<lambda>(msi_adr, msi_dat, msi_cnt).
     thn (if msi_cnt AND 1 \<noteq> 0
          then bnd (gets (\<lambda>w. od_first w + (ucast msi_adr AND od_mask w))) (\<lambda>address.
               thn (modify (\<lambda>w. w\<lparr>od_needs_polling := True\<rparr>)) (saftd_write run address msi_dat))
          else ret ())
         (let found' = (found \<or> msi_cnt AND 1 \<noteq> 0) in
          if msi_cnt AND 2 = 0 then ret (found', msi_cnt) else poll_loop run config n found' msi_cnt))"

definition connect_poll :: "bool \<Rightarrow> int \<Rightarrow> ('z, source_handle) opened_op" where
  "connect_poll only_once interval =
     bnd draw (\<lambda>r w.
     case new_source_id (ucast r) (od_loop w) of (i, l1) \<Rightarrow>
     case loop_connect (new_timeout_source i only_once interval interval (od_time w)) l1 of (h, l2) \<Rightarrow>
       (Inr h, w\<lparr>od_loop := l2\<rparr>))"

text \<open>The result says whether the source stays in the loop.\<close>

definition poll_msi :: "(slot \<Rightarrow> u32 \<Rightarrow> ('z, unit) opened_op) \<Rightarrow> config_registers \<Rightarrow> bool \<Rightarrow> ('z, bool) opened_op" where
  "poll_msi run config only_once =
     bnd (poll_loop run config 5 False 0) (\<lambda>(found_msi, msi_cnt).
     thn (if msi_cnt AND 2 \<noteq> 0 \<or> found_msi
          then bnd (connect_poll True 0) (\<lambda>h. modify (\<lambda>w. w\<lparr>od_poll_once := h\<rparr>)) else ret ())
         (gets (\<lambda>w. \<not> only_once \<and> (od_check_phase w \<or> od_needs_polling w))))"

section \<open>The mailbox\<close>

definition MAILBOX_VENDOR_ID :: u32 where "MAILBOX_VENDOR_ID = 0x651"
definition MAILBOX_DEVICE_ID :: u32 where "MAILBOX_DEVICE_ID = 0xfab0bdd8"

text \<open>The operations of the mailbox over any bus: \<open>cyc\<close> is what does a cycle.\<close>

fun mailbox_search :: "(bus_op list \<Rightarrow> ('w, u32 list) op) \<Rightarrow> u64 \<Rightarrow> nat \<Rightarrow> nat \<Rightarrow> u32 \<Rightarrow> ('w, nat option) op" where
  "mailbox_search cyc mailbox slot_index 0 target_address = ret None"
| "mailbox_search cyc mailbox slot_index (Suc left) target_address =
     bnd (cyc [BusRead (mailbox + of_nat slot_index * 4 * 2)]) (\<lambda>rs.
     if hd rs = 0xffffffff
     then bnd (cyc [BusWrite (mailbox + of_nat slot_index * 4 * 2 + 4) target_address]) (\<lambda>_. ret (Some slot_index))
     else mailbox_search cyc mailbox (Suc slot_index) left target_address)"

definition mailbox_configure :: "(bus_op list \<Rightarrow> ('w, u32 list) op) \<Rightarrow> u64 \<Rightarrow> u32 \<Rightarrow> ('w, nat option) op" where
  "mailbox_configure cyc mailbox target_address = mailbox_search cyc mailbox 0 128 target_address"

definition mailbox_use :: "(bus_op list \<Rightarrow> ('w, u32 list) op) \<Rightarrow> u64 \<Rightarrow> nat \<Rightarrow> u32 \<Rightarrow> ('w, unit) op" where
  "mailbox_use cyc mailbox slot_index v = bnd (cyc [BusWrite (mailbox + of_nat slot_index * 4 * 2) v]) (\<lambda>_. ret ())"

text \<open>The destructor of a slot frees it; an exception of the bus leaves a destructor.\<close>

definition mailbox_free :: "(bus_op list \<Rightarrow> ('w, u32 list) op) \<Rightarrow> u64 \<Rightarrow> nat \<Rightarrow> ('w, unit) op" where
  "mailbox_free cyc mailbox slot_index =
     try_catch (bnd (cyc [BusWrite (mailbox + of_nat slot_index * 4 * 2 + 4) 0xffffffff]) (\<lambda>_. ret ()))
       (\<lambda>e. raise (Terminate ''Mailbox::Slot::~Slot''))"

section \<open>Construction and destruction\<close>

text \<open>A search for a part of a string.\<close>

fun contains :: "string \<Rightarrow> string \<Rightarrow> bool" where
  "contains part [] \<longleftrightarrow> part = []"
| "contains part (c # s) \<longleftrightarrow> take (length part) (c # s) = part \<or> contains part s"

text \<open>
  The test message: an address for the check, a slot of the mailbox that writes to it, one message,
  and the periodic source. A null pointer is used where there is no address or no slot. When
  something is thrown after the slot was taken, the slot is freed all the same.
\<close>

definition test_message :: "hardware \<Rightarrow> sdb \<Rightarrow> u64 \<times> u64 \<Rightarrow> int \<Rightarrow> ('z, unit) opened_op" where
  "test_message hw sdb msi_range interval =
     bnd (MsiDevice sdb MAILBOX_VENDOR_ID MAILBOX_DEVICE_ID) (\<lambda>(mailbox, msi_first).
     bnd (request_irq msi_range msi_first CheckMsi) (\<lambda>q.
     thn (modify (\<lambda>w. w\<lparr>od_check_irq := q\<rparr>))
    (case q of
       None \<Rightarrow> raise (Undefined ''check_irq->address()'')
     | Some irq \<Rightarrow>
         bnd (mailbox_configure (od_cycle hw) mailbox (ucast (iq_addr irq))) (\<lambda>s.
         case s of
           None \<Rightarrow> raise (Undefined ''slot->Use'')
         | Some slot_index \<Rightarrow>
             thn (try_catch (mailbox_use (od_cycle hw) mailbox slot_index MSI_TEST_VALUE)
                    (\<lambda>e. thn (mailbox_free (od_cycle hw) mailbox slot_index) (raise e)))
            (thn (bnd (connect_poll False interval) (\<lambda>h. modify (\<lambda>w. w\<lparr>od_poll_source := h\<rparr>)))
                 (mailbox_free (od_cycle hw) mailbox slot_index))))))"

text \<open>
  \<open>open_forward\<close> is the construction of the forwarding device. Only errors of saftlib are caught;
  then the rest of the block, and with it the forwarding, is skipped.
\<close>

definition OpenDevice ::
  "hardware \<Rightarrow> sdb \<Rightarrow> (string \<Rightarrow> ('z, string) opened_op) \<Rightarrow> u64 \<times> u64 \<Rightarrow> string \<Rightarrow> int \<Rightarrow> ('z, unit) opened_op" where
  "OpenDevice hw sdb open_forward msi_range eb_path interval =
     thn (modify (\<lambda>w. w\<lparr>od_first := fst msi_range, od_mask := snd msi_range - fst msi_range, od_check_irq := None,
            od_check_phase := True, od_needs_polling := False, od_poll_source := null_handle,
            od_poll_once := null_handle, od_interval := interval, od_forward_path := eb_path\<rparr>))
         (try_catch
            (thn (test_message hw sdb msi_range interval)
            (if contains ''/ttyUSB'' eb_path \<or> contains ''/pts/'' eb_path
             then bnd (open_forward eb_path) (\<lambda>p. modify (\<lambda>w. w\<lparr>od_forward_path := p\<rparr>))
             else ret ()))
            (\<lambda>e. if is_saftbus_error e then ret () else raise e))"

definition destroy_opened :: "('z, unit) opened_op" where
  "destroy_opened =
     thn reset_check_irq
         (modify (\<lambda>w. w\<lparr>od_loop := loop_remove (od_poll_once w) (loop_remove (od_poll_source w) (od_loop w))\<rparr>))"

end
