(* ===== verification/Interrupts_Facts.thy ===== *)
theory Interrupts_Facts
  imports Interrupts
begin

text \<open>
  Facts about the table of the handlers, the addresses of the interrupts and the polling.
\<close>

section \<open>Requests\<close>

definition irq_address :: "irq \<Rightarrow> u64" where "irq_address q = iq_addr q - iq_first q"

lemma irq_address_IRQ [simp]: "irq_address (IRQ a f) = a" "iq_first (IRQ a f) = f" "iq_addr (IRQ a f) = a + f"
  by (simp_all add: irq_address_def IRQ_def)

lemma attach_irq_eq:
  "attach_irq a s w = (if map_of (sf_irqs w) a = None then (Inr True, w\<lparr>sf_irqs := omap_put a s (sf_irqs w)\<rparr>)
     else (Inr False, w))"
  by (simp add: attach_irq_def op_simps)

lemma destroy_irq_eq: "destroy_irq q w = (Inr (), w\<lparr>sf_irqs := omap_erase (irq_address q) (sf_irqs w)\<rparr>)"
proof (cases "map_of (sf_irqs w) (irq_address q)")
  case None
  then have "omap_erase (irq_address q) (sf_irqs w) = sf_irqs w"
    by (intro omap_erase_fresh) (simp add: map_of_eq_None_iff)
  with None show ?thesis by (simp add: destroy_irq_def release_irq_def modify_def irq_address_def)
next
  case Some
  then show ?thesis by (simp add: destroy_irq_def release_irq_def modify_def irq_address_def)
qed

definition candidate :: "u64 \<Rightarrow> u64 \<Rightarrow> u32 \<Rightarrow> u64" where
  "candidate first msk r = ((ucast r AND msk) + first) AND NOT 3"

text \<open>
  A request takes the first of the drawn addresses that is free, and fails if there is none among
  them; nothing else changes.
\<close>

lemma try_addresses_result:
  "\<exists>k \<le> n. (\<forall>i < k. map_of (sf_irqs w) (candidate first msk (sf_rand w (sf_drawn w + i))) \<noteq> None) \<and>
     (if k = n then try_addresses n first msk mf s w = (Inr None, w\<lparr>sf_drawn := sf_drawn w + n\<rparr>)
      else map_of (sf_irqs w) (candidate first msk (sf_rand w (sf_drawn w + k))) = None \<and>
        try_addresses n first msk mf s w =
          (Inr (Some (IRQ (candidate first msk (sf_rand w (sf_drawn w + k))) mf)),
           w\<lparr>sf_drawn := sf_drawn w + Suc k,
             sf_irqs := omap_put (candidate first msk (sf_rand w (sf_drawn w + k))) s (sf_irqs w)\<rparr>))"
proof (induction n arbitrary: w)
  case 0
  then show ?case by (simp add: ret_def)
next
  case (Suc n)
  let ?a = "candidate first msk (sf_rand w (sf_drawn w))"
  let ?w = "w\<lparr>sf_drawn := Suc (sf_drawn w)\<rparr>"
  show ?case
  proof (cases "map_of (sf_irqs w) ?a")
    case None
    then have "try_addresses (Suc n) first msk mf s w =
        (Inr (Some (IRQ ?a mf)), w\<lparr>sf_drawn := Suc (sf_drawn w), sf_irqs := omap_put ?a s (sf_irqs w)\<rparr>)"
      by (simp add: bnd_def draw_def attach_irq_eq ret_def Let_def candidate_def)
    with None show ?thesis by (intro exI [of _ 0]) simp
  next
    case (Some x)
    then have e: "try_addresses (Suc n) first msk mf s w = try_addresses n first msk mf s ?w"
      by (simp add: bnd_def draw_def attach_irq_eq Let_def candidate_def)
    obtain k where k: "k \<le> n" "\<forall>i < k. map_of (sf_irqs ?w) (candidate first msk (sf_rand ?w (sf_drawn ?w + i))) \<noteq> None"
      "if k = n then try_addresses n first msk mf s ?w = (Inr None, ?w\<lparr>sf_drawn := sf_drawn ?w + n\<rparr>)
       else map_of (sf_irqs ?w) (candidate first msk (sf_rand ?w (sf_drawn ?w + k))) = None \<and>
        try_addresses n first msk mf s ?w =
          (Inr (Some (IRQ (candidate first msk (sf_rand ?w (sf_drawn ?w + k))) mf)),
           ?w\<lparr>sf_drawn := sf_drawn ?w + Suc k,
             sf_irqs := omap_put (candidate first msk (sf_rand ?w (sf_drawn ?w + k))) s (sf_irqs ?w)\<rparr>)"
      using Suc.IH [of ?w] by blast
    have "\<forall>i < Suc k. map_of (sf_irqs w) (candidate first msk (sf_rand w (sf_drawn w + i))) \<noteq> None"
      using k(2) Some by (auto simp: less_Suc_eq_0_disj)
    with k(1,3) show ?thesis unfolding e by (intro exI [of _ "Suc k"]) (auto split: if_splits)
  qed
qed

lemma request_irq_cases:
  assumes "request_irq rng mf s w = (x, w')"
  obtains k where "k < 2000" "map_of (sf_irqs w) (candidate (fst rng) (snd rng - fst rng) (sf_rand w (sf_drawn w + k))) = None"
    "x = Inr (Some (IRQ (candidate (fst rng) (snd rng - fst rng) (sf_rand w (sf_drawn w + k))) mf))"
    "w' = w\<lparr>sf_drawn := sf_drawn w + Suc k,
       sf_irqs := omap_put (candidate (fst rng) (snd rng - fst rng) (sf_rand w (sf_drawn w + k))) s (sf_irqs w)\<rparr>"
  | "\<forall>i < 2000. map_of (sf_irqs w) (candidate (fst rng) (snd rng - fst rng) (sf_rand w (sf_drawn w + i))) \<noteq> None"
    "x = Inr None" "w' = w\<lparr>sf_drawn := sf_drawn w + 2000\<rparr>"
  using try_addresses_result [of 2000 w "fst rng" "snd rng - fst rng" mf s] assms
  unfolding request_irq_def by (auto split: if_splits dest: le_neq_implies_less)

section \<open>The handlers of the living interrupts\<close>

text \<open>\<open>live\<close> are the \<open>IRQ\<close> objects that exist, with the handlers they were requested for.\<close>

definition table_of_irqs :: "(irq \<times> slot) list \<Rightarrow> (u64 \<times> slot) list" where
  "table_of_irqs live = map (\<lambda>(q, s). (irq_address q, s)) live"

definition irqs_exact :: "(irq \<times> slot) list \<Rightarrow> 'z saftd_scheme \<Rightarrow> bool" where
  "irqs_exact live w \<longleftrightarrow> omap_ok (sf_irqs w) \<and> distinct (map fst (table_of_irqs live)) \<and>
     map_of (sf_irqs w) = map_of (table_of_irqs live)"

text \<open>
  The devices share the window of the host, \<open>rng\<close>; the first address at which a unit reaches the
  host is a multiple of the size of the window.
\<close>

inductive irq_step :: "u64 \<times> u64 \<Rightarrow> (irq \<times> slot) list \<times> 'z saftd_scheme \<Rightarrow> (irq \<times> slot) list \<times> 'z saftd_scheme \<Rightarrow> bool" for rng where
  requested: "mf AND (snd rng - fst rng) = 0 \<Longrightarrow> request_irq rng mf s w = (Inr (Some q), w') \<Longrightarrow>
    irq_step rng (live, w) ((q, s) # live, w')"
| refused: "request_irq rng mf s w = (Inr None, w') \<Longrightarrow> irq_step rng (live, w) (live, w')"
| destroyed: "(q, s) \<in> set live \<Longrightarrow> destroy_irq q w = (Inr (), w') \<Longrightarrow>
    irq_step rng (live, w) (remove1 (q, s) live, w')"

lemma map_of_remove1:
  assumes "distinct (map fst xs)" "(k, v) \<in> set xs"
  shows "map_of (remove1 (k, v) xs) = (map_of xs)(k := None)"
  using assms
proof (induction xs)
  case (Cons p xs)
  show ?case
  proof (cases "p = (k, v)")
    case True
    then have "map_of xs k = None" using Cons.prems by (simp add: map_of_eq_None_iff)
    with True show ?thesis by (auto simp: fun_eq_iff)
  next
    case False
    then have "k \<in> fst ` set xs" using Cons.prems by force
    then have "fst p \<noteq> k" using Cons.prems by auto
    with False Cons show ?thesis by (cases p) (auto simp: fun_eq_iff)
  qed
qed simp

lemma distinct_remove1_keys: "distinct (map fst xs) \<Longrightarrow> distinct (map fst (remove1 p xs))"
proof (induction xs)
  case (Cons a xs)
  have "fst ` set (remove1 p xs) \<subseteq> fst ` set xs" using set_remove1_subset by fast
  with Cons show ?case by auto
qed simp

lemma irq_address_in_table: "(q, s) \<in> set live \<Longrightarrow> irq_address q \<in> fst ` set (table_of_irqs live)"
  by (force simp: table_of_irqs_def)

lemma table_of_irqs_Cons: "table_of_irqs ((q, s) # live) = (irq_address q, s) # table_of_irqs live"
  by (simp add: table_of_irqs_def)

lemma table_of_irqs_remove1:
  assumes "distinct (map fst (table_of_irqs live))" "(q, s) \<in> set live"
  shows "table_of_irqs (remove1 (q, s) live) = remove1 (irq_address q, s) (table_of_irqs live)"
  using assms
proof (induction live)
  case (Cons p live)
  obtain q' s' where p: "p = (q', s')" by fastforce
  show ?case
  proof (cases "p = (q, s)")
    case True
    then show ?thesis by (simp add: p table_of_irqs_Cons)
  next
    case False
    then have i: "(q, s) \<in> set live" using Cons.prems(2) by auto
    have "irq_address q' \<notin> fst ` set (table_of_irqs live)" using Cons.prems(1) by (simp add: p table_of_irqs_Cons)
    with irq_address_in_table [OF i] have "irq_address q' \<noteq> irq_address q" by metis
    then have "(irq_address q', s') \<noteq> (irq_address q, s)" by simp
    moreover have "table_of_irqs (remove1 (q, s) live) = remove1 (irq_address q, s) (table_of_irqs live)"
      using Cons.prems(1) i by (intro Cons.IH) (simp_all add: p table_of_irqs_Cons)
    ultimately show ?thesis using False unfolding p by (auto simp: table_of_irqs_Cons)
  qed
qed simp

section \<open>Addresses\<close>

text \<open>
  A window of the bus: as large as a power of two, aligned to its size, and of at least one word.
  The library reports windows of this kind.
\<close>

definition window :: "u64 \<Rightarrow> u64 \<Rightarrow> nat \<Rightarrow> bool" where
  "window first end_adr k \<longleftrightarrow> 2 \<le> k \<and> end_adr = first + mask k \<and> first AND mask k = 0"

lemma three_is_mask: "(3 :: u64) = mask 2"
  by (simp add: mask_eq_exp_minus_1)

lemma outside_of_mask:
  assumes "first AND mask k = 0"
  shows "first AND (y AND mask k AND z) = (0 :: u64)"
proof (rule bit_word_eqI)
  fix n
  have "\<not> bit (first AND mask k) n" by (simp add: assms)
  then show "bit (first AND (y AND mask k AND z)) n = bit (0 :: u64) n" by (auto simp: bit_simps)
qed

lemma candidate_in_window:
  assumes "window first end_adr k"
  shows "candidate first (end_adr - first) r = first OR (ucast r AND mask k AND NOT 3)"
proof -
  have k: "2 \<le> k" and m: "end_adr - first = mask k" and f: "first AND mask k = 0" using assms by (simp_all add: window_def)
  let ?x = "ucast r AND mask k"
  have "first AND ?x = 0" using outside_of_mask [OF f, of _ "- 1"] by simp
  then have "?x AND first = 0" by (simp only: and.commute)
  then have "?x + first = ?x OR first" by (rule disjunctive_add_eq_or)
  then have c: "candidate first (end_adr - first) r = (?x OR first) AND NOT 3" unfolding candidate_def m by simp
  have "first AND NOT 3 = first"
  proof (rule bit_word_eqI)
    fix n
    have "\<not> bit (first AND mask k) n" unfolding f by simp
    moreover assume "n < LENGTH(64)"
    ultimately have "n < k \<Longrightarrow> \<not> bit first n" by (simp add: bit_simps)
    then show "bit (first AND NOT 3) n = bit first n" using k \<open>n < LENGTH(64)\<close> by (auto simp: three_is_mask bit_simps)
  qed
  then show ?thesis unfolding c bit.conj_disj_distrib2 by (simp add: or.commute and.assoc)
qed

lemma word_take_bit_add: "take_bit k (take_bit k a + take_bit k b) = take_bit k (a + b)" for a b :: u64
proof -
  have u: "uint (take_bit k (x + y)) = take_bit (min k 64) (uint x + uint y)" for x y :: u64
  proof -
    have "uint (x + y) = take_bit 64 (uint x + uint y)" by (simp add: uint_word_ariths(1) take_bit_eq_mod)
    then show ?thesis by (simp only: unsigned_take_bit_eq take_bit_take_bit)
  qed
  have "take_bit (min k 64) (take_bit k (uint a) + take_bit k (uint b)) =
      take_bit (min k 64) (take_bit (min k 64) (take_bit k (uint a)) + take_bit (min k 64) (take_bit k (uint b)))"
    by (rule take_bit_add [symmetric])
  also have "\<dots> = take_bit (min k 64) (take_bit (min k 64) (uint a) + take_bit (min k 64) (uint b))"
    by (simp add: min.commute min.left_commute)
  also have "\<dots> = take_bit (min k 64) (uint a + uint b)" by (rule take_bit_add)
  finally have "uint (take_bit k (take_bit k a + take_bit k b)) = uint (take_bit k (a + b))"
    unfolding u by (simp add: unsigned_take_bit_eq)
  then show ?thesis by (simp add: word_uint_eq_iff)
qed

text \<open>The message for an interrupt leads back to the address it is registered at.\<close>

lemma message_address:
  assumes "window first end_adr k" "mf AND mask k = 0"
    and "a = candidate first (end_adr - first) r"
  shows "first + ((a + mf) AND (end_adr - first)) = a"
proof -
  have m: "end_adr - first = mask k" and f: "first AND mask k = 0" using assms by (simp_all add: window_def)
  let ?x = "ucast r AND mask k AND NOT 3"
  have a: "a = first OR ?x" unfolding assms(3) by (rule candidate_in_window [OF assms(1)])
  have "(a + mf) AND mask k = ((a AND mask k) + (mf AND mask k)) AND mask k"
    unfolding take_bit_eq_mask [symmetric] by (rule word_take_bit_add [symmetric])
  also have "\<dots> = a AND mask k" by (simp add: assms(2))
  also have "\<dots> = ?x"
  proof -
    have "?x AND mask k = ?x" by (rule bit_word_eqI) (auto simp: bit_simps)
    then show ?thesis unfolding a bit.conj_disj_distrib2 f by simp
  qed
  finally have "(a + mf) AND (end_adr - first) = ?x" unfolding m .
  moreover have "first AND ?x = 0" by (rule outside_of_mask [OF f])
  then have "first + ?x = first OR ?x" by (rule disjunctive_add_eq_or)
  ultimately show ?thesis unfolding a by simp
qed

lemma irq_step_exact:
  assumes "irq_step rng (live, w) (live', w')" "irqs_exact live w"
  shows "irqs_exact live' w'"
  using assms(1)
proof cases
  case (requested mf s q)
  from this(3) show ?thesis
  proof (cases rule: request_irq_cases)
    case (1 k)
    then have "q = IRQ (candidate (fst rng) (snd rng - fst rng) (sf_rand w (sf_drawn w + k))) mf" by simp
    then have "irq_address q = candidate (fst rng) (snd rng - fst rng) (sf_rand w (sf_drawn w + k))" by simp
    with 1(2) have "map_of (sf_irqs w) (irq_address q) = None" by simp
    with assms(2) have f: "irq_address q \<notin> fst ` set (table_of_irqs live)"
      by (simp add: irqs_exact_def map_of_eq_None_iff)
    have "sf_irqs w' = omap_put (irq_address q) s (sf_irqs w)" using 1(4) \<open>irq_address q = _\<close> by simp
    with f assms(2) show ?thesis unfolding requested(1) by (simp add: irqs_exact_def table_of_irqs_Cons)
  qed simp
next
  case (refused mf s)
  from this(2) show ?thesis
  proof (cases rule: request_irq_cases)
    case 2
    with assms(2) refused(1) show ?thesis by (simp add: irqs_exact_def)
  qed simp
next
  case (destroyed q s)
  have e: "w' = w\<lparr>sf_irqs := omap_erase (irq_address q) (sf_irqs w)\<rparr>" using destroyed(3) by (simp add: destroy_irq_eq)
  have d: "distinct (map fst (table_of_irqs live))" using assms(2) by (simp add: irqs_exact_def)
  have "(irq_address q, s) \<in> set (table_of_irqs live)" using destroyed(2) by (force simp: table_of_irqs_def)
  then show ?thesis using assms(2) unfolding destroyed(1) e
    by (simp add: irqs_exact_def table_of_irqs_remove1 [OF d destroyed(2)] map_of_remove1 [OF d] distinct_remove1_keys [OF d])
qed

text \<open>All interrupts that exist were drawn from the window.\<close>

definition drawn_from :: "u64 \<times> u64 \<Rightarrow> irq \<Rightarrow> bool" where
  "drawn_from rng q \<longleftrightarrow> iq_first q AND (snd rng - fst rng) = 0 \<and>
     (\<exists>r. irq_address q = candidate (fst rng) (snd rng - fst rng) r)"

lemma irq_step_drawn:
  assumes "irq_step rng (live, w) (live', w')" "\<forall>(q, s) \<in> set live. drawn_from rng q"
  shows "\<forall>(q, s) \<in> set live'. drawn_from rng q"
  using assms(1)
proof cases
  case (requested mf s q)
  from this(3) show ?thesis
  proof (cases rule: request_irq_cases)
    case (1 k)
    then have "drawn_from rng q" using requested(2) by (auto simp: drawn_from_def)
    with assms(2) show ?thesis unfolding requested(1) by simp
  qed simp
next
  case (destroyed q s)
  with assms(2) show ?thesis using set_remove1_subset by fastforce
qed (use assms(2) in simp)

lemma irq_history:
  assumes "(irq_step rng)\<^sup>*\<^sup>* ([], w0) (live, w)" "sf_irqs w0 = []"
  shows "irqs_exact live w \<and> (\<forall>(q, s) \<in> set live. drawn_from rng q)"
proof -
  have "(irq_step rng)\<^sup>*\<^sup>* x y \<Longrightarrow> irqs_exact (fst x) (snd x) \<and> (\<forall>(q, s) \<in> set (fst x). drawn_from rng q) \<Longrightarrow>
      irqs_exact (fst y) (snd y) \<and> (\<forall>(q, s) \<in> set (fst y). drawn_from rng q)" for x y :: "(irq \<times> slot) list \<times> 'a saftd_scheme"
  proof (induction rule: rtranclp_induct)
    case (step y z)
    have "irq_step rng (fst y, snd y) (fst z, snd z)" using step.hyps(2) by simp
    from irq_step_exact [OF this] irq_step_drawn [OF this] step.IH step.prems show ?case by blast
  qed
  from this [OF assms(1)] assms(2) show ?thesis by (simp add: irqs_exact_def table_of_irqs_def)
qed

lemma live_handler:
  assumes "irqs_exact live w" "(q, s) \<in> set live"
  shows "map_of (sf_irqs w) (irq_address q) = Some s"
proof -
  have "(irq_address q, s) \<in> set (table_of_irqs live)" using assms(2) by (force simp: table_of_irqs_def)
  then show ?thesis using assms(1) by (simp add: irqs_exact_def)
qed

section \<open>Polling\<close>

text \<open>From the \<open>n\<close>th cycle on the registers deliver these messages; the count says whether there are more.\<close>

definition pending :: "config_registers \<Rightarrow> nat \<Rightarrow> (u32 \<times> u32) list \<Rightarrow> bool" where
  "pending config n msgs \<longleftrightarrow>
     (\<forall>i < length msgs. config (n + i) = Inr (fst (msgs ! i), snd (msgs ! i), if Suc i < length msgs then 3 else 1))"

lemma pending_Cons:
  "pending config n (m # msgs) \<longleftrightarrow> config n = Inr (fst m, snd m, if msgs \<noteq> [] then 3 else 1) \<and> pending config (Suc n) msgs"
  by (auto simp: pending_def less_Suc_eq_0_disj)

text \<open>One message: the cycle that fetched it, and its delivery.\<close>

definition take_message :: "(slot \<Rightarrow> u32 \<Rightarrow> ('z, unit) opened_op) \<Rightarrow> u32 \<times> u32 \<Rightarrow> ('z, unit) opened_op" where
  "take_message run m =
     thn (modify (\<lambda>w. w\<lparr>od_polls := Suc (od_polls w), od_needs_polling := True\<rparr>))
         (bnd (gets (\<lambda>w. od_first w + (ucast (fst m) AND od_mask w))) (\<lambda>address. saftd_write run address (snd m)))"

definition keeps_polls :: "(slot \<Rightarrow> u32 \<Rightarrow> ('z, unit) opened_op) \<Rightarrow> bool" where
  "keeps_polls run \<longleftrightarrow> (\<forall>s v w. od_polls (snd (run s v w)) = od_polls w)"

lemma saftd_write_polls:
  assumes "keeps_polls run" shows "od_polls (snd (saftd_write run a d w)) = od_polls w"
proof (cases "map_of (sf_irqs w) a")
  case (Some s)
  obtain r w1 where r: "run s d w = (r, w1)" by fastforce
  then have "od_polls w1 = od_polls w" using assms unfolding keeps_polls_def by (metis snd_conv)
  then show ?thesis using Some r by (cases r) (simp_all add: saftd_write_def op_simps)
qed (simp add: saftd_write_def op_simps)

lemma poll_loop_pending:
  assumes "keeps_polls run"
  shows "msgs \<noteq> [] \<Longrightarrow> 0 < n \<Longrightarrow> pending config (od_polls w) msgs \<Longrightarrow>
    poll_loop run config n found cnt w =
      thn (for_each (take_message run) (take n msgs)) (ret (True, if n < length msgs then 3 else 1)) w"
proof (induction n arbitrary: msgs w found cnt)
  case (Suc n)
  obtain m ms where msgs: "msgs = m # ms" using Suc.prems(1) by (cases msgs) auto
  let ?p = "od_polls w" and ?c = "if ms \<noteq> [] then 3 else 1 :: u32"
  have cfg: "config ?p = Inr (fst m, snd m, ?c)" "pending config (Suc ?p) ms" using Suc.prems(3) by (simp_all add: msgs pending_Cons)
  let ?w = "w\<lparr>od_polls := Suc ?p, od_needs_polling := True\<rparr>"
  obtain r w' where d: "saftd_write run (od_first w + (ucast (fst m) AND od_mask w)) (snd m) ?w = (r, w')" by fastforce
  have p: "od_polls w' = Suc ?p" using saftd_write_polls [OF assms, of "od_first w + (ucast (fst m) AND od_mask w)" "snd m" ?w] d by simp
  have t: "take_message run m w = (r, w')" using d by (simp add: take_message_def op_simps)
  have "?c AND 1 \<noteq> 0" "?c AND 2 = 0 \<longleftrightarrow> ms = []" by simp_all
  then have u: "poll_loop run config (Suc n) found cnt w =
      (case r of Inl e \<Rightarrow> (Inl e, w') | Inr _ \<Rightarrow> if ms = [] then (Inr (True, 1), w') else poll_loop run config n True 3 w')"
    using d by (cases r) (simp_all add: read_config_def cfg op_simps)
  show ?case
  proof (cases r)
    case (Inl e)
    then show ?thesis unfolding u by (simp add: msgs thn_def bnd_def t)
  next
    case r: (Inr x)
    show ?thesis
    proof (cases "ms = [] \<or> n = 0")
      case True
      then show ?thesis unfolding u by (auto simp: msgs thn_def bnd_def ret_def t r)
    next
      case False
      then have "poll_loop run config n True 3 w' = thn (for_each (take_message run) (take n ms)) (ret (True, if n < length ms then 3 else 1)) w'"
        using Suc.IH [of ms w' True 3] cfg(2) p by simp
      then show ?thesis using False unfolding u by (simp add: msgs thn_def bnd_def t r)
    qed
  qed
qed simp

end
