(* ===== verification/Devices.thy ===== *)
theory Devices
  imports Interrupts
begin

text \<open>
  The attached devices of the daemon (src/SAFTd.cpp). The construction and the destruction of a
  timing receiver are the parameters \<open>make_receiver\<close> and \<open>destroy\<close>; the parts of it that are modelled
  are in the theory of the receiver.
\<close>

definition saftd_path :: string where "saftd_path = ''/de/gsi/saftlib''"

text \<open>Using a pointer to a device that may be null.\<close>

definition deref_device :: "device option \<Rightarrow> ('z, device) saftd_op" where
  "deref_device d = (case d of None \<Rightarrow> raise (Undefined ''null TimingReceiver*'') | Some dv \<Rightarrow> ret dv)"

definition AttachDevice ::
  "(string \<Rightarrow> string \<Rightarrow> int \<Rightarrow> ('z, device) saftd_op) \<Rightarrow> string list \<Rightarrow> string \<Rightarrow> string \<Rightarrow> int \<Rightarrow> ('z, string) saftd_op" where
  "AttachDevice make_receiver ifs name etherbone_path polling_interval_ms =
     bnd (gets (\<lambda>w. map_of (sf_attached w) name)) (\<lambda>found.
     if found \<noteq> None then raise (invalid_args ''device already exists'')
     else try_catch
       (bnd (make_receiver name etherbone_path polling_interval_ms) (\<lambda>d.
        thn (modify (\<lambda>w. w\<lparr>sf_attached := omap_put name (Some d) (sf_attached w)\<rparr>))
       (bnd (gets sf_container) (\<lambda>container.
        thn (if container then bnd (create_object (dv_path d) (new_service ifs (Some name) False)) (\<lambda>_. ret ())
             else ret ())
            (ret (dv_path d))))))
       (\<lambda>e. raise (if is_etherbone e then SaftbusError IO_ERROR (''AttachDevice: failed to open: '' @ what e) else e)))"

text \<open>Erasing the end iterator of the map is undefined. The entry is unlinked, then its object destroyed.\<close>

definition RemoveObject :: "(device \<Rightarrow> ('z, unit) saftd_op) \<Rightarrow> string \<Rightarrow> ('z, unit) saftd_op" where
  "RemoveObject destroy name =
     bnd (gets (\<lambda>w. map_of (sf_attached w) name)) (\<lambda>found.
     case found of
       None \<Rightarrow> raise (Undefined ''attached_devices.erase(end())'')
     | Some d \<Rightarrow>
         thn (modify (\<lambda>w. w\<lparr>sf_attached := omap_erase name (sf_attached w)\<rparr>))
             (case d of None \<Rightarrow> ret () | Some dv \<Rightarrow> destroy dv))"

definition RemoveDevice :: "(device \<Rightarrow> ('z, unit) saftd_op) \<Rightarrow> string \<Rightarrow> ('z, unit) saftd_op" where
  "RemoveDevice destroy name =
     bnd (gets (\<lambda>w. map_of (sf_attached w) name)) (\<lambda>found.
     case found of
       None \<Rightarrow> raise (invalid_args ''no such device'')
     | Some d \<Rightarrow>
         bnd (gets sf_container) (\<lambda>container.
         thn (if container then bnd (deref_device d) (\<lambda>dv. bnd (remove_object (dv_path dv)) (\<lambda>_. ret ())) else ret ())
             (RemoveObject destroy name)))"

definition EbForward :: "string \<Rightarrow> ('z, string) saftd_op" where
  "EbForward saftlib_device =
     bnd (gets (\<lambda>w. map_of (sf_attached w) saftlib_device)) (\<lambda>found.
     case found of None \<Rightarrow> ret [] | Some d \<Rightarrow> bnd (deref_device d) (\<lambda>dv. ret (dv_forward dv)))"

fun device_paths :: "(string \<times> device option) list \<Rightarrow> ('z, (string \<times> string) list) saftd_op" where
  "device_paths [] = ret []"
| "device_paths ((name, d) # ds) =
     bnd (deref_device d) (\<lambda>dv. bnd (device_paths ds) (\<lambda>rest. ret ((name, dv_path dv) # rest)))"

text \<open>The entries are inserted in the order of a map into a map.\<close>

definition getDevices :: "('z, (string \<times> string) list) saftd_op" where
  "getDevices = bnd (gets sf_attached) device_paths"

text \<open>
  A path of the daemon is looked up with \<open>attached_devices[name]\<close>, which inserts a null pointer
  for a name that is not there; \<open>substr\<close> throws when the path is too short.
\<close>

definition getTimingReceiver :: "string \<Rightarrow> ('z, device option) saftd_op" where
  "getTimingReceiver tr_obj_path =
     (if \<not> contains saftd_path tr_obj_path
      then bnd (gets (\<lambda>w. map_of (sf_attached w) tr_obj_path)) (\<lambda>found.
           case found of
             Some d \<Rightarrow> ret d
           | None \<Rightarrow> raise (invalid_args ''no such device''))
      else if length tr_obj_path < length saftd_path + 1 then raise (OtherException ''std::out_of_range'')
      else let name = drop (length saftd_path + 1) tr_obj_path in
           thn (modify (\<lambda>w. w\<lparr>sf_attached := omap_insert name None (sf_attached w)\<rparr>))
          (bnd (gets (\<lambda>w. map_of (sf_attached w) name)) (\<lambda>found.
           ret (case found of Some d \<Rightarrow> d | None \<Rightarrow> None))))"

text \<open>
  The destructor: the services of the devices and the one of the daemon, then the devices. Nothing
  that can be caught leaves it. The order in which \<open>clear()\<close> destroys the devices is not
  specified; here it is the order of the map.
\<close>

definition destroy_saftd :: "(device \<Rightarrow> ('z, unit) saftd_op) \<Rightarrow> ('z, unit) saftd_op" where
  "destroy_saftd destroy =
     bnd (gets sf_container) (\<lambda>container.
     thn (if container
          then try_catch
            (bnd (gets sf_attached) (\<lambda>ds.
             thn (for_each (\<lambda>(name, d). bnd (deref_device d) (\<lambda>dv. bnd (remove_object (dv_path dv)) (\<lambda>_. ret ()))) ds)
                 (bnd (remove_object saftd_path) (\<lambda>_. ret ()))))
            (\<lambda>e. ret ())
          else ret ())
    (bnd (gets sf_attached) (\<lambda>ds.
     thn (modify (\<lambda>w. w\<lparr>sf_attached := []\<rparr>))
         (for_each (\<lambda>(name, d). case d of None \<Rightarrow> ret () | Some dv \<Rightarrow> destroy dv) ds))))"

end
