(* ===== verification/Timing_Receiver.thy ===== *)
theory Timing_Receiver
  imports Device_Units Interrupts
begin

text \<open>
  A timing receiver (src/TimingReceiver.cpp): it is constructed from the opened device, the small
  units, the event condition action unit, the timestamp latch unit and the list of the pins; it
  makes the input and output objects, polls the lock state and the watchdog every second, and
  carries addons.
\<close>

section \<open>State\<close>

text \<open>An addon is what it publishes: interfaces with names and object paths.\<close>

type_synonym addon = "(string \<times> (string \<times> string) list) list"

record timing_receiver = receiver +
  tr_path :: string
  tr_name :: string
  tr_addons :: "(string \<times> addon) list"
  tr_poll_source :: source_handle

type_synonym ('z, 'a) tr_op = "('z timing_receiver_scheme, 'a) op"

text \<open>
  The bus with its directory, the rounding of doubles is not needed here; what the constructor of
  the unit needs, the interface names of the generated services, and the opened device, whose
  construction and destruction are modelled on their own.
\<close>

record 'w receiver_env =
  rv_hw :: hardware
  rv_sdb :: sdb
  rv_directory :: directory
  rv_input :: "string list"
  rv_output :: "string list"
  rv_open :: "('w, unit) op"
  rv_close :: "('w, unit) op"

type_synonym 'z tr_env = "'z timing_receiver_scheme receiver_env"

section \<open>Polling\<close>

definition tr_poll :: "'z tr_env \<Rightarrow> ('z, bool) tr_op" where
  "tr_poll env =
     bnd (getLocked (rv_hw env)) (\<lambda>_.
     thn (watchdog_update (rv_hw env)) (thn (WdRetrigger (rv_hw env)) (ret True)))"

section \<open>Objects of the pins\<close>

definition create_input :: "'z tr_env \<Rightarrow> io \<Rightarrow> string \<Rightarrow> string \<Rightarrow> ('z, unit) tr_op" where
  "create_input env io input_path output_path =
     bnd (new_input (rv_hw env) input_path output_path (io_eca_in io) io) (\<lambda>i.
     bnd (gets (ec_container \<circ> bo_eca)) (\<lambda>container.
     bnd (if container
          then bnd (on_eca (create_object input_path (new_service (rv_input env) None True)))
                   (\<lambda>sid. ret (i\<lparr>in_owned := set_service sid (in_owned i)\<rparr>))
          else ret i) addInput))"

definition create_output :: "'z tr_env \<Rightarrow> io \<Rightarrow> string \<Rightarrow> string \<Rightarrow> ('z, unit) tr_op" where
  "create_output env io input_path output_path =
     bnd (new_output (rv_hw env) io output_path input_path 0) (\<lambda>(s, ou).
     bnd (gets (ec_container \<circ> bo_eca)) (\<lambda>container.
     bnd (if container
          then bnd (on_eca (create_object output_path (new_service (rv_output env) None True)))
                   (\<lambda>sid. ret (s\<lparr>as_service := Some sid\<rparr>))
          else ret s) (\<lambda>s.
     bnd (gets (\<lambda>w. (0, length (ec_sinks (bo_eca w) ! 0)))) (\<lambda>p.
     bnd (on_eca (addActionSink 0 s)) (\<lambda>_.
     modify (\<lambda>w. w\<lparr>bo_outputs := bo_outputs w @ [ou p]\<rparr>))))))"

definition input_path_of :: "string \<Rightarrow> io \<Rightarrow> string" where
  "input_path_of path io = (if is_input io then path @ ''/inputs/'' @ io_name io else [])"

definition output_path_of :: "string \<Rightarrow> io \<Rightarrow> string" where
  "output_path_of path io = (if is_output io then path @ ''/outputs/'' @ io_name io else [])"

definition create_pin :: "'z tr_env \<Rightarrow> io \<Rightarrow> ('z, unit) tr_op" where
  "create_pin env io =
     bnd (gets tr_path) (\<lambda>path.
     thn (if is_input io then create_input env io (input_path_of path io) (output_path_of path io) else ret ())
         (if is_output io then create_output env io (input_path_of path io) (output_path_of path io) else ret ()))"

section \<open>Construction\<close>

definition ECA_SDB_DEVICE_ID :: u32 where "ECA_SDB_DEVICE_ID = 0xb2afc251"
definition ECA_TLU_SDB_VENDOR_ID :: u32 where "ECA_TLU_SDB_VENDOR_ID = 0x00000651"
definition ECA_TLU_SDB_DEVICE_ID :: u32 where "ECA_TLU_SDB_DEVICE_ID = 0x7c82afbc"
definition IO_CONTROL_VENDOR_ID :: u32 where "IO_CONTROL_VENDOR_ID = 0x00000651"
definition IO_CONTROL_PRODUCT_ID :: u32 where "IO_CONTROL_PRODUCT_ID = 0x10c05791"
definition IO_SER_CLK_GEN_VENDOR_ID :: u32 where "IO_SER_CLK_GEN_VENDOR_ID = 0x00000651"
definition IO_SER_CLK_GEN_PRODUCT_ID :: u32 where "IO_SER_CLK_GEN_PRODUCT_ID = 0x5f3eaf43"

text \<open>When something later in a constructor throws, what is complete is destroyed again.\<close>

definition unwinding :: "('w, unit) op \<Rightarrow> ('w, unit) op \<Rightarrow> ('w, unit) op" where
  "unwinding undo m = try_catch m (\<lambda>e. thn undo (raise e))"

definition construct_eca :: "'z tr_env \<Rightarrow> ('z, unit) tr_op" where
  "construct_eca env =
     bnd (MsiDevice (rv_sdb env) ECA_SDB_VENDOR_ID ECA_SDB_DEVICE_ID) (\<lambda>(adr, msi_first).
     thn (modify (\<lambda>w. w\<lparr>bo_eca := blank_eca (bus.truncate (bo_eca w)) (ec_container (bo_eca w)) (tr_path w) adr
            (ec_log (bo_eca w)) (ec_loop (bo_eca w)) (ec_time (bo_eca w)) (ec_rand (bo_eca w))\<rparr>))
         (on_eca (eca_constructor (rv_hw env) (rv_directory env))))"

definition construct_tlu :: "'z tr_env \<Rightarrow> ('z, unit) tr_op" where
  "construct_tlu env =
     bnd (SdbDevice (rv_sdb env) ECA_TLU_SDB_VENDOR_ID ECA_TLU_SDB_DEVICE_ID True) (\<lambda>adr.
     modify (\<lambda>w. w\<lparr>bo_tlu := adr, bo_inputs := []\<rparr>))"

text \<open>The mailbox keeps its address; nothing else of the receiver uses it here.\<close>

definition construct_mailbox :: "'z tr_env \<Rightarrow> ('z, unit) tr_op" where
  "construct_mailbox env = bnd (MsiDevice (rv_sdb env) MAILBOX_VENDOR_ID MAILBOX_DEVICE_ID) (\<lambda>_. ret ())"

definition construct_io_control :: "'z tr_env \<Rightarrow> ('z, unit) tr_op" where
  "construct_io_control env =
     bnd (SdbDevice (rv_sdb env) IO_CONTROL_VENDOR_ID IO_CONTROL_PRODUCT_ID True) (\<lambda>adr.
     bnd (SdbDevice (rv_sdb env) IO_SER_CLK_GEN_VENDOR_ID IO_SER_CLK_GEN_PRODUCT_ID True) (\<lambda>clkgen.
     bnd (on_eca (IoControl (rv_hw env) adr)) (\<lambda>ios.
     modify (\<lambda>w. w\<lparr>bo_control := adr, bo_clkgen := clkgen, bo_ios := ios, bo_outputs := []\<rparr>))))"

definition receiver_body :: "'z tr_env \<Rightarrow> ('z, unit) tr_op" where
  "receiver_body env =
     bnd (gets tr_name) (\<lambda>name.
     thn (throw_if (\<not> list_all is_alnum name) (invalid_args ''Invalid name; [a-zA-Z0-9_] only''))
    (bnd (gets bo_ios) (\<lambda>ios.
     thn (for_each (create_pin env) ios)
    (bnd (tr_poll env) (\<lambda>_.
     bnd (on_eca (connect_timeout PollReceiver 1000)) (\<lambda>h. modify (\<lambda>w. w\<lparr>tr_poll_source := h\<rparr>)))))))"

text \<open>
  The base classes in the order of their declaration, the list of the pins, then the body. The
  name is checked in the body, after everything else.
\<close>

definition TimingReceiver :: "'z tr_env \<Rightarrow> string \<Rightarrow> string \<Rightarrow> ('z, unit) tr_op" where
  "TimingReceiver env saftd_object_path name =
     thn (modify (\<lambda>w. w\<lparr>tr_path := saftd_object_path @ ''/'' @ name, tr_name := name, tr_addons := []\<rparr>))
    (thn (rv_open env)
    (unwinding (rv_close env)
      (thn (Watchdog (rv_hw env) (rv_sdb env))
      (thn (WhiteRabbit (rv_hw env) (rv_sdb env))
      (thn (construct_eca env)
      (unwinding (on_eca eca_destructor)
        (thn (construct_tlu env)
        (unwinding destroy_tlu
          (thn (ECA_Event (rv_sdb env))
          (thn (BuildIdRom (rv_hw env) (rv_sdb env))
          (thn (TempSensor (rv_sdb env))
          (thn (Reset_constructor (rv_sdb env))
          (thn (construct_mailbox env)
          (thn (LM32Cluster (rv_hw env) (rv_sdb env))
          (thn (construct_io_control env) (receiver_body env))))))))))))))))"

section \<open>Destruction\<close>

definition addon_paths :: "(string \<times> addon) list \<Rightarrow> string list" where
  "addon_paths addons = concat (map (\<lambda>(n, a). concat (map (\<lambda>(i, objects). map snd objects) a)) addons)"

text \<open>A refused removal of a service is ignored; then the parts are destroyed in reverse order.\<close>

definition destroy_receiver :: "'z tr_env \<Rightarrow> ('z, unit) tr_op" where
  "destroy_receiver env =
     thn (modify (\<lambda>w. w\<lparr>bo_eca := (bo_eca w)\<lparr>ec_loop := loop_remove (tr_poll_source w) (ec_loop (bo_eca w))\<rparr>\<rparr>))
    (thn (bnd (gets (ec_container \<circ> bo_eca)) (\<lambda>container.
          if \<not> container then ret ()
          else bnd (gets (addon_paths \<circ> tr_addons)) (for_each (\<lambda>path.
                 on_eca (try_catch (thn (remove_object path) (ret ()))
                   (\<lambda>e. if is_saftbus_error e then ret () else raise e))))))
    (thn destroy_tlu
    (thn (on_eca eca_destructor) (rv_close env))))"

section \<open>Operations\<close>

text \<open>Without the lock there is no time, unless the caller says it is for development.\<close>

definition CurrentTime ::
  "nat \<Rightarrow> hardware \<Rightarrow> bool \<Rightarrow> 'z timing_receiver_scheme \<Rightarrow> ((exn + time) \<times> 'z timing_receiver_scheme) option" where
  "CurrentTime fuel hw devInject w =
     (if \<not> devInject \<and> \<not> re_locked w then Some (Inl (SaftbusError IO_ERROR ''TimingReceiver is not Locked''), w)
      else case ReadRawCurrentTime fuel hw (bo_eca w) of
             None \<Rightarrow> None
           | Some (r, e) \<Rightarrow> Some (map_sum id makeTimeTAI r, w\<lparr>bo_eca := e\<rparr>))"

definition InjectEvent :: "hardware \<Rightarrow> u64 \<Rightarrow> u64 \<Rightarrow> time \<Rightarrow> ('z, unit) tr_op" where
  "InjectEvent hw event param t = InjectEventRaw hw event param (t_TAI t)"

definition tr_Remove :: "('z, unit) tr_op" where
  "tr_Remove = raise (SaftbusError IO_ERROR ''TimingReceiver::Remove is deprecated, use SAFTd::Remove instead'')"

definition installAddon :: "string \<Rightarrow> addon \<Rightarrow> ('z, unit) tr_op" where
  "installAddon addon_name a =
     bnd (gets (\<lambda>w. map_of (tr_addons w) addon_name)) (\<lambda>found.
     thn (throw_if (found \<noteq> None)
           (invalid_args (''TimingReceiver::installAddon(): '' @ addon_name @ '' already exists as addon'')))
         (modify (\<lambda>w. w\<lparr>tr_addons := omap_put addon_name a (tr_addons w)\<rparr>)))"

definition removeAddon :: "string \<Rightarrow> ('z, unit) tr_op" where
  "removeAddon addon_name = modify (\<lambda>w. w\<lparr>tr_addons := omap_erase addon_name (tr_addons w)\<rparr>)"

definition getOutputs :: "'z board_scheme \<Rightarrow> exn + (string \<times> string) list" where
  "getOutputs w =
     (case ec_sinks (bo_eca w) of
        [] \<Rightarrow> Inl (AssertFailed ''ECAchannels.size() > 0'')
      | outputs # _ \<Rightarrow> Inr (fold (\<lambda>so m. case so of None \<Rightarrow> m
          | Some s \<Rightarrow> if as_kind s = Output then omap_put (as_name s) (as_path s) m else m) outputs []))"

definition add_objects :: "string \<times> (string \<times> string) list \<Rightarrow> addon \<Rightarrow> addon" where
  "add_objects p result =
     (case p of (interface, objects) \<Rightarrow>
        fold (\<lambda>(n, path) r. omap_put interface
                (omap_put n path (case map_of r interface of None \<Rightarrow> [] | Some m \<Rightarrow> m)) r) objects result)"

definition getInterfaces :: "'z timing_receiver_scheme \<Rightarrow> exn + addon" where
  "getInterfaces w =
     (case getOutputs w of
        Inl e \<Rightarrow> Inl e
      | Inr outputs \<Rightarrow> Inr (fold (\<lambda>(n, a). fold add_objects a) (tr_addons w)
          (fold (\<lambda>(i, objects). omap_put i objects)
            [(''SoftwareActionSink'', getSoftwareActionSinks (bo_eca w)), (''SCUbusActionSink'', ec_scubus_sinks (bo_eca w)),
             (''WbmActionSink'', ec_wbm_sinks (bo_eca w)), (''EmbeddedCPUActionSink'', ec_ecpu_sinks (bo_eca w)),
             (''Output'', outputs), (''Input'', getInputs w)] [])))"

end
