(* ===== verification/Receiver_Facts.thy ===== *)
theory Receiver_Facts
  imports Timing_Receiver Inputs_Facts
begin

text \<open>
  The objects that a timing receiver makes for its pins, and what the construction leaves in the
  timestamp latch unit.
\<close>

section \<open>Writes elsewhere\<close>

definition tlu_registers :: "u64 \<Rightarrow> u64 set" where
  "tlu_registers tlu = set (map ((+) tlu) [ECA_TLU_INPUT_SELECT_RW, ECA_TLU_ENABLE_RW, ECA_TLU_STABLE_RW,
     ECA_TLU_EVENT_HI_RW, ECA_TLU_EVENT_LO_RW, ECA_TLU_WRITE_OWR])"

fun written :: "bus_op \<Rightarrow> u64 set" where
  "written (BusWrite a d) = {a}"
| "written (BusRead a) = {}"

definition writes :: "bus_op list \<Rightarrow> u64 set" where
  "writes ops = (\<Union>x \<in> set ops. written x)"

lemma writes_simps [simp]:
  "writes [] = {}" "writes (x # ops) = written x \<union> writes ops" "writes (xs @ ys) = writes xs \<union> writes ys"
  by (simp_all add: writes_def)

lemma latch_step_elsewhere: "written x \<inter> tlu_registers tlu = {} \<Longrightarrow> latch_step tlu x u = u"
  by (cases x) (auto simp: tlu_registers_def)

lemma latched_elsewhere:
  assumes "writes ops \<inter> tlu_registers tlu = {}"
  shows "latched tlu (history @ ops) = latched tlu history"
proof -
  have "fold (latch_step tlu) ops u = u" for u
    using assms by (induction ops arbitrary: u) (simp_all add: latch_step_elsewhere Int_Un_distrib2)
  then show ?thesis by (simp add: latched_def)
qed

section \<open>One pin\<close>

text \<open>What a successful operation consists of.\<close>

lemma run_simps:
  "thn m n w = (Inr y, w'') \<longleftrightarrow> (\<exists>x w'. m w = (Inr x, w') \<and> n w' = (Inr y, w''))"
  "ret z w = (Inr y, w') \<longleftrightarrow> y = z \<and> w' = w"
  "gets f w = (Inr y, w') \<longleftrightarrow> y = f w \<and> w' = w"
  "throw_if b e w = (Inr u, w') \<longleftrightarrow> \<not> b \<and> w' = w"
  by (auto simp: thn_def bnd_eq_Inr ret_def gets_def throw_if_def raise_def)

lemma on_eca_Inr: "on_eca m w = (Inr x, w') \<longleftrightarrow> (\<exists>e. m (bo_eca w) = (Inr x, e) \<and> w' = w\<lparr>bo_eca := e\<rparr>)"
  by (auto simp: on_eca_def split: prod.splits)

lemma modify_Inr: "modify f w = (Inr u, w') \<longleftrightarrow> w' = f w"
  by (auto simp: modify_def)

lemma create_object_frame:
  assumes "create_object path s e = (Inr sid, e')"
  shows "ec_log e' = ec_log e" "ec_sinks e' = ec_sinks e" "ec_base e' = ec_base e" "ec_container e' = ec_container e"
  using assms by (auto simp: create_object_cases split: if_splits option.splits)

lemma new_input_result:
  assumes "new_input hw path partner channel io w = (Inr i, w')"
  shows "i = \<lparr>in_path = path, in_partner = partner, in_io = io, in_channel = channel, in_enable = False,
      in_event = 0, in_stable = 80, in_owned = new_owned (ec_container (bo_eca w))\<rparr>"
    "w' = w\<lparr>bo_eca := (bo_eca w)\<lparr>ec_log := ec_log (bo_eca w) @ config_ops (bo_tlu w) channel False 0 80\<rparr>\<rparr>"
  using assms
  by (auto simp: new_input_def configInput_def on_eca_def cycle_def close_cycle_def op_simps split: option.splits prod.splits)

lemma create_input_result:
  assumes "create_input env io ip op' w = (Inr (), w')"
  obtains i e where "w' = w\<lparr>bo_eca := e, bo_inputs := bo_inputs w @ [i]\<rparr>"
    "in_io i = io" "in_channel i = io_eca_in io" "in_path i = ip" "\<not> in_enable i" "in_event i = 0" "in_stable i = 80"
    "ec_log e = ec_log (bo_eca w) @ config_ops (bo_tlu w) (io_eca_in io) False 0 80"
    "ec_sinks e = ec_sinks (bo_eca w)" "ec_base e = ec_base (bo_eca w)"
proof -
  obtain i0 w1 where i0: "new_input (rv_hw env) ip op' (io_eca_in io) io w = (Inr i0, w1)"
    using assms by (auto simp: create_input_def bnd_eq_Inr)
  let ?e1 = "(bo_eca w)\<lparr>ec_log := ec_log (bo_eca w) @ config_ops (bo_tlu w) (io_eca_in io) False 0 80\<rparr>"
  have w1: "w1 = w\<lparr>bo_eca := ?e1\<rparr>" by (rule new_input_result(2) [OF i0])
  note r = new_input_result(1) [OF i0]
  show thesis
  proof (cases "ec_container (bo_eca w)")
    case False
    then have "w' = w1\<lparr>bo_inputs := bo_inputs w1 @ [i0]\<rparr>"
      using assms i0 w1 by (simp add: create_input_def addInput_def op_simps)
    then show thesis by (intro that [of i0 ?e1]) (simp_all add: w1 r)
  next
    case True
    obtain sid e where c: "create_object ip (new_service (rv_input env) None True) ?e1 = (Inr sid, e)"
      "w' = w1\<lparr>bo_eca := e, bo_inputs := bo_inputs w1 @ [i0\<lparr>in_owned := set_service sid (in_owned i0)\<rparr>]\<rparr>"
      using assms i0 w1 True
      by (auto simp: create_input_def addInput_def on_eca_def op_simps split: prod.splits sum.splits)
    then show thesis
      by (intro that [of "i0\<lparr>in_owned := set_service sid (in_owned i0)\<rparr>" e]) (simp_all add: w1 r create_object_frame [OF c(1)])
  qed
qed

definition select_registers :: "u64 \<Rightarrow> u64 set" where
  "select_registers base = {base + ECA_CHANNEL_SELECT_RW, base + ECA_CHANNEL_NUM_SELECT_RW, base + ECA_CHANNEL_CODE_SELECT_RW}"

lemma new_action_sink_result:
  assumes "new_action_sink hw kind path name channel num e = (Inr s, e')"
  obtains ops where "e' = e\<lparr>ec_log := ec_log e @ ops\<rparr>" "writes ops \<subseteq> select_registers (ec_base e)"
    "as_kind s = kind" "as_path s = path" "as_name s = name" "as_channel s = channel" "as_num s = num"
proof -
  have "\<exists>ops rs. cycle hw ops e = (Inr rs, e') \<and> writes ops \<subseteq> select_registers (ec_base e) \<and>
      as_kind s = kind \<and> as_path s = path \<and> as_name s = name \<and> as_channel s = channel \<and> as_num s = num"
    by (insert assms, simp add: new_action_sink_def bnd_def gets_def ret_def split: prod.splits sum.splits,
        rule exI, rule conjI, rule exI, assumption, auto simp: select_registers_def)
  then obtain ops rs where "cycle hw ops e = (Inr rs, e')" "writes ops \<subseteq> select_registers (ec_base e)"
    "as_kind s = kind" "as_path s = path" "as_name s = name" "as_channel s = channel" "as_num s = num" by blast
  then show thesis by (intro that) (auto simp: cycle_def close_cycle_def split: option.splits)
qed

lemma create_output_result:
  assumes "create_output env io ip op' w = (Inr (), w')"
  obtains ou e s ops where "w' = w\<lparr>bo_eca := e, bo_outputs := bo_outputs w @ [ou]\<rparr>"
    "ou_io ou = io" "ou_place ou = (0, length (ec_sinks (bo_eca w) ! 0))" "ec_sinks (bo_eca w) \<noteq> []"
    "ec_sinks e = (ec_sinks (bo_eca w))[0 := ec_sinks (bo_eca w) ! 0 @ [Some s]]"
    "as_kind s = Output" "as_path s = op'" "as_name s = io_name io" "as_num s = io_eca_out io"
    "ec_log e = ec_log (bo_eca w) @ ops" "writes ops \<subseteq> select_registers (ec_base (bo_eca w))" "ec_base e = ec_base (bo_eca w)"
proof -
  obtain s0 e1 where n: "new_action_sink (rv_hw env) Output op' (io_name io) 0 (io_eca_out io) (bo_eca w) = (Inr s0, e1)"
    using assms by (auto simp: create_output_def new_output_def on_eca_def bnd_eq_Inr split: prod.splits)
  obtain ops where ops: "e1 = (bo_eca w)\<lparr>ec_log := ec_log (bo_eca w) @ ops\<rparr>" "writes ops \<subseteq> select_registers (ec_base (bo_eca w))"
    "as_kind s0 = Output" "as_path s0 = op'" "as_name s0 = io_name io" "as_num s0 = io_eca_out io"
    by (rule new_action_sink_result [OF n])
  let ?w1 = "w\<lparr>bo_eca := e1\<rparr>"
  define ou where "ou = (\<lambda>p. \<lparr>ou_place = p, ou_partner = ip, ou_io = io, ou_low = 0, ou_high = 0, ou_offset = 0\<rparr>)"
  have o0: "new_output (rv_hw env) io op' ip 0 w = (Inr (s0, ou), ?w1)"
    using n by (simp add: new_output_def on_eca_def op_simps ou_def)
  have "\<exists>s e2. (s = s0 \<and> e2 = e1 \<or> (\<exists>sid t. s = s0\<lparr>as_service := Some sid\<rparr> \<and> create_object op' t e1 = (Inr sid, e2))) \<and>
      ec_sinks e2 \<noteq> [] \<and>
      w' = w\<lparr>bo_eca := e2\<lparr>ec_sinks := (ec_sinks e2)[0 := ec_sinks e2 ! 0 @ [Some s]]\<rparr>,
             bo_outputs := bo_outputs w @ [ou (0, length (ec_sinks e2 ! 0))]\<rparr>"
  proof (cases "ec_container (bo_eca w)")
    case False
    then show ?thesis using assms o0 ops(1)
      by (intro exI [of _ s0] exI [of _ e1])
        (auto simp: create_output_def addActionSink_def on_eca_def op_simps split: if_splits)
  next
    case True
    let ?t = "new_service (rv_output env) None True"
    obtain sid e2 where c: "create_object op' ?t e1 = (Inr sid, e2)"
      using assms o0 True ops(1) by (auto simp: create_output_def on_eca_def op_simps split: prod.splits sum.splits)
    moreover have "ec_sinks e2 \<noteq> [] \<and>
        w' = w\<lparr>bo_eca := e2\<lparr>ec_sinks := (ec_sinks e2)[0 := ec_sinks e2 ! 0 @ [Some (s0\<lparr>as_service := Some sid\<rparr>)]]\<rparr>,
               bo_outputs := bo_outputs w @ [ou (0, length (ec_sinks e2 ! 0))]\<rparr>"
      using assms o0 True ops(1) c by (auto simp: create_output_def addActionSink_def on_eca_def op_simps split: if_splits)
    ultimately show ?thesis by blast
  qed
  then obtain s e2 where e2: "s = s0 \<and> e2 = e1 \<or> (\<exists>sid t. s = s0\<lparr>as_service := Some sid\<rparr> \<and> create_object op' t e1 = (Inr sid, e2))"
    "ec_sinks e2 \<noteq> []"
    "w' = w\<lparr>bo_eca := e2\<lparr>ec_sinks := (ec_sinks e2)[0 := ec_sinks e2 ! 0 @ [Some s]]\<rparr>,
            bo_outputs := bo_outputs w @ [ou (0, length (ec_sinks e2 ! 0))]\<rparr>" by blast
  have f: "ec_log e2 = ec_log e1" "ec_sinks e2 = ec_sinks e1" "ec_base e2 = ec_base e1"
    using e2(1) by (auto dest: create_object_frame)
  have s: "as_kind s = Output" "as_path s = op'" "as_name s = io_name io" "as_num s = io_eca_out io"
    using e2(1) ops(3-6) by auto
  show thesis
    by (rule that [OF e2(3) _ _ _ _ s]) (use e2(2) f ops(1,2) in \<open>simp_all add: ou_def\<close>)
qed

section \<open>All pins\<close>

definition fresh_input :: "string \<Rightarrow> input \<Rightarrow> bool" where
  "fresh_input path i \<longleftrightarrow> in_channel i = io_eca_in (in_io i) \<and> in_path i = input_path_of path (in_io i) \<and>
     \<not> in_enable i \<and> in_event i = 0 \<and> in_stable i = 80"

definition output_in_place :: "string \<Rightarrow> eca \<Rightarrow> out_object \<Rightarrow> bool" where
  "output_in_place path e ou \<longleftrightarrow> (\<exists>s. sink_at (ou_place ou) e = Some s \<and> as_kind s = Output \<and>
     as_num s = io_eca_out (ou_io ou) \<and> as_path s = output_path_of path (ou_io ou))"

definition pins_done :: "string \<Rightarrow> io list \<Rightarrow> 'z timing_receiver_scheme \<Rightarrow> bool" where
  "pins_done path sofar w \<longleftrightarrow>
     map in_io (bo_inputs w) = filter is_input sofar \<and> map ou_io (bo_outputs w) = filter is_output sofar \<and>
     (\<forall>i \<in> set (bo_inputs w). fresh_input path i) \<and> latch_agrees w \<and>
     (\<forall>ou \<in> set (bo_outputs w). output_in_place path (bo_eca w) ou)"

definition same_units :: "'z timing_receiver_scheme \<Rightarrow> 'z timing_receiver_scheme \<Rightarrow> bool" where
  "same_units w w' \<longleftrightarrow> tr_path w' = tr_path w \<and> bo_tlu w' = bo_tlu w \<and> ec_base (bo_eca w') = ec_base (bo_eca w) \<and>
     re_watchdog w' = re_watchdog w \<and> re_reset w' = re_reset w"

lemma same_units_trans: "same_units u v \<Longrightarrow> same_units v w \<Longrightarrow> same_units u w"
  by (simp add: same_units_def)

lemma same_units_refl: "same_units w w"
  by (simp add: same_units_def)

lemma fresh_wanted: "fresh_input path i \<Longrightarrow> wanted i = (0, 9, 0, 0)"
  by (simp add: fresh_input_def wanted_def)

lemma create_input_done:
  assumes "create_input env io (input_path_of path io) op' w = (Inr (), w')" "is_input io"
    and inv: "map in_io (bo_inputs w) = filter is_input sofar" "\<forall>i \<in> set (bo_inputs w). fresh_input path i" "latch_agrees w"
  shows "map in_io (bo_inputs w') = filter is_input (sofar @ [io]) \<and> (\<forall>i \<in> set (bo_inputs w'). fresh_input path i) \<and>
    latch_agrees w' \<and> bo_outputs w' = bo_outputs w \<and> ec_sinks (bo_eca w') = ec_sinks (bo_eca w) \<and> same_units w w'"
proof -
  obtain i e where r: "w' = w\<lparr>bo_eca := e, bo_inputs := bo_inputs w @ [i]\<rparr>"
    "in_io i = io" "in_channel i = io_eca_in io" "in_path i = input_path_of path io" "\<not> in_enable i" "in_event i = 0" "in_stable i = 80"
    "ec_log e = ec_log (bo_eca w) @ config_ops (bo_tlu w) (io_eca_in io) False 0 80"
    "ec_sinks e = ec_sinks (bo_eca w)" "ec_base e = ec_base (bo_eca w)"
    by (rule create_input_result [OF assms(1)])
  have fresh: "fresh_input path i" using r by (simp add: fresh_input_def)
  have log: "latched (bo_tlu w) (ec_log e) = (latched (bo_tlu w) (ec_log (bo_eca w)))(io_eca_in io := (0, 9, 0, 0))"
    unfolding r(8) latched_config by simp
  have "latch_agrees w'" unfolding latch_agrees_def
  proof
    fix j assume "j \<in> set (bo_inputs w')"
    then have "j \<in> set (bo_inputs w) \<or> j = i" using r(1) by auto
    moreover from this have "wanted j = (0, 9, 0, 0)" using fresh inv(2) fresh_wanted by blast
    ultimately show "latched (bo_tlu w') (ec_log (bo_eca w')) (in_channel j) = wanted j"
      using inv(3) r(1,3) log by (auto simp: latch_agrees_def)
  qed
  then show ?thesis using r fresh inv assms(2) by (auto simp: same_units_def)
qed

lemma sink_at_appended:
  assumes "sink_at p e = Some s" "ec_sinks e' = (ec_sinks e)[0 := ec_sinks e ! 0 @ others]"
  shows "sink_at p e' = Some s"
proof -
  obtain ci si where p: "p = (ci, si)" by fastforce
  then have b: "ci < length (ec_sinks e)" "si < length (ec_sinks e ! ci)" "ec_sinks e ! ci ! si = Some s"
    using assms(1) by (auto simp: sink_at_def split: if_splits)
  show ?thesis using b by (cases "ci = 0") (simp_all add: p sink_at_def assms(2) nth_append)
qed

lemma create_output_done:
  assumes "create_output env io ip (output_path_of path io) w = (Inr (), w')" "is_output io"
    and inv: "map ou_io (bo_outputs w) = filter is_output sofar" "\<forall>ou \<in> set (bo_outputs w). output_in_place path (bo_eca w) ou" "latch_agrees w"
    and apart: "select_registers (ec_base (bo_eca w)) \<inter> tlu_registers (bo_tlu w) = {}"
  shows "map ou_io (bo_outputs w') = filter is_output (sofar @ [io]) \<and> (\<forall>ou \<in> set (bo_outputs w'). output_in_place path (bo_eca w') ou) \<and>
    latch_agrees w' \<and> bo_inputs w' = bo_inputs w \<and> same_units w w'"
proof -
  obtain ou e s ops where r: "w' = w\<lparr>bo_eca := e, bo_outputs := bo_outputs w @ [ou]\<rparr>"
    "ou_io ou = io" "ou_place ou = (0, length (ec_sinks (bo_eca w) ! 0))" "ec_sinks (bo_eca w) \<noteq> []"
    "ec_sinks e = (ec_sinks (bo_eca w))[0 := ec_sinks (bo_eca w) ! 0 @ [Some s]]"
    "as_kind s = Output" "as_path s = output_path_of path io" "as_name s = io_name io" "as_num s = io_eca_out io"
    "ec_log e = ec_log (bo_eca w) @ ops" "writes ops \<subseteq> select_registers (ec_base (bo_eca w))" "ec_base e = ec_base (bo_eca w)"
    by (rule create_output_result [OF assms(1)])
  have "writes ops \<inter> tlu_registers (bo_tlu w) = {}" using r(11) apart by blast
  from latched_elsewhere [OF this] have log: "latched (bo_tlu w) (ec_log e) = latched (bo_tlu w) (ec_log (bo_eca w))"
    unfolding r(10) .
  have "sink_at (ou_place ou) e = Some s" using r(3-5) by (simp add: sink_at_def)
  then have new: "output_in_place path e ou" using r by (simp add: output_in_place_def)
  have old: "output_in_place path e o'" if "o' \<in> set (bo_outputs w)" for o'
    using inv(2) that sink_at_appended [OF _ r(5)] by (fastforce simp: output_in_place_def)
  show ?thesis using r(1,2,12) new old inv(1,3) assms(2) log by (auto simp: same_units_def latch_agrees_def)
qed

lemma output_in_place_cong: "ec_sinks e' = ec_sinks e \<Longrightarrow> output_in_place path e' ou = output_in_place path e ou"
  by (simp add: output_in_place_def sink_at_cong [of e' e])

lemma create_pin_done:
  assumes "create_pin env io w = (Inr (), w')" "pins_done (tr_path w) sofar w"
    and apart: "select_registers (ec_base (bo_eca w)) \<inter> tlu_registers (bo_tlu w) = {}"
  shows "pins_done (tr_path w) (sofar @ [io]) w' \<and> same_units w w'"
proof -
  let ?path = "tr_path w"
  obtain w1 where w1: "(if is_input io then create_input env io (input_path_of ?path io) (output_path_of ?path io) else ret ()) w = (Inr (), w1)"
    "(if is_output io then create_output env io (input_path_of ?path io) (output_path_of ?path io) else ret ()) w1 = (Inr (), w')"
    using assms(1) by (auto simp: create_pin_def thn_def bnd_eq_Inr gets_def)
  have one: "map in_io (bo_inputs w1) = filter is_input (sofar @ [io]) \<and> (\<forall>i \<in> set (bo_inputs w1). fresh_input ?path i) \<and>
      latch_agrees w1 \<and> bo_outputs w1 = bo_outputs w \<and> ec_sinks (bo_eca w1) = ec_sinks (bo_eca w) \<and> same_units w w1"
  proof (cases "is_input io")
    case True
    then show ?thesis using create_input_done [of env io ?path _ w w1 sofar] w1(1) assms(2) by (simp add: pins_done_def)
  next
    case False
    then have "w1 = w" using w1(1) by (simp add: ret_def)
    then show ?thesis using False assms(2) by (simp add: pins_done_def same_units_refl)
  qed
  then have outs: "\<forall>ou \<in> set (bo_outputs w1). output_in_place ?path (bo_eca w1) ou" "map ou_io (bo_outputs w1) = filter is_output sofar"
    using assms(2) by (simp_all add: pins_done_def output_in_place_cong [of "bo_eca w1" "bo_eca w"])
  show ?thesis
  proof (cases "is_output io")
    case True
    have "select_registers (ec_base (bo_eca w1)) \<inter> tlu_registers (bo_tlu w1) = {}" using apart one by (simp add: same_units_def)
    note ap = this
    have co: "create_output env io (input_path_of ?path io) (output_path_of ?path io) w1 = (Inr (), w')" using w1(2) True by simp
    have la: "latch_agrees w1" using one by blast
    note two = create_output_done [OF co True outs(2,1) la ap]
    have su: "same_units w w1" "same_units w1 w'" using conjunct2 [OF one] conjunct2 [OF two] by simp_all
    have i: "bo_inputs w' = bo_inputs w1" using conjunct2 [OF two] by simp
    have "pins_done ?path (sofar @ [io]) w'"
      unfolding pins_done_def i by (intro conjI) (use one two in blast)+
    then show ?thesis using same_units_trans [OF su] by blast
  next
    case False
    then have "w' = w1" using w1(2) by (simp add: ret_def)
    then show ?thesis using False one outs by (simp add: pins_done_def)
  qed
qed

lemma create_pins_done:
  "for_each (create_pin env) ios w = (Inr (), w') \<Longrightarrow> pins_done (tr_path w) sofar w \<Longrightarrow>
   select_registers (ec_base (bo_eca w)) \<inter> tlu_registers (bo_tlu w) = {} \<Longrightarrow>
   pins_done (tr_path w) (sofar @ ios) w' \<and> same_units w w'"
proof (induction ios arbitrary: w sofar)
  case (Cons io ios)
  obtain w1 where w1: "create_pin env io w = (Inr (), w1)" "for_each (create_pin env) ios w1 = (Inr (), w')"
    using Cons.prems(1) by (auto simp: thn_def bnd_eq_Inr)
  have d: "pins_done (tr_path w) (sofar @ [io]) w1" "same_units w w1" using create_pin_done [OF w1(1) Cons.prems(2,3)] by simp_all
  then have "pins_done (tr_path w1) ((sofar @ [io]) @ ios) w' \<and> same_units w1 w'"
    using Cons.prems(3) by (intro Cons.IH [OF w1(2)]) (simp_all add: same_units_def)
  then show ?case using d(2) same_units_trans [OF d(2)] by (simp add: same_units_def)
qed (simp add: ret_def same_units_refl)

section \<open>The body of the constructor\<close>

text \<open>The registers that the rest of the body writes to are not those of the latch unit.\<close>

definition units_apart :: "'z timing_receiver_scheme \<Rightarrow> bool" where
  "units_apart w \<longleftrightarrow> (select_registers (ec_base (bo_eca w)) \<union> {re_watchdog w, re_reset w + FPGA_RESET_WATCHDOG_TRG})
     \<inter> tlu_registers (bo_tlu w) = {}"

lemma device_ops_result:
  "device_write hw a d e = (Inr (), e') \<Longrightarrow> e' = e\<lparr>ec_log := ec_log e @ [BusWrite a d]\<rparr>"
  "device_read hw a e = (Inr x, e') \<Longrightarrow> e' = e\<lparr>ec_log := ec_log e @ [BusRead a]\<rparr>"
  by (auto simp: device_write_def device_read_def cycle_def close_cycle_def op_simps split: option.splits)

lemma tr_poll_result:
  assumes "tr_poll env w = (Inr b, w')"
  obtains ops l s where "w' = w\<lparr>bo_eca := (bo_eca w)\<lparr>ec_log := ec_log (bo_eca w) @ ops\<rparr>, re_locked := l, re_lock_signals := s\<rparr>"
    "writes ops \<subseteq> {re_watchdog w, re_reset w + FPGA_RESET_WATCHDOG_TRG}"
proof -
  let ?a = "re_wr w + WR_PPS_GEN_ESCR"
  obtain b0 w1 w2 where steps: "getLocked (rv_hw env) w = (Inr b0, w1)" "watchdog_update (rv_hw env) w1 = (Inr (), w2)"
    "WdRetrigger (rv_hw env) w2 = (Inr (), w')"
    using assms by (auto simp: tr_poll_def thn_def bnd_eq_Inr ret_def)
  obtain x e1 where x: "device_read (rv_hw env) ?a (bo_eca w) = (Inr x, e1)"
    using steps(1) by (auto simp: getLocked_def on_eca_def bnd_eq_Inr gets_def split: prod.splits)
  have e1: "e1 = (bo_eca w)\<lparr>ec_log := ec_log (bo_eca w) @ [BusRead ?a]\<rparr>" by (rule device_ops_result(2) [OF x])
  have "\<exists>l s. w1 = w\<lparr>bo_eca := e1, re_locked := l, re_lock_signals := s\<rparr>"
  proof (cases "(x AND WR_PPS_GEN_ESCR_MASK = WR_PPS_GEN_ESCR_MASK) = re_locked w")
    case True
    then have "w1 = w\<lparr>bo_eca := e1\<rparr>"
      using steps(1) x by (simp add: getLocked_def on_eca_def op_simps Let_def)
    then have "w1 = w\<lparr>bo_eca := e1, re_locked := re_locked w, re_lock_signals := re_lock_signals w\<rparr>" by (cases w) simp
    then show ?thesis by blast
  next
    case False
    then have "w1 = w\<lparr>bo_eca := e1, re_locked := b0, re_lock_signals := re_lock_signals w @ [b0]\<rparr>"
      using steps(1) x by (auto simp: getLocked_def on_eca_def op_simps Let_def)
    then show ?thesis by blast
  qed
  then obtain l s where w1: "w1 = w\<lparr>bo_eca := e1, re_locked := l, re_lock_signals := s\<rparr>" by blast
  obtain e2 where e2: "device_write (rv_hw env) (re_watchdog w) (re_watchdog_value w) e1 = (Inr (), e2)" "w2 = w1\<lparr>bo_eca := e2\<rparr>"
    using steps(2) by (auto simp: watchdog_update_def on_eca_def bnd_eq_Inr gets_def w1 split: prod.splits)
  obtain e3 where e3: "device_write (rv_hw env) (re_reset w + FPGA_RESET_WATCHDOG_TRG) FPGA_RESET_WATCHDOG_TRG_VALUE e2 = (Inr (), e3)"
    "w' = w2\<lparr>bo_eca := e3\<rparr>"
    using steps(3) by (auto simp: WdRetrigger_def on_eca_def bnd_eq_Inr gets_def w1 e2(2) split: prod.splits)
  define ops where "ops = [BusRead ?a, BusWrite (re_watchdog w) (re_watchdog_value w),
      BusWrite (re_reset w + FPGA_RESET_WATCHDOG_TRG) FPGA_RESET_WATCHDOG_TRG_VALUE]"
  have "e3 = (bo_eca w)\<lparr>ec_log := ec_log (bo_eca w) @ ops\<rparr>"
    using device_ops_result(1) [OF e2(1)] device_ops_result(1) [OF e3(1)] by (simp add: e1 ops_def)
  moreover have "writes ops \<subseteq> {re_watchdog w, re_reset w + FPGA_RESET_WATCHDOG_TRG}" by (simp add: ops_def)
  ultimately show thesis by (intro that [of s l ops]) (simp_all add: e3(2) e2(2) w1)
qed

lemma receiver_body_done:
  assumes "receiver_body env w = (Inr (), w')" "bo_inputs w = []" "bo_outputs w = []" "units_apart w"
  shows "pins_done (tr_path w) (bo_ios w) w'"
proof -
  obtain w1 b w2 h e where steps: "for_each (create_pin env) (bo_ios w) w = (Inr (), w1)" "tr_poll env w1 = (Inr b, w2)"
    "connect_timeout PollReceiver 1000 (bo_eca w2) = (Inr h, e)" "w' = w2\<lparr>bo_eca := e, tr_poll_source := h\<rparr>"
    using assms(1)
    unfolding receiver_body_def bnd_eq_Inr run_simps on_eca_Inr modify_Inr by auto
  have "pins_done (tr_path w) [] w" using assms(2,3) by (simp add: pins_done_def latch_agrees_def)
  then have one: "pins_done (tr_path w) (bo_ios w) w1" "same_units w w1"
    using create_pins_done [OF steps(1), of "[]"] assms(4) by (auto simp: units_apart_def)
  obtain ops l s where w2: "w2 = w1\<lparr>bo_eca := (bo_eca w1)\<lparr>ec_log := ec_log (bo_eca w1) @ ops\<rparr>, re_locked := l, re_lock_signals := s\<rparr>"
    "writes ops \<subseteq> {re_watchdog w1, re_reset w1 + FPGA_RESET_WATCHDOG_TRG}" by (rule tr_poll_result [OF steps(2)])
  have "writes ops \<inter> tlu_registers (bo_tlu w1) = {}" using w2(2) assms(4) one(2) by (auto simp: units_apart_def same_units_def)
  from latched_elsewhere [OF this]
  have log: "latched (bo_tlu w1) (ec_log (bo_eca w1) @ ops) = latched (bo_tlu w1) (ec_log (bo_eca w1))" .
  have e: "ec_log e = ec_log (bo_eca w2)" "ec_sinks e = ec_sinks (bo_eca w2)"
    using steps(3) by (auto simp: connect_timeout_def bnd_def split: list.splits prod.splits)
  have "output_in_place p e ou = output_in_place p (bo_eca w1) ou" for p ou
    by (rule output_in_place_cong) (simp add: e(2) w2(1))
  then show ?thesis using one(1) by (simp add: pins_done_def latch_agrees_def steps(4) e(1) w2(1) log)
qed

text \<open>The numbers of the pins are the channels of the inputs; all are different.\<close>

lemma input_numbers_distinct:
  assumes "\<forall>i < length ios. io_eca_in (ios ! i) = of_nat (length (filter is_input (take i ios)))" "length ios < 2 ^ 32"
  shows "distinct (map io_eca_in (filter is_input ios))"
proof -
  have "map io_eca_in (filter is_input (take n ios)) = map of_nat [0..<length (filter is_input (take n ios))]" if "n \<le> length ios" for n
    using that
  proof (induction n)
    case (Suc n)
    then have "take (Suc n) ios = take n ios @ [ios ! n]" by (simp add: take_Suc_conv_app_nth)
    then show ?case using Suc assms(1) by simp
  qed simp
  from this [of "length ios"] have m: "map io_eca_in (filter is_input ios) = map of_nat [0..<length (filter is_input ios)]" by simp
  have "length (filter is_input ios) < 2 ^ 32" using assms(2) length_filter_le [of is_input ios] by linarith
  then have "inj_on (of_nat :: nat \<Rightarrow> u32) (set [0..<length (filter is_input ios)])"
    by (intro inj_onI) (simp add: word_of_nat_eq_iff take_bit_nat_eq_self)
  then show ?thesis unfolding m distinct_map by simp
qed

end
