(* ===== verification/Spec2Isabelle.thy ===== *)
theory Spec2Isabelle
  imports Bus_Properties ECA_Properties Runtime_Properties Function_Generator_Properties Function_Generator_Claims Board_Properties Interrupts_Facts Devices Receiver_Facts
begin

text \<open>
  A verification library for saftlib: the saftbus daemon and the timing drivers behind it.
\<close>

end
